(* ===== verification/Prelude.thy ===== *)
theory Prelude
  imports Main "HOL-Library.Word"
begin

text \<open>
  Shared vocabulary of the development: the byte and integer types, the
  sequencing of fallible computations, the collections of simplification rules,
  and the generic list and integer lemmas the component theories rely on.
\<close>

unbundle bit_operations_syntax

section \<open>Types\<close>

type_synonym byte = "8 word"
type_synonym bytes = "byte list"
type_synonym oid_t = "32 word"

text \<open>\<open>size_type\<close> is a signed 32-bit integer in the source; its values are
  represented by the integer they denote, and every conversion into it goes
  through \<open>int32_of\<close>.\<close>

type_synonym size_type = int

definition int32_of :: "int \<Rightarrow> int" where
  "int32_of x = (x + 2 ^ 31) mod 2 ^ 32 - 2 ^ 31"

definition int64_min :: int where "int64_min = - (2 ^ 63)"
definition int64_max :: int where "int64_max = 2 ^ 63 - 1"

definition in_int64 :: "int \<Rightarrow> bool" where
  "in_int64 x \<longleftrightarrow> int64_min \<le> x \<and> x \<le> int64_max"

text \<open>C++ integer division and remainder truncate toward zero.\<close>

definition cdiv :: "int \<Rightarrow> int \<Rightarrow> int" where
  "cdiv a b = sgn a * sgn b * (\<bar>a\<bar> div \<bar>b\<bar>)"

definition crem :: "int \<Rightarrow> int \<Rightarrow> int" where
  "crem a b = a - b * cdiv a b"

section \<open>Fallible computations\<close>

fun bindR :: "'e + 'a \<Rightarrow> ('a \<Rightarrow> 'e + 'b) \<Rightarrow> 'e + 'b" where
  "bindR (Inl e) f = Inl e"
| "bindR (Inr x) f = f x"

lemma bindR_cong [fundef_cong]:
  assumes "r = r'" and "\<And>x. r' = Inr x \<Longrightarrow> f x = f' x"
  shows "bindR r f = bindR r' f'"
  using assms by (cases r') auto

lemma bindR_eq_Inr_iff [simp]: "bindR r f = Inr y \<longleftrightarrow> (\<exists>x. r = Inr x \<and> f x = Inr y)"
  by (cases r) auto

lemma bindR_eq_Inl_iff: "bindR r f = Inl e \<longleftrightarrow> r = Inl e \<or> (\<exists>x. r = Inr x \<and> f x = Inl e)"
  by (cases r) auto

section \<open>Collections\<close>

named_theorems codec_simps \<open>sizes and byte images of the leaf encoders\<close>
named_theorems inv_simps \<open>component invariants unfolded by the preservation proofs\<close>

section \<open>Integer lemmas\<close>

lemma int32_of_id [simp]: "\<lbrakk>- (2 ^ 31) \<le> x; x < 2 ^ 31\<rbrakk> \<Longrightarrow> int32_of x = x"
  by (simp add: int32_of_def)

lemma int32_of_range: "- (2 ^ 31) \<le> int32_of x" "int32_of x < 2 ^ 31"
  by (simp_all add: int32_of_def)

lemma int32_of_sint: "int32_of x = sint (word_of_int x :: 32 word)"
  by (simp add: int32_of_def signed_take_bit_eq_take_bit_shift sint_uint uint_word_of_int
      take_bit_eq_mod mod_simps)

lemma cdiv_nonneg: "0 \<le> a \<Longrightarrow> 0 < b \<Longrightarrow> cdiv a b = a div b"
  by (cases "a = 0") (simp_all add: cdiv_def)

lemma cdiv_neg: "0 \<le> a \<Longrightarrow> 0 < b \<Longrightarrow> cdiv (- a) b = - (a div b)"
  by (cases "a = 0") (simp_all add: cdiv_def)

lemma crem_nonneg: "0 \<le> a \<Longrightarrow> 0 < b \<Longrightarrow> crem a b = a mod b"
  by (simp add: crem_def cdiv_nonneg minus_mult_div_eq_mod)

lemma crem_neg: "0 \<le> a \<Longrightarrow> 0 < b \<Longrightarrow> crem (- a) b = - (a mod b)"
  by (simp add: crem_def cdiv_neg minus_mult_div_eq_mod [symmetric])

lemma cdiv_crem_sign:
  assumes "0 < b"
  shows "a = cdiv a b * b + crem a b" "\<bar>crem a b\<bar> < b"
    "0 \<le> a \<Longrightarrow> 0 \<le> crem a b \<and> 0 \<le> cdiv a b" "a \<le> 0 \<Longrightarrow> crem a b \<le> 0 \<and> cdiv a b \<le> 0"
proof -
  show "a = cdiv a b * b + crem a b" by (simp add: crem_def)
  show "0 \<le> a \<Longrightarrow> 0 \<le> crem a b \<and> 0 \<le> cdiv a b"
    using assms by (simp add: crem_nonneg cdiv_nonneg pos_imp_zdiv_nonneg_iff)
  show "a \<le> 0 \<Longrightarrow> crem a b \<le> 0 \<and> cdiv a b \<le> 0"
    using assms crem_neg [of "- a" b] cdiv_neg [of "- a" b]
    by (simp add: pos_imp_zdiv_nonneg_iff)
  show "\<bar>crem a b\<bar> < b"
    using assms crem_neg [of "- a" b] crem_nonneg [of a b] by (cases "0 \<le> a") simp_all
qed

lemma cdiv_mult_self: "0 < b \<Longrightarrow> cdiv (b * k) b = k"
  using cdiv_nonneg [of "b * k" b] cdiv_neg [of "b * - k" b] nonzero_mult_div_cancel_left [of b "- k"]
  by (cases "0 \<le> k") (simp_all add: mult_le_0_iff)

section \<open>List lemmas\<close>

lemma take_append_length [simp]: "length xs = n \<Longrightarrow> take n (xs @ ys) = xs"
  by auto

lemma drop_append_length [simp]: "length xs = n \<Longrightarrow> drop n (xs @ ys) = ys"
  by auto

lemma sum_list_member_le: "x \<in> set xs \<Longrightarrow> (x :: nat) \<le> sum_list xs"
  by (induction xs) auto

text \<open>Distinctness of a long list of numerals, decided by one sort and one pass.\<close>

fun ascending :: "int list \<Rightarrow> bool" where
  "ascending (x # y # ys) = (x < y \<and> ascending (y # ys))"
| "ascending _ = True"

lemma ascending_sorted_wrt: "ascending xs \<Longrightarrow> sorted_wrt (<) xs"
  by (induction xs rule: ascending.induct) (auto intro: order_less_trans)

lemma distinct_by_sort: "ascending (sort xs) \<Longrightarrow> distinct xs"
  using ascending_sorted_wrt strict_sorted_iff distinct_sort by metis

end
