(* ===== verification/Error_Codes.thy ===== *)
theory Error_Codes
  imports Prelude
begin

text \<open>
  The enumerations of \<open>error.h\<close> and of the resource pool's \<open>error.hpp\<close>, the error
  code type built from them and the exceptions thrown by the library. An
  \<open>error_code\<close> is a value of one of the categories the code uses; Boost.Asio and
  system values are the named ones the source mentions, any other one is
  \<open>Other_error\<close>.
\<close>

section \<open>Enumerations\<close>

datatype ozo_error =
    error_ok
  | pq_connection_start_failed
  | pq_socket_failed
  | pq_connection_status_bad
  | pq_connect_poll_failed
  | oid_type_mismatch
  | unexpected_eof
  | pg_send_query_params_failed
  | pg_consume_input_failed
  | pg_set_nonblocking_failed
  | pg_flush_failed
  | bad_result_process
  | no_sql_state_found
  | result_status_unexpected
  | result_status_empty_query
  | result_status_bad_response
  | oid_request_failed
  | bad_object_size
  | bad_array_size
  | bad_array_dimension
  | bad_composite_size
  | pq_cancel_failed
  | pq_get_cancel_failed

datatype errc_code =
    errc_ok
  | connection_error
  | database_readonly
  | introspection_error
  | type_mismatch
  | protocol_error

datatype asio_error =
    broken_pipe | connection_aborted | connection_refused | connection_reset | fault
  | host_unreachable | interrupted | network_reset | not_connected | operation_aborted
  | shut_down | timed_out | try_again | host_not_found | host_not_found_try_again
  | netdb_no_data | no_recovery | system_io_error | bad_descriptor

datatype pool_error =
    pool_ok | get_resource_timeout | request_queue_overflow | pool_disabled

datatype error_code =
    Success
  | Ozo_error ozo_error
  | Sqlstate int
  | Asio_error asio_error
  | Pool_error pool_error
  | Other_error nat

text \<open>The boolean value of an error code: whether its numeric value is not zero.\<close>

fun failed :: "error_code \<Rightarrow> bool" where
  "failed Success = False"
| "failed (Ozo_error e) = (e \<noteq> error_ok)"
| "failed (Sqlstate v) = (v \<noteq> 0)"
| "failed (Asio_error e) = True"
| "failed (Pool_error e) = (e \<noteq> pool_ok)"
| "failed (Other_error n) = True"

text \<open>The exceptions that leave the modelled functions. The text of a message is
  not represented: it holds type names chosen by the compiler.\<close>

datatype exn =
    System_Error ozo_error
  | Invalid_Argument
  | Range_Error
  | Length_Error
  | Out_Of_Range

type_synonym 'a result = "exn + 'a"

end
