(* ===== verification/Time_Traits.thy ===== *)
theory Time_Traits
  imports Prelude
begin

text \<open>
  Clock arithmetic of the resource pool (\<open>time_traits.hpp\<close>). A time point and a
  duration are the 64-bit tick counts of \<open>steady_clock\<close>, represented as integers.
\<close>

type_synonym time = int

definition add_time :: "time \<Rightarrow> int \<Rightarrow> time" where
  "add_time t d =
    (if t \<ge> 0
     then if int64_max - t < d then int64_max else t + d
     else if - (t - int64_min) > d then int64_min else t + d)"

text \<open>Adding a duration to a time point never overflows: the sum is exact where it
  is representable and the nearest bound of the clock otherwise.\<close>

lemma add_time_saturates:
  assumes "in_int64 t" "in_int64 d"
  shows "add_time t d = max int64_min (min int64_max (t + d))"
  using assms by (auto simp: add_time_def in_int64_def int64_min_def int64_max_def)

lemma add_time_mono: "\<lbrakk>in_int64 t; in_int64 d; 0 \<le> d\<rbrakk> \<Longrightarrow> t \<le> add_time t d"
  by (auto simp: add_time_def in_int64_def int64_min_def int64_max_def)

lemma add_time_gt: "\<lbrakk>t < int64_max; 0 < d\<rbrakk> \<Longrightarrow> int64_min \<le> t \<Longrightarrow> t < add_time t d"
  by (auto simp: add_time_def int64_min_def int64_max_def)

end
