(* ===== verification/Storage.thy ===== *)
theory Storage
  imports Time_Traits
begin

text \<open>
  The cell storage of the resource pool: \<open>detail/idle.hpp\<close> and \<open>detail/storage.hpp\<close>. The
  three lists of the source keep their nodes when they are spliced, so a cell is a
  number, the lists hold numbers and \<open>st_cell\<close> maps a number to the content of the
  cell. Every operation that reads the clock takes the reading as an argument.
\<close>

section \<open>State\<close>

record 'v idle =
  idle_value :: "'v option"
  drop_time :: time
  reset_time :: time
  waste_on_recycle :: bool

record 'v storage =
  idle_timeout :: int
  lifespan :: int
  available :: "nat list"
  used :: "nat list"
  wasted :: "nat list"
  st_cell :: "nat \<Rightarrow> 'v idle"

record storage_stats =
  stats_available :: nat
  stats_used :: nat
  stats_wasted :: nat

section \<open>Operations\<close>

definition empty_cell :: "'v idle" where
  "empty_cell = \<lparr>idle_value = None, drop_time = int64_max, reset_time = 0, waste_on_recycle = False\<rparr>"

definition make_storage :: "nat \<Rightarrow> int \<Rightarrow> int \<Rightarrow> 'v storage" where
  "make_storage capacity timeout span =
     \<lparr>idle_timeout = timeout, lifespan = span, available = [], used = [],
      wasted = [0..<capacity], st_cell = (\<lambda>_. empty_cell)\<rparr>"

definition make_storage_from :: "time \<Rightarrow> 'v list \<Rightarrow> int \<Rightarrow> int \<Rightarrow> 'v storage" where
  "make_storage_from now vs timeout span = (
     let drop = min (add_time now timeout) (add_time now span) in
     \<lparr>idle_timeout = timeout, lifespan = span, available = [0..<length vs], used = [], wasted = [],
      st_cell = (\<lambda>i. if i < length vs
        then \<lparr>idle_value = Some (vs ! i), drop_time = drop, reset_time = now, waste_on_recycle = False\<rparr>
        else empty_cell)\<rparr>)"

definition storage_get_stats :: "'v storage \<Rightarrow> storage_stats" where
  "storage_get_stats s = \<lparr>stats_available = length (available s), stats_used = length (used s),
     stats_wasted = length (wasted s)\<rparr>"

definition set_cell :: "nat \<Rightarrow> ('v idle \<Rightarrow> 'v idle) \<Rightarrow> 'v storage \<Rightarrow> 'v storage" where
  "set_cell c f s = s\<lparr>st_cell := (st_cell s)(c := f (st_cell s c))\<rparr>"

definition reset_value :: "nat \<Rightarrow> 'v storage \<Rightarrow> 'v storage" where
  "reset_value c s = set_cell c (\<lambda>x. x\<lparr>idle_value := None\<rparr>) s"

text \<open>The loop of \<open>lease\<close>: the first available cell that has not expired, the expired
  ones before it moved to \<open>wasted_\<close>.\<close>

fun lease_available :: "time \<Rightarrow> nat list \<Rightarrow> 'v storage \<Rightarrow> nat option \<times> 'v storage" where
  "lease_available now [] s = (None, s\<lparr>available := []\<rparr>)"
| "lease_available now (c # cs) s =
    (if drop_time (st_cell s c) > now
     then (Some c, s\<lparr>available := cs, used := used s @ [c]\<rparr>)
     else lease_available now cs (reset_value c (s\<lparr>wasted := wasted s @ [c]\<rparr>)))"

definition lease :: "time \<Rightarrow> 'v storage \<Rightarrow> nat option \<times> 'v storage" where
  "lease now s = (case lease_available now (available s) s of
     (Some c, s') \<Rightarrow> (Some c, s')
   | (None, s') \<Rightarrow> (case wasted s' of
       [] \<Rightarrow> (None, s')
     | c # cs \<Rightarrow> (Some c, set_cell c (\<lambda>x. x\<lparr>waste_on_recycle := False\<rparr>)
                        (s'\<lparr>wasted := cs, used := used s' @ [c]\<rparr>))))"

definition storage_waste :: "nat \<Rightarrow> 'v storage \<Rightarrow> 'v storage" where
  "storage_waste c s = reset_value c (s\<lparr>used := remove1 c (used s), wasted := wasted s @ [c]\<rparr>)"

definition storage_recycle :: "time \<Rightarrow> nat \<Rightarrow> 'v storage \<Rightarrow> 'v storage" where
  "storage_recycle now c s =
    (let life_end = add_time (reset_time (st_cell s c)) (lifespan s) in
     if waste_on_recycle (st_cell s c) then storage_waste c s
     else if life_end \<le> now then storage_waste c s
     else set_cell c (\<lambda>x. x\<lparr>drop_time := min (add_time now (idle_timeout s)) life_end\<rparr>)
            (s\<lparr>used := remove1 c (used s), available := available s @ [c]\<rparr>))"

definition is_valid :: "time \<Rightarrow> nat \<Rightarrow> 'v storage \<Rightarrow> bool" where
  "is_valid now c s \<longleftrightarrow> \<not> waste_on_recycle (st_cell s c)
     \<and> \<not> add_time (reset_time (st_cell s c)) (lifespan s) \<le> now"

definition storage_invalidate :: "'v storage \<Rightarrow> 'v storage" where
  "storage_invalidate s = s\<lparr>available := [], wasted := wasted s @ available s,
     st_cell := (\<lambda>c. if c \<in> set (available s) then (st_cell s c)\<lparr>idle_value := None\<rparr>
                     else if c \<in> set (used s) then (st_cell s c)\<lparr>waste_on_recycle := True\<rparr>
                     else st_cell s c)\<rparr>"

section \<open>The contract of a cell storage\<close>

text \<open>A storage manages a fixed set of cells, each of them free or in use. The laws say
  which operation moves which cell; the client of the storage relies on nothing else.\<close>

locale cell_storage =
  fixes lease_op :: "time \<Rightarrow> 's \<Rightarrow> nat option \<times> 's"
    and recycle_op :: "time \<Rightarrow> nat \<Rightarrow> 's \<Rightarrow> 's"
    and waste_op :: "nat \<Rightarrow> 's \<Rightarrow> 's"
    and invalidate_op :: "'s \<Rightarrow> 's"
    and free_cells :: "'s \<Rightarrow> nat set"
    and used_cells :: "'s \<Rightarrow> nat set"
    and invar :: "'s \<Rightarrow> bool"
  assumes disjoint: "invar s \<Longrightarrow> free_cells s \<inter> used_cells s = {}"
    and lease_none: "invar s \<Longrightarrow> lease_op t s = (None, s') \<Longrightarrow>
      free_cells s = {} \<and> free_cells s' = {} \<and> used_cells s' = used_cells s \<and> invar s'"
    and lease_some: "invar s \<Longrightarrow> lease_op t s = (Some c, s') \<Longrightarrow>
      c \<in> free_cells s \<and> free_cells s' = free_cells s - {c} \<and> used_cells s' = insert c (used_cells s) \<and> invar s'"
    and recycle_cell: "invar s \<Longrightarrow> c \<in> used_cells s \<Longrightarrow>
      free_cells (recycle_op t c s) = insert c (free_cells s)
      \<and> used_cells (recycle_op t c s) = used_cells s - {c} \<and> invar (recycle_op t c s)"
    and waste_cell: "invar s \<Longrightarrow> c \<in> used_cells s \<Longrightarrow>
      free_cells (waste_op c s) = insert c (free_cells s)
      \<and> used_cells (waste_op c s) = used_cells s - {c} \<and> invar (waste_op c s)"
    and invalidate_cells: "invar s \<Longrightarrow>
      free_cells (invalidate_op s) = free_cells s \<and> used_cells (invalidate_op s) = used_cells s
      \<and> invar (invalidate_op s)"
begin

lemma lease_none_iff:
  assumes "invar s"
  shows "fst (lease_op t s) = None \<longleftrightarrow> free_cells s = {}"
proof (cases "lease_op t s")
  case (Pair r s')
  with assms lease_none [of s t s'] lease_some [of s t _ s'] show ?thesis by (cases r) auto
qed

lemma lease_twice_distinct:
  assumes "invar s" "lease_op t s = (Some c, s1)" "lease_op t' s1 = (Some d, s2)"
  shows "c \<noteq> d"
  using lease_some [OF assms(1,2)] lease_some [of s1 t' d s2] assms(3) by auto

lemma cells_conserved:
  assumes "invar s"
  shows "lease_op t s = (r, s') \<Longrightarrow> free_cells s' \<union> used_cells s' = free_cells s \<union> used_cells s"
    and "c \<in> used_cells s \<Longrightarrow> free_cells (recycle_op t c s) \<union> used_cells (recycle_op t c s) = free_cells s \<union> used_cells s"
    and "c \<in> used_cells s \<Longrightarrow> free_cells (waste_op c s) \<union> used_cells (waste_op c s) = free_cells s \<union> used_cells s"
    and "free_cells (invalidate_op s) \<union> used_cells (invalidate_op s) = free_cells s \<union> used_cells s"
  using assms lease_none [of s t s'] lease_some [of s t _ s'] recycle_cell [of s c t] waste_cell [of s c]
    invalidate_cells [of s]
  by (cases r; auto)+

end

section \<open>The storage meets the contract\<close>

definition storage_cells :: "'v storage \<Rightarrow> nat list" where
  "storage_cells s = available s @ used s @ wasted s"

definition storage_inv :: "'v storage \<Rightarrow> bool" where
  "storage_inv s \<longleftrightarrow> distinct (storage_cells s) \<and> (\<forall>c\<in>set (wasted s). idle_value (st_cell s c) = None)"

definition storage_free :: "'v storage \<Rightarrow> nat set" where
  "storage_free s = set (available s) \<union> set (wasted s)"

definition storage_used :: "'v storage \<Rightarrow> nat set" where
  "storage_used s = set (used s)"

lemmas storage_defs = storage_inv_def storage_cells_def storage_free_def storage_used_def

lemma set_cell_lists [simp]:
  "available (set_cell c f s) = available s" "used (set_cell c f s) = used s"
  "wasted (set_cell c f s) = wasted s" "lifespan (set_cell c f s) = lifespan s"
  "idle_timeout (set_cell c f s) = idle_timeout s"
  "available (reset_value c s) = available s" "used (reset_value c s) = used s"
  "wasted (reset_value c s) = wasted s" "lifespan (reset_value c s) = lifespan s"
  "idle_timeout (reset_value c s) = idle_timeout s"
  by (simp_all add: set_cell_def reset_value_def)

lemma set_cell_same [simp]: "st_cell (set_cell c f s) d = (if d = c then f (st_cell s c) else st_cell s d)"
  by (simp add: set_cell_def)

lemma reset_value_cell [simp]:
  "st_cell (reset_value c s) d = (if d = c then (st_cell s c)\<lparr>idle_value := None\<rparr> else st_cell s d)"
  by (simp add: reset_value_def)

text \<open>The loop on a suffix of the available cells, the cells before it already wasted.\<close>

lemma lease_available_spec:
  assumes "lease_available now cs s = (r, s')" "storage_inv (s\<lparr>available := cs\<rparr>)"
  shows "case r of
      None \<Rightarrow> available s' = [] \<and> used s' = used s \<and> wasted s' = wasted s @ cs \<and> storage_inv s'
        \<and> list_all (\<lambda>c. drop_time (st_cell s c) \<le> now) cs
    | Some c \<Rightarrow> (\<exists>pre post. cs = pre @ c # post \<and> available s' = post \<and> used s' = used s @ [c]
        \<and> wasted s' = wasted s @ pre \<and> storage_inv s' \<and> drop_time (st_cell s c) > now
        \<and> st_cell s' c = st_cell s c \<and> list_all (\<lambda>c. drop_time (st_cell s c) \<le> now) pre)"
  using assms
proof (induction now cs s arbitrary: r s' rule: lease_available.induct)
  case (1 now s)
  then show ?case by (auto simp: storage_defs)
next
  case (2 now c cs s)
  show ?case
  proof (cases "drop_time (st_cell s c) > now")
    case True
    with 2 show ?thesis by (auto simp: storage_defs intro!: exI [of _ "[]"])
  next
    case False
    let ?s = "reset_value c (s\<lparr>wasted := wasted s @ [c]\<rparr>)"
    have fresh: "c \<notin> set cs" using 2(3) by (simp add: storage_defs)
    have inv: "storage_inv (?s\<lparr>available := cs\<rparr>)" using 2(3) by (auto simp: storage_defs)
    have run: "lease_available now cs ?s = (r, s')" using 2(2) False by simp
    have drops: "drop_time (st_cell ?s d) = drop_time (st_cell s d)" for d by simp
    note IH = 2(1) [OF False run inv, unfolded drops]
    show ?thesis
    proof (cases r)
      case None
      with IH False fresh show ?thesis by (auto simp: list_all_iff)
    next
      case (Some d)
      with IH obtain pre post where "cs = pre @ d # post" "available s' = post" "used s' = used s @ [d]"
        "wasted s' = wasted s @ c # pre" "storage_inv s'" "drop_time (st_cell s d) > now"
        "st_cell s' d = st_cell s d" "list_all (\<lambda>c. drop_time (st_cell s c) \<le> now) pre"
        using fresh by (auto simp: list_all_iff split: if_splits)
      with Some False show ?thesis by (auto intro!: exI [of _ "c # pre"])
    qed
  qed
qed

lemma lease_spec:
  assumes "storage_inv s" "lease now s = (r, s')"
  shows "case r of
      None \<Rightarrow> storage_free s = {} \<and> s' = s
    | Some c \<Rightarrow> c \<in> storage_free s \<and> storage_free s' = storage_free s - {c}
        \<and> storage_used s' = insert c (storage_used s) \<and> storage_inv s'
        \<and> (idle_value (st_cell s' c) \<noteq> None \<longrightarrow>
             c \<in> set (available s) \<and> st_cell s' c = st_cell s c \<and> drop_time (st_cell s c) > now)"
proof -
  obtain r1 s1 where l: "lease_available now (available s) s = (r1, s1)" by fastforce
  note spec = lease_available_spec [OF l]
  show ?thesis
  proof (cases r1)
    case (Some c)
    with l assms(2) have r: "r = Some c" "s' = s1" by (simp_all add: lease_def)
    from spec Some assms(1) obtain pre post where "available s = pre @ c # post" "available s1 = post"
      "used s1 = used s @ [c]" "wasted s1 = wasted s @ pre" "storage_inv s1" "drop_time (st_cell s c) > now"
      "st_cell s1 c = st_cell s c" by auto
    with r assms(1) show ?thesis by (auto simp: storage_defs)
  next
    case None
    with spec assms(1) have s1: "available s1 = []" "used s1 = used s" "wasted s1 = wasted s @ available s"
      "storage_inv s1" by simp_all
    show ?thesis
    proof (cases "wasted s1")
      case Nil
      then have "available s = []" "wasted s = []" using s1(3) by simp_all
      with l None Nil assms(2) show ?thesis by (auto simp: lease_def storage_defs)
    next
      case (Cons c cs)
      with l None assms(2) have r: "r = Some c"
        "s' = set_cell c (\<lambda>x. x\<lparr>waste_on_recycle := False\<rparr>) (s1\<lparr>wasted := cs, used := used s1 @ [c]\<rparr>)"
        by (simp_all add: lease_def)
      have "idle_value (st_cell s1 c) = None" using s1(4) Cons by (simp add: storage_defs)
      moreover have "set (c # cs) = set (wasted s) \<union> set (available s)" using s1(3) Cons by auto
      moreover have "distinct (c # cs)" "c \<notin> set (used s)"
        using s1(4) s1(1,2) Cons unfolding storage_defs by simp_all
      ultimately show ?thesis using r s1 Cons assms(1) by (auto simp: storage_defs)
    qed
  qed
qed

lemma storage_waste_spec:
  assumes "storage_inv s" "c \<in> storage_used s"
  shows "storage_free (storage_waste c s) = insert c (storage_free s)"
    "storage_used (storage_waste c s) = storage_used s - {c}" "storage_inv (storage_waste c s)"
  using assms by (auto simp: storage_waste_def storage_defs)

lemma storage_recycle_spec:
  assumes "storage_inv s" "c \<in> storage_used s"
  shows "storage_free (storage_recycle now c s) = insert c (storage_free s)
    \<and> storage_used (storage_recycle now c s) = storage_used s - {c} \<and> storage_inv (storage_recycle now c s)"
  using storage_waste_spec [OF assms] assms
  by (simp add: storage_recycle_def Let_def) (auto simp: storage_defs)

lemma storage_invalidate_spec:
  assumes "storage_inv s"
  shows "storage_free (storage_invalidate s) = storage_free s
    \<and> storage_used (storage_invalidate s) = storage_used s \<and> storage_inv (storage_invalidate s)"
  using assms by (auto simp: storage_invalidate_def storage_defs)

interpretation cells: cell_storage lease storage_recycle storage_waste storage_invalidate
  storage_free storage_used storage_inv
proof (unfold_locales, goal_cases)
  case (1 s)
  then show ?case by (auto simp: storage_defs)
next
  case (2 s t s')
  then show ?case using lease_spec [of s t None s'] by simp
next
  case (3 s t c s')
  then show ?case using lease_spec [of s t "Some c" s'] by simp
qed (simp_all add: storage_recycle_spec storage_waste_spec storage_invalidate_spec)

lemma storage_inv_initial: "storage_inv (make_storage n timeout span)"
  "storage_inv (make_storage_from now vs timeout span)"
  by (simp_all add: make_storage_def make_storage_from_def storage_defs Let_def empty_cell_def)

section \<open>Properties\<close>

text \<open>Runs of the storage: any sequence of operations a client may call, a cell being
  given back only while it is in use.\<close>

datatype storage_op = Lease time | Recycle time nat | Waste nat | Invalidate

fun apply_op :: "'v storage \<Rightarrow> storage_op \<Rightarrow> 'v storage" where
  "apply_op s (Lease t) = snd (lease t s)"
| "apply_op s (Recycle t c) = (if c \<in> storage_used s then storage_recycle t c s else s)"
| "apply_op s (Waste c) = (if c \<in> storage_used s then storage_waste c s else s)"
| "apply_op s Invalidate = storage_invalidate s"

lemma apply_op_keeps:
  assumes "storage_inv s"
  shows "storage_inv (apply_op s p)
    \<and> storage_free (apply_op s p) \<union> storage_used (apply_op s p) = storage_free s \<union> storage_used s"
proof (cases p)
  case (Lease t)
  obtain r s' where "lease t s = (r, s')" by fastforce
  then show ?thesis
    using assms Lease cells.cells_conserved(1) [OF assms] cells.lease_none [OF assms] cells.lease_some [OF assms]
    by (cases r) auto
qed (use assms in \<open>auto simp: cells.recycle_cell cells.waste_cell
    cells.invalidate_cells\<close>)

lemma storage_run_keeps:
  assumes "storage_inv s"
  shows "storage_inv (foldl apply_op s ps)
    \<and> storage_free (foldl apply_op s ps) \<union> storage_used (foldl apply_op s ps) = storage_free s \<union> storage_used s"
  using assms
proof (induction ps arbitrary: s)
  case (Cons p ps)
  then show ?case using apply_op_keeps [OF Cons.prems, of p] by simp
qed simp

lemma storage_inv_card:
  assumes "storage_inv s"
  shows "length (available s) + length (used s) + length (wasted s) = card (storage_free s \<union> storage_used s)"
proof -
  have "card (set (storage_cells s)) = length (storage_cells s)"
    using assms by (simp add: storage_inv_def distinct_card)
  moreover have "set (storage_cells s) = storage_free s \<union> storage_used s" by (auto simp: storage_defs)
  ultimately show ?thesis by (simp add: storage_cells_def)
qed

text \<open>C28: no sequence of operations loses or duplicates a cell: from a storage of the
  given capacity, the numbers of available, used and wasted cells always add up to that
  capacity, and no cell is in two lists or twice in one.\<close>

theorem storage_conserves_cells:
  defines "s \<equiv> \<lambda>n timeout span ps. foldl apply_op (make_storage n timeout span) ps"
  shows "distinct (storage_cells (s n timeout span ps))
    \<and> (let st = storage_get_stats (s n timeout span ps) in
        stats_available st + stats_used st + stats_wasted st = n)"
proof -
  have keep: "storage_inv (s n timeout span ps)"
    "storage_free (s n timeout span ps) \<union> storage_used (s n timeout span ps) = {0..<n}"
    using storage_run_keeps [OF storage_inv_initial(1), of n timeout span ps]
    by (auto simp: s_def make_storage_def storage_defs)
  then show ?thesis
    using storage_inv_card [OF keep(1)] by (simp add: storage_get_stats_def storage_inv_def Let_def)
qed

text \<open>\<open>lease\<close> fails exactly when every cell is in use; when it succeeds the cell was
  not in use before, and it hands out a resource only if the resource was idle and has
  neither outlived its idle timeout nor its lifespan (its drop time lies ahead); every
  expired resource it passed over is destroyed.\<close>

lemma lease_correct:
  assumes "storage_inv s" "lease now s = (r, s')"
  shows "(r = None \<longleftrightarrow> storage_free s = {})
    \<and> (\<forall>c. r = Some c \<longrightarrow> c \<notin> storage_used s \<and> storage_used s' = insert c (storage_used s)
        \<and> (idle_value (st_cell s' c) \<noteq> None \<longrightarrow> c \<in> set (available s) \<and> drop_time (st_cell s c) > now))"
  using lease_spec [OF assms] cells.lease_none_iff [OF assms(1), of now] cells.disjoint [OF assms(1)] assms(2)
  by (cases r) auto

text \<open>A resource given back is kept only for as long as its idle timeout and its
  lifespan allow, and a resource marked by \<open>invalidate\<close> or past its lifespan is
  destroyed at once.\<close>

lemma recycle_correct:
  assumes "storage_inv s" "c \<in> storage_used s"
  shows "if is_valid now c s
    then c \<in> set (available (storage_recycle now c s))
      \<and> idle_value (st_cell (storage_recycle now c s) c) = idle_value (st_cell s c)
      \<and> drop_time (st_cell (storage_recycle now c s) c)
          = min (add_time now (idle_timeout s)) (add_time (reset_time (st_cell s c)) (lifespan s))
    else c \<in> set (wasted (storage_recycle now c s))
      \<and> idle_value (st_cell (storage_recycle now c s) c) = None"
  using assms by (auto simp: is_valid_def storage_recycle_def storage_waste_def Let_def)

end
