(* ===== verification/Pool_Queue.thy ===== *)
theory Pool_Queue
  imports Time_Traits "HOL-Library.Multiset"
begin

text \<open>
  The queue of waiting requests of the asynchronous pool: \<open>async/detail/queue.hpp\<close>. A
  list node \<open>expiring_request\<close> keeps its address when it is spliced, so it is a number;
  \<open>q_request\<close> holds the content of a node. The multimap \<open>_expires_at_requests\<close> is a
  list sorted by key in which an insertion goes behind the equal keys. \<open>_timers\<close> maps an
  execution context to the expiry its timer waits for: setting a new expiry replaces
  the wait. Operations that read the clock take the reading as an argument, and
  \<open>cancel\<close> returns the requests it posts with a timeout error.
\<close>

section \<open>State\<close>

text \<open>An executor, with the execution context it belongs to first.\<close>

type_synonym executor = "nat \<times> nat"

definition context_of :: "executor \<Rightarrow> nat" where
  "context_of ex = fst ex"

record 'r req_queue =
  q_capacity :: nat
  q_ordered_pool :: "nat list"
  q_ordered :: "nat list"
  q_expires :: "(time \<times> nat) list"
  q_request :: "nat \<Rightarrow> executor \<times> 'r"
  q_timers :: "nat \<rightharpoonup> time"
  q_next :: nat

definition make_queue :: "nat \<Rightarrow> 'r req_queue" where
  "make_queue capacity = \<lparr>q_capacity = capacity, q_ordered_pool = [], q_ordered = [], q_expires = [],
     q_request = (\<lambda>_. undefined), q_timers = Map.empty, q_next = 0\<rparr>"

section \<open>Operations\<close>

definition fit_capacity :: "'r req_queue \<Rightarrow> bool" where
  "fit_capacity q \<longleftrightarrow> length (q_expires q) < q_capacity q"

definition queue_size :: "'r req_queue \<Rightarrow> nat" where
  "queue_size q = length (q_expires q)"

definition queue_empty :: "'r req_queue \<Rightarrow> bool" where
  "queue_empty q \<longleftrightarrow> q_ordered q = []"

definition multimap_insert :: "time \<Rightarrow> nat \<Rightarrow> (time \<times> nat) list \<Rightarrow> (time \<times> nat) list" where
  "multimap_insert k x m = takeWhile (\<lambda>e. fst e \<le> k) m @ (k, x) # dropWhile (\<lambda>e. fst e \<le> k) m"

definition update_timer :: "'r req_queue \<Rightarrow> 'r req_queue" where
  "update_timer q = (case q_expires q of
     [] \<Rightarrow> q\<lparr>q_timers := Map.empty\<rparr>
   | (expires_at, i) # _ \<Rightarrow> q\<lparr>q_timers := (q_timers q)(context_of (fst (q_request q i)) \<mapsto> expires_at)\<rparr>)"

text \<open>The node a \<open>push\<close> uses: the first spare one, or a new one.\<close>

definition take_node :: "'r req_queue \<Rightarrow> nat \<times> 'r req_queue" where
  "take_node q = (case q_ordered_pool q of
     [] \<Rightarrow> (q_next q, q\<lparr>q_next := Suc (q_next q)\<rparr>)
   | i # is \<Rightarrow> (i, q\<lparr>q_ordered_pool := is\<rparr>))"

definition queue_push :: "time \<Rightarrow> executor \<Rightarrow> int \<Rightarrow> 'r \<Rightarrow> 'r req_queue \<Rightarrow> bool \<times> 'r req_queue" where
  "queue_push now ex wait_duration r q =
    (if \<not> fit_capacity q then (False, q)
     else let (i, q1) = take_node q;
              expires_at = add_time now wait_duration
          in (True, update_timer (q1\<lparr>q_ordered := q_ordered q1 @ [i],
                q_request := (q_request q1)(i := (ex, r)),
                q_expires := multimap_insert expires_at i (q_expires q1)\<rparr>)))"

definition queue_pop :: "'r req_queue \<Rightarrow> (executor \<times> 'r) option \<times> 'r req_queue" where
  "queue_pop q = (case q_ordered q of
     [] \<Rightarrow> (None, q)
   | i # is \<Rightarrow> (Some (q_request q i), update_timer (q\<lparr>q_expires := filter (\<lambda>e. snd e \<noteq> i) (q_expires q),
                  q_ordered := is, q_ordered_pool := i # q_ordered_pool q\<rparr>)))"

definition queue_cancel :: "bool \<Rightarrow> time \<Rightarrow> 'r req_queue \<Rightarrow> (executor \<times> 'r) list \<times> 'r req_queue" where
  "queue_cancel ec expires_at q =
    (if ec then ([], q)
     else let expired = map snd (takeWhile (\<lambda>e. fst e \<le> expires_at) (q_expires q))
          in (map (q_request q) expired,
              update_timer (q\<lparr>q_ordered := filter (\<lambda>i. i \<notin> set expired) (q_ordered q),
                q_ordered_pool := rev expired @ q_ordered_pool q,
                q_expires := dropWhile (\<lambda>e. fst e \<le> expires_at) (q_expires q)\<rparr>)))"

section \<open>The contract of a request queue\<close>

lemma mset_partition:
  "mset (map f (filter P xs)) + mset (map f (filter (\<lambda>x. \<not> P x) xs)) = mset (map f xs)"
  by (induction xs) auto

text \<open>Seen from outside, the queue is a list of entries (expiry, executor, request),
  oldest first.\<close>

locale request_queue =
  fixes push :: "time \<Rightarrow> executor \<Rightarrow> int \<Rightarrow> 'r \<Rightarrow> 'q \<Rightarrow> bool \<times> 'q"
    and pop :: "'q \<Rightarrow> (executor \<times> 'r) option \<times> 'q"
    and cancel :: "bool \<Rightarrow> time \<Rightarrow> 'q \<Rightarrow> (executor \<times> 'r) list \<times> 'q"
    and entries :: "'q \<Rightarrow> (time \<times> executor \<times> 'r) list"
    and bound :: "'q \<Rightarrow> nat"
    and invar :: "'q \<Rightarrow> bool"
  assumes push_full: "invar q \<Longrightarrow> length (entries q) \<ge> bound q \<Longrightarrow> push t ex d r q = (False, q)"
    and push_entry: "invar q \<Longrightarrow> length (entries q) < bound q \<Longrightarrow> push t ex d r q = (b, q') \<Longrightarrow>
      b \<and> entries q' = entries q @ [(add_time t d, ex, r)] \<and> bound q' = bound q \<and> invar q'"
    and pop_empty: "invar q \<Longrightarrow> entries q = [] \<Longrightarrow> pop q = (None, q)"
    and pop_entry: "invar q \<Longrightarrow> entries q = e # es \<Longrightarrow> pop q = (x, q') \<Longrightarrow>
      x = Some (snd e) \<and> entries q' = es \<and> bound q' = bound q \<and> invar q'"
    and cancel_error: "cancel True t q = ([], q)"
    and cancel_entries: "invar q \<Longrightarrow> cancel False t q = (rs, q') \<Longrightarrow>
      mset rs = mset (map snd (filter (\<lambda>e. fst e \<le> t) (entries q)))
      \<and> entries q' = filter (\<lambda>e. \<not> fst e \<le> t) (entries q) \<and> bound q' = bound q \<and> invar q'"
begin

lemma push_pop_fifo:
  assumes "invar q" "length (entries q) < bound q" "push t ex d r q = (b, q')" "entries q = e # es"
  shows "fst (pop q') = Some (snd e) \<and> entries (snd (pop q')) = es @ [(add_time t d, ex, r)]"
proof -
  have "entries q' = e # es @ [(add_time t d, ex, r)]" "invar q'"
    using push_entry [OF assms(1-3)] assms(4) by auto
  then show ?thesis using pop_entry [of q' e _ "fst (pop q')" "snd (pop q')"] by simp
qed

lemma requests_conserved:
  assumes "invar q"
  shows "cancel ec t q = (rs, q') \<Longrightarrow> mset (map snd (entries q)) = mset rs + mset (map snd (entries q'))"
    and "pop q = (y, q') \<Longrightarrow> mset (map snd (entries q)) = mset (case y of None \<Rightarrow> [] | Some x \<Rightarrow> [x]) + mset (map snd (entries q'))"
    and "push t ex d x q = (b, q') \<Longrightarrow>
      mset (map snd (entries q')) = mset (map snd (entries q)) + (if b then {#(ex, x)#} else {#})"
proof -
  assume c: "cancel ec t q = (rs, q')"
  show "mset (map snd (entries q)) = mset rs + mset (map snd (entries q'))"
  proof (cases ec)
    case False
    then have "mset rs = mset (map snd (filter (\<lambda>e. fst e \<le> t) (entries q)))"
      "entries q' = filter (\<lambda>e. \<not> fst e \<le> t) (entries q)"
      using cancel_entries [OF assms, of t rs q'] c by simp_all
    then show ?thesis by (simp only: mset_partition)
  qed (use c cancel_error [of t q] in simp)
next
  assume p: "pop q = (y, q')"
  show "mset (map snd (entries q)) = mset (case y of None \<Rightarrow> [] | Some x \<Rightarrow> [x]) + mset (map snd (entries q'))"
  proof (cases "entries q")
    case Nil
    then show ?thesis using pop_empty [OF assms] p by simp
  next
    case (Cons e es)
    then show ?thesis using pop_entry [OF assms Cons p] by simp
  qed
next
  assume p: "push t ex d x q = (b, q')"
  show "mset (map snd (entries q')) = mset (map snd (entries q)) + (if b then {#(ex, x)#} else {#})"
  proof (cases "length (entries q) < bound q")
    case True
    then show ?thesis using push_entry [OF assms True p] by simp
  next
    case False
    then show ?thesis using push_full [OF assms, of t ex d x] p by simp
  qed
qed

end

section \<open>The queue meets the contract\<close>

definition expiry_of :: "(time \<times> nat) list \<Rightarrow> nat \<Rightarrow> time" where
  "expiry_of m i = the (map_of (map (\<lambda>(k, j). (j, k)) m) i)"

definition queue_entries :: "'r req_queue \<Rightarrow> (time \<times> executor \<times> 'r) list" where
  "queue_entries q = map (\<lambda>i. (expiry_of (q_expires q) i, q_request q i)) (q_ordered q)"

text \<open>The timer of the execution context of the request that expires first is set to
  that expiry.\<close>

definition timer_armed :: "'r req_queue \<Rightarrow> bool" where
  "timer_armed q \<longleftrightarrow> (case q_expires q of
     [] \<Rightarrow> q_timers q = Map.empty
   | (k, i) # _ \<Rightarrow> q_timers q (context_of (fst (q_request q i))) = Some k)"

definition queue_inv :: "'r req_queue \<Rightarrow> bool" where
  "queue_inv q \<longleftrightarrow> distinct (q_ordered q @ q_ordered_pool q)
     \<and> (\<forall>i\<in>set (q_ordered q @ q_ordered_pool q). i < q_next q)
     \<and> distinct (map snd (q_expires q)) \<and> snd ` set (q_expires q) = set (q_ordered q)
     \<and> sorted (map fst (q_expires q)) \<and> length (q_ordered q) \<le> q_capacity q \<and> timer_armed q"

lemma expiry_of_eq: "\<lbrakk>distinct (map snd m); (k, i) \<in> set m\<rbrakk> \<Longrightarrow> expiry_of m i = k"
  unfolding expiry_of_def
  by (subst map_of_is_SomeI [where y = k]) (force simp: comp_def case_prod_unfold)+

lemma expiry_of_mem: "\<lbrakk>distinct (map snd m); i \<in> snd ` set m\<rbrakk> \<Longrightarrow> (expiry_of m i, i) \<in> set m"
  using expiry_of_eq by fastforce

lemma set_multimap_insert [simp]: "set (multimap_insert k x m) = insert (k, x) (set m)"
proof -
  have "set m = set (takeWhile (\<lambda>e. fst e \<le> k) m) \<union> set (dropWhile (\<lambda>e. fst e \<le> k) m)"
    by (metis set_append takeWhile_dropWhile_id)
  then show ?thesis by (auto simp: multimap_insert_def)
qed

lemma length_multimap_insert [simp]: "length (multimap_insert k x m) = Suc (length m)"
  unfolding multimap_insert_def by (metis add_Suc_right length_Cons length_append takeWhile_dropWhile_id)

lemma sorted_multimap_insert: "sorted (map fst m) \<Longrightarrow> sorted (map fst (multimap_insert k x m))"
proof (induction m)
  case (Cons e m)
  then show ?case
    by (cases "fst e \<le> k") (auto simp: multimap_insert_def dest: set_takeWhileD
        dest!: set_dropWhileD)
qed (simp add: multimap_insert_def)

lemma distinct_multimap_insert:
  assumes "distinct (map snd m)" "x \<notin> snd ` set m"
  shows "distinct (map snd (multimap_insert k x m))"
proof -
  let ?a = "takeWhile (\<lambda>e. fst e \<le> k) m" and ?b = "dropWhile (\<lambda>e. fst e \<le> k) m"
  have "m = ?a @ ?b" by simp
  then have "distinct (map snd (?a @ ?b))" "x \<notin> snd ` set (?a @ ?b)" using assms by simp_all
  then show ?thesis unfolding multimap_insert_def map_append distinct_append set_append image_Un by auto
qed

lemma sorted_takeWhile_filter:
  "sorted (map fst m) \<Longrightarrow> takeWhile (\<lambda>e. fst e \<le> k) m = filter (\<lambda>e. fst e \<le> k) m"
  "sorted (map fst m) \<Longrightarrow> dropWhile (\<lambda>e. fst e \<le> k) m = filter (\<lambda>e. \<not> fst e \<le> k) m"
  by (induction m) (auto intro!: filter_False [symmetric] filter_True [symmetric])

lemma queue_inv_lengths: "queue_inv q \<Longrightarrow> length (q_expires q) = length (q_ordered q)"
  unfolding queue_inv_def
  by (metis distinct_append distinct_card length_map list.set_map)

lemma update_timer_simps [simp]:
  "q_capacity (update_timer q) = q_capacity q" "q_ordered_pool (update_timer q) = q_ordered_pool q"
  "q_ordered (update_timer q) = q_ordered q" "q_expires (update_timer q) = q_expires q"
  "q_request (update_timer q) = q_request q" "q_next (update_timer q) = q_next q"
  by (auto simp: update_timer_def split: list.splits)

lemma timer_armed_update [simp]: "timer_armed (update_timer q)"
  by (auto simp: update_timer_def timer_armed_def split: list.splits)

lemma queue_entries_update [simp]: "queue_entries (update_timer q) = queue_entries q"
  by (simp add: queue_entries_def)

lemma take_node_facts:
  assumes "queue_inv q" "take_node q = (i, q1)"
  shows "i \<notin> set (q_ordered q)" "distinct ((q_ordered q @ [i]) @ q_ordered_pool q1)"
    "\<forall>j\<in>set ((q_ordered q @ [i]) @ q_ordered_pool q1). j < q_next q1"
    "q_ordered q1 = q_ordered q" "q_expires q1 = q_expires q" "q_request q1 = q_request q"
    "q_capacity q1 = q_capacity q"
  using assms by (fastforce simp: take_node_def queue_inv_def split: list.splits)+

lemma expiry_of_insert:
  assumes "distinct (map snd m)" "i \<notin> snd ` set m"
  shows "expiry_of (multimap_insert k i m) i = k"
    and "j \<in> snd ` set m \<Longrightarrow> expiry_of (multimap_insert k i m) j = expiry_of m j"
proof -
  note d = distinct_multimap_insert [OF assms, of k]
  show "expiry_of (multimap_insert k i m) i = k" by (rule expiry_of_eq [OF d]) simp
  show "expiry_of (multimap_insert k i m) j = expiry_of m j" if "j \<in> snd ` set m"
    using expiry_of_mem [OF assms(1) that] by (intro expiry_of_eq [OF d]) simp
qed

lemma queue_push_spec:
  assumes inv: "queue_inv q" and fit: "length (queue_entries q) < q_capacity q"
    and p: "queue_push t ex d r q = (b, q')"
  shows "b \<and> queue_entries q' = queue_entries q @ [(add_time t d, ex, r)]
    \<and> q_capacity q' = q_capacity q \<and> queue_inv q'"
proof -
  obtain i q1 where tn: "take_node q = (i, q1)" by force
  note [simp] = take_node_facts [OF inv tn]
  have fit': "fit_capacity q" using fit queue_inv_lengths [OF inv] by (simp add: fit_capacity_def queue_entries_def)
  have m: "distinct (map snd (q_expires q))" "snd ` set (q_expires q) = set (q_ordered q)"
    "sorted (map fst (q_expires q))" using inv by (simp_all add: queue_inv_def)
  let ?m = "multimap_insert (add_time t d) i (q_expires q)"
  have q': "b" "q' = update_timer (q1\<lparr>q_ordered := q_ordered q @ [i],
      q_request := (q_request q)(i := (ex, r)), q_expires := ?m\<rparr>)"
    using p fit' tn by (auto simp: queue_push_def Let_def)
  have "queue_entries q' = queue_entries q @ [(add_time t d, ex, r)]"
    using expiry_of_insert [OF m(1), of i] m(2) by (auto simp: q' queue_entries_def)
  moreover have "queue_inv q'"
    using distinct_multimap_insert [OF m(1), of i] sorted_multimap_insert [OF m(3)] m(2) fit
      take_node_facts(2,3) [OF inv tn] unfolding queue_inv_def
    by (simp add: q' queue_entries_def)
  ultimately show ?thesis by (simp add: q')
qed

lemma expiry_of_filter:
  assumes "distinct (map snd m)" "j \<in> snd ` set (filter P m)"
  shows "expiry_of (filter P m) j = expiry_of m j"
proof -
  have "(expiry_of (filter P m) j, j) \<in> set (filter P m)"
    by (rule expiry_of_mem) (use assms in \<open>simp_all add: distinct_map_filter\<close>)
  then have "(expiry_of (filter P m) j, j) \<in> set m" by simp
  then show ?thesis by (rule expiry_of_eq [OF assms(1), symmetric])
qed

lemma queue_pop_spec:
  assumes inv: "queue_inv q" and e: "queue_entries q = e # es" and p: "queue_pop q = (x, q')"
  shows "x = Some (snd e) \<and> queue_entries q' = es \<and> q_capacity q' = q_capacity q \<and> queue_inv q'"
proof -
  obtain i js where o: "q_ordered q = i # js" using e by (auto simp: queue_entries_def)
  have m: "distinct (map snd (q_expires q))" "snd ` set (q_expires q) = insert i (set js)"
    "sorted (map fst (q_expires q))" "i \<notin> set js" using inv o by (simp_all add: queue_inv_def)
  let ?m = "filter (\<lambda>e. snd e \<noteq> i) (q_expires q)"
  have q': "x = Some (q_request q i)" "q' = update_timer (q\<lparr>q_expires := ?m,
      q_ordered := js, q_ordered_pool := i # q_ordered_pool q\<rparr>)"
    using p o by (simp_all add: queue_pop_def)
  have sm: "snd ` set ?m = set js" using m(2,4) by auto
  have "queue_entries q' = es"
    using e o expiry_of_filter [OF m(1), of _ "\<lambda>e. snd e \<noteq> i"] sm by (auto simp: q' queue_entries_def)
  moreover have "queue_inv q'"
    using inv o sm unfolding queue_inv_def
    by (simp add: q' distinct_map_filter sorted_filter)
  ultimately show ?thesis using e o by (auto simp: q' queue_entries_def)
qed

lemma queue_cancel_spec:
  assumes inv: "queue_inv q" and p: "queue_cancel False t q = (rs, q')"
  shows "mset rs = mset (map snd (filter (\<lambda>e. fst e \<le> t) (queue_entries q)))
    \<and> queue_entries q' = filter (\<lambda>e. \<not> fst e \<le> t) (queue_entries q)
    \<and> q_capacity q' = q_capacity q \<and> queue_inv q'"
proof -
  have m: "distinct (map snd (q_expires q))" "snd ` set (q_expires q) = set (q_ordered q)"
    "sorted (map fst (q_expires q))" "distinct (q_ordered q)" using inv by (simp_all add: queue_inv_def)
  define late where "late = map snd (filter (\<lambda>e. fst e \<le> t) (q_expires q))"
  let ?m = "filter (\<lambda>e. \<not> fst e \<le> t) (q_expires q)"
  let ?k = "expiry_of (q_expires q)"
  have q': "rs = map (q_request q) late" "q' = update_timer (q\<lparr>q_ordered := filter (\<lambda>i. i \<notin> set late) (q_ordered q),
      q_ordered_pool := rev late @ q_ordered_pool q, q_expires := ?m\<rparr>)"
    using p by (auto simp: queue_cancel_def Let_def sorted_takeWhile_filter [OF m(3)] late_def)
  have late: "i \<in> set late \<longleftrightarrow> i \<in> set (q_ordered q) \<and> ?k i \<le> t" for i
    using expiry_of_eq [OF m(1)] expiry_of_mem [OF m(1)] m(2) unfolding late_def by (force simp: image_iff)
  have dl: "distinct late" unfolding late_def by (simp add: distinct_map_filter m(1))
  have on: "filter (\<lambda>i. i \<notin> set late) (q_ordered q) = filter (\<lambda>i. \<not> ?k i \<le> t) (q_ordered q)"
    by (rule filter_cong) (auto simp: late)
  have sm: "snd ` set ?m = set (filter (\<lambda>i. \<not> ?k i \<le> t) (q_ordered q))"
    using expiry_of_eq [OF m(1)] expiry_of_mem [OF m(1)] m(2) by (force simp: image_iff)
  have "mset late = mset (filter (\<lambda>i. ?k i \<le> t) (q_ordered q))"
    using dl m(4) by (subst set_eq_iff_mset_eq_distinct [symmetric]) (auto simp: late)
  then have "mset rs = mset (map snd (filter (\<lambda>e. fst e \<le> t) (queue_entries q)))"
    by (simp add: q' queue_entries_def filter_map comp_def flip: mset_filter)
  moreover have "queue_entries q' = filter (\<lambda>e. \<not> fst e \<le> t) (queue_entries q)"
    using expiry_of_filter [OF m(1), of _ "\<lambda>e. \<not> fst e \<le> t"] sm
    by (auto simp: q' queue_entries_def filter_map comp_def on)
  moreover have "queue_inv q'"
    using inv sm dl le_trans [OF length_filter_le] unfolding queue_inv_def
    by (auto simp: q' on distinct_map_filter sorted_filter late)
  ultimately show ?thesis by (simp add: q')
qed

lemma queue_push_full:
  "\<lbrakk>queue_inv q; q_capacity q \<le> length (queue_entries q)\<rbrakk> \<Longrightarrow> queue_push t ex d r q = (False, q)"
  using queue_inv_lengths [of q] by (simp add: queue_push_def fit_capacity_def queue_entries_def)

lemma queue_pop_empty: "queue_entries q = [] \<Longrightarrow> queue_pop q = (None, q)"
  by (simp add: queue_pop_def queue_entries_def)

lemma queue_cancel_error: "queue_cancel True t q = ([], q)"
  by (simp add: queue_cancel_def)

interpretation rq: request_queue queue_push queue_pop queue_cancel queue_entries q_capacity queue_inv
  by unfold_locales (blast intro: queue_push_full queue_push_spec queue_pop_empty queue_pop_spec
      queue_cancel_error queue_cancel_spec | (drule (2) queue_push_spec queue_pop_spec | drule (1) queue_cancel_spec; simp))+

lemma make_queue_inv: "queue_inv (make_queue c)" "queue_entries (make_queue c) = []"
  "q_capacity (make_queue c) = c"
  by (simp_all add: queue_inv_def make_queue_def timer_armed_def queue_entries_def)

section \<open>Sequences of operations\<close>

text \<open>The calls the pool and the timers make on a queue, and what each hands back. The
  specification \<open>spec_step\<close> keeps only the entries: first come, first served, and a timer
  that goes off removes every entry due at its time.\<close>

datatype 'r queue_call = Push time executor int 'r | Pop | Timer bool time

datatype 'r queue_answer = Pushed bool | Popped "(executor \<times> 'r) option" | Expired "(executor \<times> 'r) multiset"

fun queue_step :: "'r queue_call \<Rightarrow> 'r req_queue \<Rightarrow> 'r queue_answer \<times> 'r req_queue" where
  "queue_step (Push t ex d r) q = apfst Pushed (queue_push t ex d r q)"
| "queue_step Pop q = apfst Popped (queue_pop q)"
| "queue_step (Timer ec t) q = apfst (\<lambda>rs. Expired (mset rs)) (queue_cancel ec t q)"

type_synonym 'r entries = "(time \<times> executor \<times> 'r) list"

fun spec_step :: "nat \<Rightarrow> 'r queue_call \<Rightarrow> 'r entries \<Rightarrow> 'r queue_answer \<times> 'r entries" where
  "spec_step c (Push t ex d r) es =
    (if length es < c then (Pushed True, es @ [(add_time t d, ex, r)]) else (Pushed False, es))"
| "spec_step c Pop [] = (Popped None, [])"
| "spec_step c Pop (e # es) = (Popped (Some (snd e)), es)"
| "spec_step c (Timer ec t) es = (if ec then (Expired {#}, es)
     else (Expired (mset (map snd (filter (\<lambda>e. fst e \<le> t) es))), filter (\<lambda>e. \<not> fst e \<le> t) es))"

fun run_calls :: "('c \<Rightarrow> 's \<Rightarrow> 'a \<times> 's) \<Rightarrow> 'c list \<Rightarrow> 's \<Rightarrow> 'a list \<times> 's" where
  "run_calls f [] s = ([], s)"
| "run_calls f (c # cs) s = (let (a, s') = f c s; (as, s'') = run_calls f cs s' in (a # as, s''))"

lemma queue_step_refines:
  assumes "queue_inv q"
  shows "queue_inv (snd (queue_step c q)) \<and> q_capacity (snd (queue_step c q)) = q_capacity q
    \<and> apsnd queue_entries (queue_step c q) = spec_step (q_capacity q) c (queue_entries q)"
proof (cases c)
  case (Push t ex d r)
  obtain b q' where p: "queue_push t ex d r q = (b, q')" by force
  show ?thesis
  proof (cases "length (queue_entries q) < q_capacity q")
    case True
    then show ?thesis using rq.push_entry [OF assms True p] p Push by simp
  next
    case False
    then show ?thesis using rq.push_full [OF assms, of t ex d r] assms Push by simp
  qed
next
  case Pop
  obtain x q' where p: "queue_pop q = (x, q')" by force
  show ?thesis
  proof (cases "queue_entries q")
    case Nil
    then show ?thesis using rq.pop_empty [OF assms] assms Pop by simp
  next
    case (Cons e es)
    then show ?thesis using rq.pop_entry [OF assms Cons p] p Pop by simp
  qed
next
  case (Timer ec t)
  obtain rs q' where p: "queue_cancel False t q = (rs, q')" by force
  then show ?thesis
    using rq.cancel_error [of t q] rq.cancel_entries [OF assms p] assms Timer by (cases ec) simp_all
qed

lemma queue_run_refines:
  assumes "queue_inv q"
  shows "queue_inv (snd (run_calls queue_step cs q)) \<and> q_capacity (snd (run_calls queue_step cs q)) = q_capacity q
    \<and> apsnd queue_entries (run_calls queue_step cs q) = run_calls (spec_step (q_capacity q)) cs (queue_entries q)"
  using assms
proof (induction cs arbitrary: q)
  case (Cons c cs)
  have s: "queue_inv (snd (queue_step c q))" "q_capacity (snd (queue_step c q)) = q_capacity q"
    "apsnd queue_entries (queue_step c q) = spec_step (q_capacity q) c (queue_entries q)"
    using queue_step_refines [OF Cons.prems, of c] by auto
  obtain a q' where q': "queue_step c q = (a, q')" by force
  obtain as q'' where r: "run_calls queue_step cs q' = (as, q'')" by force
  have "spec_step (q_capacity q) c (queue_entries q) = (a, queue_entries q')" using s(3) q' by simp
  moreover have "run_calls (spec_step (q_capacity q)) cs (queue_entries q') = (as, queue_entries q'')"
    using Cons.IH [OF s(1)] s(2) q' r by simp
  moreover have "queue_inv q''" "q_capacity q'' = q_capacity q" using Cons.IH [OF s(1)] s(2) q' r by simp_all
  ultimately show ?case using q' r by simp
qed simp

text \<open>C18: Whatever calls are made on a queue, it answers them exactly as the specification
  does: requests come out in the order they were accepted, a request is refused exactly
  when the capacity is reached, and a timer hands back exactly the requests that are due.\<close>

theorem queue_refines_spec:
  "apsnd queue_entries (run_calls queue_step cs (make_queue c)) = run_calls (spec_step c) cs []"
  using queue_run_refines [OF make_queue_inv(1), of cs c] by (simp add: make_queue_inv)

text \<open>C19: After any sequence of calls the queue holds at most its capacity, and as long as
  a request waits, a timer is set to the earliest expiry among the waiting requests; with
  no request waiting every timer is cancelled.\<close>

theorem queue_timer_covers_requests:
  "let q = snd (run_calls queue_step cs (make_queue c)) in queue_size q \<le> c \<and>
     (case q_expires q of
        [] \<Rightarrow> queue_empty q \<and> q_timers q = Map.empty
      | (k, i) # _ \<Rightarrow> q_timers q (context_of (fst (q_request q i))) = Some k
          \<and> (k, q_request q i) \<in> set (queue_entries q) \<and> list_all (\<lambda>e. k \<le> fst e) (queue_entries q))"
proof -
  define q where "q = snd (run_calls queue_step cs (make_queue c))"
  have inv: "queue_inv q" "q_capacity q = c"
    using queue_run_refines [OF make_queue_inv(1), of cs c] by (simp_all add: q_def make_queue_inv)
  have "queue_size q \<le> c" using inv queue_inv_lengths [OF inv(1)] by (simp add: queue_size_def queue_inv_def)
  moreover have "case q_expires q of
        [] \<Rightarrow> queue_empty q \<and> q_timers q = Map.empty
      | (k, i) # _ \<Rightarrow> q_timers q (context_of (fst (q_request q i))) = Some k
          \<and> (k, q_request q i) \<in> set (queue_entries q) \<and> list_all (\<lambda>e. k \<le> fst e) (queue_entries q)"
  proof (cases "q_expires q")
    case Nil
    then show ?thesis using inv(1) by (simp add: queue_inv_def timer_armed_def queue_empty_def)
  next
    case (Cons e es)
    obtain k i where [simp]: "e = (k, i)" by (cases e)
    have d: "distinct (map snd (q_expires q))" "snd ` set (q_expires q) = set (q_ordered q)"
      "sorted (map fst (q_expires q))" "timer_armed q" using inv(1) by (simp_all add: queue_inv_def)
    have "expiry_of (q_expires q) i = k" by (rule expiry_of_eq [OF d(1)]) (simp add: Cons)
    moreover have "i \<in> set (q_ordered q)" using d(2) Cons by auto
    moreover have "k \<le> expiry_of (q_expires q) j" if "j \<in> set (q_ordered q)" for j
    proof -
      have "(expiry_of (q_expires q) j, j) \<in> set (q_expires q)" by (rule expiry_of_mem) (use d that in auto)
      then show ?thesis using d(3) Cons by auto
    qed
    ultimately have "(k, q_request q i) \<in> set (queue_entries q)" "list_all (\<lambda>e. k \<le> fst e) (queue_entries q)"
      by (auto simp: queue_entries_def list_all_iff intro!: image_eqI [of _ _ i])
    then show ?thesis using d(4) by (simp add: Cons timer_armed_def)
  qed
  ultimately show ?thesis unfolding Let_def q_def [symmetric] by (rule conjI)
qed

end
