(* ===== verification/Async_Pool.thy ===== *)
theory Async_Pool
  imports Error_Codes Storage Pool_Queue
begin

text \<open>
  The asynchronous resource pool: \<open>async/detail/pool_impl.hpp\<close>. Operations return the
  pool after them and the handlers they post, each with its arguments. \<open>get\<close> holds the
  lock only for its first part: it is the two definitions \<open>pool_lease\<close> and \<open>pool_push\<close>, between
  which other operations may run. Above the pool, \<open>pool_system\<close> has everything a
  handler or a cell can be held by: calls between the two parts of \<open>get\<close>, the queue, posted
  handlers, handlers that have run and the cells they were given.
\<close>

section \<open>The pool\<close>

record ('v, 'h) pool =
  pl_storage :: "'v storage"
  pl_capacity :: nat
  pl_queue :: "'h req_queue"
  pl_disabled :: bool

record async_stats =
  as_size :: nat
  as_available :: nat
  as_used :: nat
  as_queue_size :: nat

type_synonym 'h completion = "'h \<times> error_code \<times> nat option"

text \<open>\<open>assert_capacity\<close> throws \<open>error::zero_pool_capacity\<close>, which is None here.\<close>

definition assert_capacity :: "nat \<Rightarrow> nat option" where
  "assert_capacity v = (if v = 0 then None else Some v)"

definition make_pool :: "nat \<Rightarrow> nat \<Rightarrow> int \<Rightarrow> int \<Rightarrow> ('v, 'h) pool option" where
  "make_pool capacity queue_capacity timeout span = map_option (\<lambda>capacity.
     \<lparr>pl_storage = make_storage capacity timeout span, pl_capacity = capacity,
      pl_queue = make_queue queue_capacity, pl_disabled = False\<rparr>) (assert_capacity capacity)"

definition make_pool_from :: "time \<Rightarrow> 'v list \<Rightarrow> nat \<Rightarrow> int \<Rightarrow> int \<Rightarrow> ('v, 'h) pool option" where
  "make_pool_from now vs queue_capacity timeout span = map_option (\<lambda>capacity.
     \<lparr>pl_storage = make_storage_from now vs timeout span, pl_capacity = capacity,
      pl_queue = make_queue queue_capacity, pl_disabled = False\<rparr>) (assert_capacity (length vs))"

definition pool_size :: "('v, 'h) pool \<Rightarrow> nat" where
  "pool_size p = (let st = storage_get_stats (pl_storage p) in stats_available st + stats_used st)"

definition pool_available :: "('v, 'h) pool \<Rightarrow> nat" where
  "pool_available p = stats_available (storage_get_stats (pl_storage p))"

definition pool_used :: "('v, 'h) pool \<Rightarrow> nat" where
  "pool_used p = stats_used (storage_get_stats (pl_storage p))"

definition pool_stats :: "('v, 'h) pool \<Rightarrow> async_stats" where
  "pool_stats p = (let st = storage_get_stats (pl_storage p) in
     \<lparr>as_size = stats_available st + stats_used st, as_available = stats_available st,
      as_used = stats_used st, as_queue_size = queue_size (pl_queue p)\<rparr>)"

definition pool_recycle :: "time \<Rightarrow> nat \<Rightarrow> ('v, 'h) pool \<Rightarrow> 'h completion list \<times> ('v, 'h) pool" where
  "pool_recycle now c p = (case queue_pop (pl_queue p) of (queued, q) \<Rightarrow>
     let p = p\<lparr>pl_queue := q\<rparr> in
     (case queued of
        None \<Rightarrow> ([], p\<lparr>pl_storage := storage_recycle now c (pl_storage p)\<rparr>)
      | Some (ex, h) \<Rightarrow>
          let valid = is_valid now c (pl_storage p);
              p = (if \<not> valid then p\<lparr>pl_storage := reset_value c (pl_storage p)\<rparr> else p)
          in ([(h, Success, Some c)], p)))"

definition pool_waste :: "nat \<Rightarrow> ('v, 'h) pool \<Rightarrow> 'h completion list \<times> ('v, 'h) pool" where
  "pool_waste c p = (case queue_pop (pl_queue p) of (queued, q) \<Rightarrow>
     let p = p\<lparr>pl_queue := q\<rparr> in
     (case queued of
        None \<Rightarrow> ([], p\<lparr>pl_storage := storage_waste c (pl_storage p)\<rparr>)
      | Some (ex, h) \<Rightarrow> ([(h, Success, Some c)], p\<lparr>pl_storage := reset_value c (pl_storage p)\<rparr>)))"

text \<open>The first part of \<open>get\<close>: the flag tells that the call goes on to the queue.\<close>

definition pool_lease :: "time \<Rightarrow> 'h \<Rightarrow> int \<Rightarrow> ('v, 'h) pool \<Rightarrow> bool \<times> 'h completion list \<times> ('v, 'h) pool" where
  "pool_lease now h wait_duration p =
    (if pl_disabled p then (False, [(h, Pool_error pool_disabled, None)], p)
     else (case lease now (pl_storage p) of (cell, st) \<Rightarrow>
       let p = p\<lparr>pl_storage := st\<rparr> in
       (case cell of
          Some c \<Rightarrow> (False, [(h, Success, Some c)], p)
        | None \<Rightarrow> if wait_duration = 0 then (False, [(h, Pool_error get_resource_timeout, None)], p)
                  else (True, [], p))))"

definition pool_push :: "time \<Rightarrow> executor \<Rightarrow> 'h \<Rightarrow> int \<Rightarrow> ('v, 'h) pool \<Rightarrow> 'h completion list \<times> ('v, 'h) pool" where
  "pool_push now ex h wait_duration p = (case queue_push now ex wait_duration h (pl_queue p) of (pushed, q) \<Rightarrow>
     let p = p\<lparr>pl_queue := q\<rparr> in
     if pushed then ([], p) else ([(h, Pool_error request_queue_overflow, None)], p))"

text \<open>\<open>get\<close> with nothing in between.\<close>

definition pool_get :: "time \<Rightarrow> executor \<Rightarrow> 'h \<Rightarrow> int \<Rightarrow> ('v, 'h) pool \<Rightarrow> 'h completion list \<times> ('v, 'h) pool" where
  "pool_get now ex h wait_duration p = (case pool_lease now h wait_duration p of
     (wait, posted, p') \<Rightarrow> if wait then pool_push now ex h wait_duration p' else (posted, p'))"

text \<open>The loop of \<open>disable\<close>.\<close>

function disable_queue :: "'h req_queue \<Rightarrow> 'h completion list \<times> 'h req_queue" where
  "disable_queue q = (case queue_pop q of
     (None, q') \<Rightarrow> ([], q')
   | (Some (ex, h), q') \<Rightarrow> apfst ((#) (h, Pool_error pool_disabled, None)) (disable_queue q'))"
  by pat_completeness auto
termination
  by (relation "measure (\<lambda>q. length (q_ordered q))") (auto simp: queue_pop_def split: list.splits)

declare disable_queue.simps [simp del]

definition pool_disable :: "('v, 'h) pool \<Rightarrow> 'h completion list \<times> ('v, 'h) pool" where
  "pool_disable p = (case disable_queue (pl_queue p) of
     (posted, q) \<Rightarrow> (posted, p\<lparr>pl_disabled := True, pl_queue := q\<rparr>))"

definition pool_invalidate :: "('v, 'h) pool \<Rightarrow> ('v, 'h) pool" where
  "pool_invalidate p = p\<lparr>pl_storage := storage_invalidate (pl_storage p)\<rparr>"

text \<open>A timer of the queue completes; \<open>expired_handler\<close> reports the time-out.\<close>

definition pool_timer :: "bool \<Rightarrow> time \<Rightarrow> ('v, 'h) pool \<Rightarrow> 'h completion list \<times> ('v, 'h) pool" where
  "pool_timer ec t p = (case queue_cancel ec t (pl_queue p) of
     (late, q) \<Rightarrow> (map (\<lambda>r. (snd r, Pool_error get_resource_timeout, None)) late, p\<lparr>pl_queue := q\<rparr>))"

section \<open>Clients of the pool\<close>

text \<open>\<open>sys_issued\<close> lists the handlers given to \<open>get\<close> so far.\<close>

record ('v, 'h) pool_system =
  sys_issued :: "'h list"
  sys_pool :: "('v, 'h) pool"
  sys_pushing :: "(executor \<times> 'h \<times> int) list"
  sys_posted :: "'h completion list"
  sys_done :: "'h completion list"
  sys_held :: "nat list"

text \<open>One step: a client calls \<open>get\<close>, a call that found no cell goes to the queue, a posted
  handler runs and takes the cell it is given, a client gives a cell back, a timer of
  the queue completes, the pool is disabled or invalidated.\<close>

inductive pool_step :: "('v, 'h) pool_system \<Rightarrow> ('v, 'h) pool_system \<Rightarrow> bool" where
  get_lease: "pool_lease now h d (sys_pool s) = (wait, posted, p) \<Longrightarrow>
    pool_step s (s\<lparr>sys_issued := h # sys_issued s, sys_pool := p, sys_posted := sys_posted s @ posted,
      sys_pushing := (if wait then (ex, h, d) # sys_pushing s else sys_pushing s)\<rparr>)"
| get_push: "sys_pushing s = xs @ (ex, h, d) # ys \<Longrightarrow> pool_push now ex h d (sys_pool s) = (posted, p) \<Longrightarrow>
    pool_step s (s\<lparr>sys_pool := p, sys_posted := sys_posted s @ posted, sys_pushing := xs @ ys\<rparr>)"
| run: "sys_posted s = xs @ (h, ec, cell) # ys \<Longrightarrow>
    pool_step s (s\<lparr>sys_posted := xs @ ys, sys_done := (h, ec, cell) # sys_done s,
      sys_held := (case cell of None \<Rightarrow> sys_held s | Some c \<Rightarrow> c # sys_held s)\<rparr>)"
| recycle: "sys_held s = xs @ c # ys \<Longrightarrow> pool_recycle now c (sys_pool s) = (posted, p) \<Longrightarrow>
    pool_step s (s\<lparr>sys_pool := p, sys_posted := sys_posted s @ posted, sys_held := xs @ ys\<rparr>)"
| waste: "sys_held s = xs @ c # ys \<Longrightarrow> pool_waste c (sys_pool s) = (posted, p) \<Longrightarrow>
    pool_step s (s\<lparr>sys_pool := p, sys_posted := sys_posted s @ posted, sys_held := xs @ ys\<rparr>)"
| timer: "pool_timer ec t (sys_pool s) = (posted, p) \<Longrightarrow>
    pool_step s (s\<lparr>sys_pool := p, sys_posted := sys_posted s @ posted\<rparr>)"
| disable: "pool_disable (sys_pool s) = (posted, p) \<Longrightarrow>
    pool_step s (s\<lparr>sys_pool := p, sys_posted := sys_posted s @ posted\<rparr>)"
| invalidate: "pool_step s (s\<lparr>sys_pool := pool_invalidate (sys_pool s)\<rparr>)"

definition make_system :: "('v, 'h) pool \<Rightarrow> ('v, 'h) pool_system" where
  "make_system p = \<lparr>sys_issued = [], sys_pool = p, sys_pushing = [], sys_posted = [], sys_done = [], sys_held = []\<rparr>"

section \<open>Every handler and every cell is accounted for\<close>

fun cells_of :: "'h completion list \<Rightarrow> nat list" where
  "cells_of [] = []"
| "cells_of ((h, ec, None) # cs) = cells_of cs"
| "cells_of ((h, ec, Some c) # cs) = c # cells_of cs"

lemma cells_of_append [simp]: "cells_of (xs @ ys) = cells_of xs @ cells_of ys"
  by (induction xs rule: cells_of.induct) simp_all

lemma cells_of_none: "list_all (\<lambda>(h, ec, c). c = None) cs \<Longrightarrow> cells_of cs = []"
  by (induction cs rule: cells_of.induct) simp_all

text \<open>A completion carries a cell exactly when it reports success.\<close>

definition completion_ok :: "'h completion \<Rightarrow> bool" where
  "completion_ok = (\<lambda>(h, ec, c). (ec = Success) = (c \<noteq> None))"

definition pool_inv :: "('v, 'h) pool \<Rightarrow> bool" where
  "pool_inv p \<longleftrightarrow> storage_inv (pl_storage p) \<and> queue_inv (pl_queue p)
     \<and> storage_free (pl_storage p) \<union> storage_used (pl_storage p) = {..<pl_capacity p}"

definition queued :: "('v, 'h) pool \<Rightarrow> 'h multiset" where
  "queued p = image_mset snd (mset (map snd (queue_entries (pl_queue p))))"

definition pool_used_cells :: "('v, 'h) pool \<Rightarrow> nat multiset" where
  "pool_used_cells p = mset_set (storage_used (pl_storage p))"

text \<open>An operation takes \<open>p\<close> to \<open>p'\<close> and posts \<open>posted\<close>, given handlers \<open>hs\<close> and cells \<open>cs\<close>:
  the handlers are queued or posted, the cells are given back or handed on.\<close>

definition pool_moves ::
  "('v, 'h) pool \<Rightarrow> 'h multiset \<Rightarrow> nat multiset \<Rightarrow> 'h completion list \<Rightarrow> ('v, 'h) pool \<Rightarrow> bool" where
  "pool_moves p hs cs posted p' \<longleftrightarrow> pool_inv p' \<and> pl_capacity p' = pl_capacity p
     \<and> queued p' + mset (map fst posted) = queued p + hs
     \<and> pool_used_cells p' + cs = pool_used_cells p + mset (cells_of posted)
     \<and> list_all completion_ok posted"

lemma pool_record_simps [simp]:
  "queued (p\<lparr>pl_storage := s\<rparr>) = queued p" "queued (p\<lparr>pl_disabled := b\<rparr>) = queued p"
  "queued (p\<lparr>pl_queue := q\<rparr>) = image_mset snd (mset (map snd (queue_entries q)))"
  "pool_used_cells (p\<lparr>pl_queue := q\<rparr>) = pool_used_cells p"
  "pool_used_cells (p\<lparr>pl_disabled := b\<rparr>) = pool_used_cells p"
  "pool_used_cells (p\<lparr>pl_storage := s\<rparr>) = mset_set (storage_used s)"
  by (simp_all add: queued_def pool_used_cells_def)

lemma pool_movesI:
  assumes "storage_inv (pl_storage p')" "queue_inv (pl_queue p')"
    "storage_free (pl_storage p') \<union> storage_used (pl_storage p') = {..<pl_capacity p}" "pl_capacity p' = pl_capacity p"
    "queued p' + mset (map fst posted) = queued p + hs"
    "pool_used_cells p' + cs = pool_used_cells p + mset (cells_of posted)" "list_all completion_ok posted"
  shows "pool_moves p hs cs posted p'"
  using assms by (simp add: pool_moves_def pool_inv_def)

lemma finite_used [simp]: "finite (storage_used s)"
  by (simp add: storage_used_def)

lemma reset_value_storage [simp]:
  "storage_inv s \<Longrightarrow> storage_inv (reset_value c s)" "storage_free (reset_value c s) = storage_free s"
  "storage_used (reset_value c s) = storage_used s"
  by (auto simp: storage_defs)

lemma queue_pop_moves:
  assumes "queue_inv q" "queue_pop q = (x, q')"
  shows "queue_inv q' \<and> image_mset snd (mset (map snd (queue_entries q))) =
    (case x of None \<Rightarrow> {#} | Some r \<Rightarrow> {#snd r#}) + image_mset snd (mset (map snd (queue_entries q')))"
proof -
  have "queue_inv q'"
    using rq.pop_empty [OF assms(1)] rq.pop_entry [OF assms(1) _ assms(2)] assms
    by (cases "queue_entries q") auto
  with rq.requests_conserved(2) [OF assms] show ?thesis by (cases x) simp_all
qed

lemma pool_invD:
  assumes "pool_inv p"
  shows "storage_inv (pl_storage p)" "queue_inv (pl_queue p)"
    "storage_free (pl_storage p) \<union> storage_used (pl_storage p) = {..<pl_capacity p}"
  using assms by (simp_all add: pool_inv_def)

lemma pool_moves_same:
  "\<lbrakk>pool_inv p; mset (map fst posted) = hs; cells_of posted = []; list_all completion_ok posted\<rbrakk> \<Longrightarrow>
    pool_moves p hs {#} posted p"
  by (simp add: pool_moves_def)

lemma pool_lease_moves:
  assumes "pool_inv p" "pool_lease now h d p = (wait, posted, p')"
  shows "pool_moves p (if wait then {#} else {#h#}) {#} posted p' \<and> (wait \<longrightarrow> posted = [])"
proof (cases "pl_disabled p")
  case True
  then have "wait = False" "posted = [(h, Pool_error pool_disabled, None)]" "p' = p"
    using assms(2) by (simp_all add: pool_lease_def)
  then show ?thesis using assms(1) by (simp add: pool_moves_same completion_ok_def)
next
  case False
  obtain cell st where l: "lease now (pl_storage p) = (cell, st)" by force
  note inv = pool_invD [OF assms(1)]
  show ?thesis
  proof (cases cell)
    case None
    have st: "storage_inv st" "storage_free st = storage_free (pl_storage p)"
      "storage_used st = storage_used (pl_storage p)"
      using cells.lease_none [OF inv(1), of now st] l None by simp_all
    have "p' = p\<lparr>pl_storage := st\<rparr>" "wait \<longleftrightarrow> d \<noteq> 0" "posted = (if wait then [] else [(h, Pool_error get_resource_timeout, None)])"
      using assms(2) False l None by (auto simp: pool_lease_def Let_def split: if_splits)
    moreover have "pool_moves p (if wait then {#} else {#h#}) {#} posted p'"
      using st inv by (intro pool_movesI) (simp_all add: calculation completion_ok_def pool_used_cells_def)
    ultimately show ?thesis by simp
  next
    case (Some c)
    have st: "c \<in> storage_free (pl_storage p)" "storage_free st = storage_free (pl_storage p) - {c}"
      "storage_used st = insert c (storage_used (pl_storage p))" "storage_inv st"
      using cells.lease_some [OF inv(1), of now c st] l Some by simp_all
    then have "c \<notin> storage_used (pl_storage p)" using cells.disjoint [OF inv(1)] by blast
    moreover have "storage_free st \<union> storage_used st = {..<pl_capacity p}"
      unfolding inv(3) [symmetric] st(2,3) using st(1) by blast
    moreover have "\<not> wait" "p' = p\<lparr>pl_storage := st\<rparr>" "posted = [(h, Success, Some c)]"
      using assms(2) False l Some by (simp_all add: pool_lease_def Let_def)
    ultimately show ?thesis using st(3,4) inv(2)
      by (simp add: pool_movesI completion_ok_def pool_used_cells_def)
  qed
qed

lemma pool_push_moves:
  assumes "pool_inv p" "pool_push now ex h d p = (posted, p')"
  shows "pool_moves p {#h#} {#} posted p'"
proof -
  obtain b q' where q: "queue_push now ex d h (pl_queue p) = (b, q')" by force
  note inv = pool_invD [OF assms(1)]
  have "queue_inv q'"
  proof (cases "length (queue_entries (pl_queue p)) < q_capacity (pl_queue p)")
    case True
    then show ?thesis using rq.push_entry [OF inv(2) True q] by simp
  next
    case False
    then show ?thesis using rq.push_full [OF inv(2), of now ex d h] q inv(2) by simp
  qed
  moreover have "queued p' = queued p + (if b then {#h#} else {#})" "p' = p\<lparr>pl_queue := q'\<rparr>"
    "posted = (if b then [] else [(h, Pool_error request_queue_overflow, None)])"
    using rq.requests_conserved(3) [OF inv(2) q] assms(2) q
    by (auto simp: pool_push_def Let_def queued_def split: if_splits)
  ultimately show ?thesis using inv by (intro pool_movesI) (simp_all add: completion_ok_def)
qed

lemma pool_return_moves:
  assumes "pool_inv p" "c \<in> storage_used (pl_storage p)"
    and "pool_recycle now c p = (posted, p') \<or> pool_waste c p = (posted, p')"
  shows "pool_moves p {#} {#c#} posted p'"
proof -
  obtain x q' where q: "queue_pop (pl_queue p) = (x, q')" by force
  note inv = pool_invD [OF assms(1)]
  note pop = queue_pop_moves [OF inv(2) q]
  show ?thesis
  proof (cases x)
    case None
    let ?r = "storage_recycle now c (pl_storage p)" and ?w = "storage_waste c (pl_storage p)"
    obtain st where st: "st = ?r \<or> st = ?w" "p' = p\<lparr>pl_queue := q', pl_storage := st\<rparr>" "posted = []"
      using assms(3) q None by (auto simp: pool_recycle_def pool_waste_def Let_def)
    have s: "storage_free st = insert c (storage_free (pl_storage p))"
      "storage_used st = storage_used (pl_storage p) - {c}" "storage_inv st"
      using st(1) cells.recycle_cell [OF inv(1) assms(2), of now] cells.waste_cell [OF inv(1) assms(2)] by auto
    have "storage_free st \<union> storage_used st = {..<pl_capacity p}"
      unfolding inv(3) [symmetric] s(1,2) using assms(2) by blast
    moreover have "mset_set (storage_used st) + {#c#} = pool_used_cells p"
      using assms(2) s(2) by (simp add: mset_set.remove pool_used_cells_def)
    moreover have "queued p' = queued p" using pop None by (simp add: st(2) queued_def)
    ultimately show ?thesis using s(3) pop by (intro pool_movesI) (simp_all add: st)
  next
    case (Some r)
    have st: "pl_storage p' \<in> {pl_storage p, reset_value c (pl_storage p)}" "pl_queue p' = q'"
      "pl_capacity p' = pl_capacity p" "posted = [(snd r, Success, Some c)]"
      using assms(3) q Some by (auto simp: pool_recycle_def pool_waste_def Let_def split: prod.splits if_splits)
    have s: "storage_free (pl_storage p') = storage_free (pl_storage p)"
      "storage_used (pl_storage p') = storage_used (pl_storage p)" "storage_inv (pl_storage p')"
      using st(1) inv(1) by auto
    have "queued p' + {#snd r#} = queued p" using pop Some by (simp add: st(2) queued_def)
    then show ?thesis using s pop inv
      by (intro pool_movesI) (simp_all add: st(2-) pool_used_cells_def completion_ok_def)
  qed
qed

lemma pool_timer_moves:
  assumes "pool_inv p" "pool_timer ec t p = (posted, p')"
  shows "pool_moves p {#} {#} posted p'"
proof -
  obtain late q' where q: "queue_cancel ec t (pl_queue p) = (late, q')" by force
  note inv = pool_invD [OF assms(1)]
  have p: "posted = map (\<lambda>r. (snd r, Pool_error get_resource_timeout, None)) late" "p' = p\<lparr>pl_queue := q'\<rparr>"
    using assms(2) q by (simp_all add: pool_timer_def)
  have "queue_inv q'" using rq.cancel_error [of t "pl_queue p"] rq.cancel_entries [OF inv(2), of t late q'] q inv(2)
    by (cases ec) simp_all
  moreover have "cells_of posted = []" unfolding p by (intro cells_of_none) (simp add: list_all_iff)
  moreover have "list_all completion_ok posted" by (simp add: p list_all_iff completion_ok_def)
  moreover have "mset (map fst posted) = image_mset snd (mset late)"
    by (simp add: p multiset.map_comp comp_def)
  moreover have "image_mset snd (mset (map snd (queue_entries (pl_queue p))))
      = image_mset snd (mset late) + image_mset snd (mset (map snd (queue_entries q')))"
    by (simp only: rq.requests_conserved(1) [OF inv(2) q] image_mset_union)
  ultimately show ?thesis using inv by (intro pool_movesI) (simp_all add: p(2) queued_def add.commute)
qed

lemma disable_queue_moves:
  assumes "queue_inv q" "disable_queue q = (posted, q')"
  shows "queue_inv q' \<and> queue_entries q' = [] \<and> cells_of posted = [] \<and> list_all completion_ok posted
    \<and> mset (map fst posted) = image_mset snd (mset (map snd (queue_entries q)))"
  using assms
proof (induction q arbitrary: posted rule: disable_queue.induct)
  case (1 q)
  obtain x q1 where q: "queue_pop q = (x, q1)" by force
  note pop = queue_pop_moves [OF 1(2) q]
  show ?case
  proof (cases x)
    case None
    then have "queue_entries q = []" using rq.pop_entry [OF 1(2) _ q] by (cases "queue_entries q") auto
    then show ?thesis using 1(2,3) q None rq.pop_empty [OF 1(2)] by (simp add: disable_queue.simps [of q])
  next
    case (Some r)
    obtain ex h where r: "r = (ex, h)" by (cases r)
    obtain ps q2 where d: "disable_queue q1 = (ps, q2)" by force
    have "posted = (h, Pool_error pool_disabled, None) # ps" "q' = q2"
      using 1(3) q Some r d by (simp_all add: disable_queue.simps [of q])
    with 1(1) [OF q [symmetric] Some r [symmetric], of ps] d pop Some r show ?thesis
      by (auto simp: completion_ok_def)
  qed
qed

lemma pool_disable_moves:
  assumes "pool_inv p" "pool_disable p = (posted, p')"
  shows "pool_moves p {#} {#} posted p'"
proof -
  obtain ps q' where q: "disable_queue (pl_queue p) = (ps, q')" by force
  note inv = pool_invD [OF assms(1)] and d = disable_queue_moves [OF pool_invD(2) [OF assms(1)] q]
  have "posted = ps" "p' = p\<lparr>pl_disabled := True, pl_queue := q'\<rparr>"
    using assms(2) q by (simp_all add: pool_disable_def)
  with d inv show ?thesis by (intro pool_movesI) (simp_all add: queued_def)
qed

lemma pool_invalidate_moves:
  assumes "pool_inv p"
  shows "pool_moves p {#} {#} [] (pool_invalidate p)"
  using pool_invD [OF assms] cells.invalidate_cells [of "pl_storage p"]
  by (intro pool_movesI) (simp_all add: pool_invalidate_def pool_used_cells_def)

text \<open>The invariant of the whole system.\<close>

definition system_inv :: "('v, 'h) pool_system \<Rightarrow> bool" where
  "system_inv s \<longleftrightarrow> pool_inv (sys_pool s) \<and> list_all completion_ok (sys_posted s) \<and> list_all completion_ok (sys_done s)
     \<and> mset (sys_issued s) = mset (map (\<lambda>(ex, h, d). h) (sys_pushing s)) + queued (sys_pool s)
         + mset (map fst (sys_posted s)) + mset (map fst (sys_done s))
     \<and> pool_used_cells (sys_pool s) = mset (cells_of (sys_posted s)) + mset (sys_held s)"

lemma held_used: "system_inv s \<Longrightarrow> c \<in> set (sys_held s) \<Longrightarrow> c \<in> storage_used (pl_storage (sys_pool s))"
  unfolding system_inv_def pool_used_cells_def
  by (metis Un_iff finite_set_mset_mset_set finite_used set_mset_mset set_mset_union)

lemma system_moves:
  assumes "system_inv s" "pool_moves (sys_pool s) hs cs posted p"
    and "mset issued = mset (sys_issued s) + new"
    and "mset (map (\<lambda>(ex, h, d). h) pushing) + hs = mset (map (\<lambda>(ex, h, d). h) (sys_pushing s)) + new"
    and "mset held + cs = mset (sys_held s)"
  shows "system_inv (s\<lparr>sys_issued := issued, sys_pool := p, sys_posted := sys_posted s @ posted,
    sys_pushing := pushing, sys_held := held\<rparr>)"
proof -
  let ?push = "mset (map (\<lambda>(ex, h, d). h) pushing)"
  have m: "queued p + mset (map fst posted) = queued (sys_pool s) + hs"
    "pool_used_cells p + cs = pool_used_cells (sys_pool s) + mset (cells_of posted)"
    and i: "mset (sys_issued s) = mset (map (\<lambda>(ex, h, d). h) (sys_pushing s)) + queued (sys_pool s)
         + mset (map fst (sys_posted s)) + mset (map fst (sys_done s))"
    "pool_used_cells (sys_pool s) = mset (cells_of (sys_posted s)) + mset (sys_held s)"
    using assms(1,2) unfolding pool_moves_def system_inv_def by blast+
  have "mset issued + hs = (?push + hs) + (queued (sys_pool s) + hs) + mset (map fst (sys_posted s)) + mset (map fst (sys_done s))"
    unfolding assms(3,4) i(1) by (simp add: ac_simps)
  also have "\<dots> = ?push + queued p + mset (map fst (sys_posted s @ posted)) + mset (map fst (sys_done s)) + hs"
    unfolding m(1) [symmetric] by (simp add: ac_simps)
  finally have 1: "mset issued = ?push + queued p + mset (map fst (sys_posted s @ posted)) + mset (map fst (sys_done s))"
    by simp
  have "pool_used_cells p + cs = mset (cells_of (sys_posted s @ posted)) + mset held + cs"
    unfolding m(2) i(2) assms(5) [symmetric] by (simp add: ac_simps)
  then have "pool_used_cells p = mset (cells_of (sys_posted s @ posted)) + mset held" by simp
  then show ?thesis using assms(1,2) 1 unfolding system_inv_def pool_moves_def by simp
qed

lemma pool_step_inv:
  assumes "pool_step s s'" "system_inv s"
  shows "system_inv s'"
proof -
  have p: "pool_inv (sys_pool s)" using assms(2) by (simp add: system_inv_def)
  note moves = system_moves [OF assms(2)]
  show ?thesis using assms(1)
  proof (cases rule: pool_step.cases)
    case (get_lease now h d wait posted p ex)
    then show ?thesis using moves [OF conjunct1 [OF pool_lease_moves [OF p get_lease(2)]],
        of "h # sys_issued s" "{#h#}" "if wait then (ex, h, d) # sys_pushing s else sys_pushing s" "sys_held s"]
      by simp
  next
    case (get_push xs ex h d ys now posted p)
    then show ?thesis using moves [OF pool_push_moves [OF p get_push(3)], of "sys_issued s" "{#}" "xs @ ys" "sys_held s"]
      by simp
  next
    case (run xs h ec cell ys)
    then show ?thesis using assms(2) by (cases cell) (simp_all add: system_inv_def)
  next
    case (recycle xs c ys now posted p)
    then show ?thesis using moves [OF pool_return_moves [OF p held_used [OF assms(2)]], of c now posted p "sys_issued s" "{#}" "sys_pushing s" "xs @ ys"]
      by simp
  next
    case (waste xs c ys posted p)
    then show ?thesis using moves [OF pool_return_moves [OF p held_used [OF assms(2)]], of c _ posted p "sys_issued s" "{#}" "sys_pushing s" "xs @ ys"]
      by simp
  next
    case (timer ec t posted p)
    then show ?thesis using moves [OF pool_timer_moves [OF p timer(2)], of "sys_issued s" "{#}" "sys_pushing s" "sys_held s"] by simp
  next
    case (disable posted p)
    then show ?thesis using moves [OF pool_disable_moves [OF p disable(2)], of "sys_issued s" "{#}" "sys_pushing s" "sys_held s"] by simp
  next
    case invalidate
    then show ?thesis using moves [OF pool_invalidate_moves [OF p], of "sys_issued s" "{#}" "sys_pushing s" "sys_held s"] by simp
  qed
qed

lemma make_pool_inv:
  assumes "make_pool capacity queue_capacity timeout span = Some p"
  shows "pool_inv p" "pl_capacity p = capacity" "queued p = {#}" "pool_used_cells p = {#}"
proof -
  have p: "p = \<lparr>pl_storage = make_storage capacity timeout span, pl_capacity = capacity,
      pl_queue = make_queue queue_capacity, pl_disabled = False\<rparr>"
    using assms by (auto simp: make_pool_def assert_capacity_def split: if_splits)
  show "pool_inv p" "pl_capacity p = capacity" "queued p = {#}" "pool_used_cells p = {#}"
    by (auto simp: p pool_inv_def queued_def pool_used_cells_def make_queue_inv make_storage_def
        storage_defs empty_cell_def)
qed

lemma pool_run_inv: "pool_step\<^sup>*\<^sup>* s s' \<Longrightarrow> system_inv s \<Longrightarrow> system_inv s'"
  by (induction rule: rtranclp_induct) (auto intro: pool_step_inv)

lemma pool_step_capacity:
  assumes "pool_step s s'" "system_inv s"
  shows "pl_capacity (sys_pool s') = pl_capacity (sys_pool s)"
proof -
  have p: "pool_inv (sys_pool s)" using assms(2) by (simp add: system_inv_def)
  show ?thesis using assms(1)
  proof (cases rule: pool_step.cases)
    case (recycle xs c ys now posted q)
    then show ?thesis using pool_return_moves [OF p held_used [OF assms(2), of c], of now posted q] by (simp add: pool_moves_def)
  next
    case (waste xs c ys posted q)
    then show ?thesis using pool_return_moves [OF p held_used [OF assms(2), of c], of _ posted q] by (simp add: pool_moves_def)
  qed (use pool_lease_moves [OF p] pool_push_moves [OF p] pool_timer_moves [OF p] pool_disable_moves [OF p]
      pool_invalidate_moves [OF p] in \<open>auto simp: pool_moves_def\<close>)
qed

lemma pool_run_capacity:
  "pool_step\<^sup>*\<^sup>* s s' \<Longrightarrow> system_inv s \<Longrightarrow> pl_capacity (sys_pool s') = pl_capacity (sys_pool s)"
  by (induction rule: rtranclp_induct) (simp_all add: pool_step_capacity pool_run_inv)

section \<open>Properties\<close>

text \<open>C3: whatever clients, timers and threads do, and however the two parts of \<open>get\<close>
  interleave with other operations, every handler given to the pool is in exactly one
  place (on its way to the queue, queued, posted or run), so it runs at most once; every
  cell in use has exactly one owner, a client or a posted handler; there are never more
  owners than the capacity; and a handler gets a cell exactly when it gets no error.\<close>

theorem pool_accounts_for_everything:
  assumes "make_pool capacity queue_capacity timeout span = Some p" "pool_step\<^sup>*\<^sup>* (make_system p) s"
  shows "mset (sys_issued s) = mset (map (\<lambda>(ex, h, d). h) (sys_pushing s)) + queued (sys_pool s)
         + mset (map fst (sys_posted s)) + mset (map fst (sys_done s))
    \<and> distinct (sys_held s @ cells_of (sys_posted s))
    \<and> set (sys_held s @ cells_of (sys_posted s)) = storage_used (pl_storage (sys_pool s))
    \<and> length (sys_held s @ cells_of (sys_posted s)) \<le> capacity
    \<and> list_all (\<lambda>(h, ec, c). (ec = Success) = (c \<noteq> None)) (sys_done s)"
proof -
  have "system_inv (make_system p)"
    using make_pool_inv [OF assms(1)] by (simp add: system_inv_def make_system_def)
  then have inv: "system_inv s" and cap: "pl_capacity (sys_pool s) = capacity"
    using pool_run_inv [OF assms(2)] pool_run_capacity [OF assms(2)] make_pool_inv(2) [OF assms(1)]
    by (simp_all add: make_system_def)
  let ?owned = "sys_held s @ cells_of (sys_posted s)" and ?used = "storage_used (pl_storage (sys_pool s))"
  have "mset ?owned = mset_set ?used"
    using inv by (simp add: system_inv_def pool_used_cells_def add.commute)
  moreover obtain us where us: "set us = ?used" "distinct us" using finite_distinct_list [OF finite_used] by blast
  ultimately have "mset ?owned = mset us" using mset_set_set [OF us(2)] by simp
  then have d: "distinct ?owned" "set ?owned = ?used"
    using us mset_eq_imp_distinct_iff [of ?owned us] mset_eq_setD [of ?owned us] by simp_all
  have "?used \<subseteq> {..<capacity}" using inv cap unfolding system_inv_def pool_inv_def by blast
  then have "length ?owned \<le> capacity"
    using distinct_card [OF d(1)] d(2) card_mono [of "{..<capacity}" ?used] by simp
  then show ?thesis using inv d unfolding system_inv_def completion_ok_def by blast
qed

text \<open>A pool with one cell, of which a client gets the cell, a second client finds none and
  is about to queue up, and the first client gives the cell back.\<close>

definition tiny_pool :: "(unit, nat) pool" where
  "tiny_pool = \<lparr>pl_storage = make_storage 1 10 10, pl_capacity = 1, pl_queue = make_queue 1, pl_disabled = False\<rparr>"

lemma tiny_pool_make: "make_pool 1 1 10 10 = Some tiny_pool"
  by (simp add: make_pool_def assert_capacity_def tiny_pool_def)

definition tiny_storage :: "nat list \<Rightarrow> nat list \<Rightarrow> unit storage" where
  "tiny_storage ws us = \<lparr>idle_timeout = 10, lifespan = 10, available = [], used = us, wasted = ws, st_cell = (\<lambda>_. empty_cell)\<rparr>"

lemma tiny_lease: "lease 0 (tiny_storage [0] []) = (Some 0, tiny_storage [] [0])"
  "lease 0 (tiny_storage [] [0]) = (None, tiny_storage [] [0])"
  by (simp_all add: lease_def tiny_storage_def set_cell_def fun_upd_def empty_cell_def)

lemma tiny_waste: "storage_waste 0 (tiny_storage [] [0]) = tiny_storage [0] []"
  by (simp add: storage_waste_def tiny_storage_def reset_value_def set_cell_def fun_upd_def empty_cell_def)

lemma tiny_storage_make: "pl_storage tiny_pool = tiny_storage [0] []"
  by (simp add: tiny_pool_def tiny_storage_def make_storage_def)

theorem pool_accounts_for_everything_witness:
  "length (sys_held (make_system tiny_pool) @ cells_of (sys_posted (make_system tiny_pool))) \<le> 1"
  using pool_accounts_for_everything [OF tiny_pool_make rtranclp.rtrancl_refl] by simp

text \<open>C38: a request can wait in the queue while a cell is free. \<open>get\<close> releases the lock
  between the failed lease and the push, and a cell returned in between goes to the storage,
  not to the request: then no client owns a cell, nothing is on its way, and the request
  still waits for its time-out or for another client to return a cell.\<close>

theorem pool_lost_wakeup:
  "make_pool 1 1 10 10 = Some tiny_pool \<and>
   (\<exists>s. pool_step\<^sup>*\<^sup>* (make_system tiny_pool) s \<and> sys_pushing s = [] \<and> sys_posted s = [] \<and> sys_held s = []
     \<and> \<not> queue_empty (pl_queue (sys_pool s)) \<and> storage_free (pl_storage (sys_pool s)) = {0})"
proof -
  let ?p = "tiny_pool\<lparr>pl_storage := tiny_storage [] [0]\<rparr>"
  let ?q = "snd (queue_push 0 (0, 0) 5 (2 :: nat) (make_queue 1))"
  let ?s = "\<lambda>iss p pushing posted ran held.
    \<lparr>sys_issued = iss, sys_pool = p, sys_pushing = pushing, sys_posted = posted, sys_done = ran, sys_held = held\<rparr>"
  let ?c = "(1, Success, Some 0) :: nat completion"
  have q: "fst (queue_push 0 (0, 0) 5 (2 :: nat) (make_queue 1))" "queue_pop (make_queue 1 :: nat req_queue) = (None, make_queue 1)"
    by (simp_all add: queue_push_def make_queue_def fit_capacity_def take_node_def queue_pop_def)
  have l: "pool_lease 0 1 5 tiny_pool = (False, [?c], ?p)" "pool_lease 0 2 5 ?p = (True, [], ?p)"
    using tiny_lease tiny_storage_make by (simp_all add: pool_lease_def tiny_pool_def)
  have w: "pool_waste 0 ?p = ([], tiny_pool)"
    using q(2) tiny_waste tiny_storage_make by (simp add: pool_waste_def tiny_pool_def)
  have u: "pool_push 0 (0, 0) 2 5 tiny_pool = ([], tiny_pool\<lparr>pl_queue := ?q\<rparr>)"
    using q(1) by (simp add: pool_push_def tiny_pool_def case_prod_unfold Let_def)
  have "pool_step (?s [] tiny_pool [] [] [] []) (?s [1] ?p [] [?c] [] [])"
    using pool_step.get_lease [of 0 1 5 "?s [] tiny_pool [] [] [] []" False "[?c]" ?p] l(1) by simp
  moreover have "pool_step (?s [1] ?p [] [?c] [] []) (?s [1] ?p [] [] [?c] [0])"
    using pool_step.run [of "?s [1] ?p [] [?c] [] []" "[]"] by simp
  moreover have "pool_step (?s [1] ?p [] [] [?c] [0]) (?s [2, 1] ?p [((0, 0), 2, 5)] [] [?c] [0])"
    using pool_step.get_lease [of 0 2 5 "?s [1] ?p [] [] [?c] [0]" True "[]" ?p "(0, 0)"] l(2) by simp
  moreover have "pool_step (?s [2, 1] ?p [((0, 0), 2, 5)] [] [?c] [0]) (?s [2, 1] tiny_pool [((0, 0), 2, 5)] [] [?c] [])"
    using pool_step.waste [of "?s [2, 1] ?p [((0, 0), 2, 5)] [] [?c] [0]" "[]" 0 "[]"] w by simp
  moreover have "pool_step (?s [2, 1] tiny_pool [((0, 0), 2, 5)] [] [?c] []) (?s [2, 1] (tiny_pool\<lparr>pl_queue := ?q\<rparr>) [] [] [?c] [])"
    using pool_step.get_push [of "?s [2, 1] tiny_pool [((0, 0), 2, 5)] [] [?c] []" "[]"] u by simp
  ultimately have "pool_step\<^sup>*\<^sup>* (make_system tiny_pool) (?s [2, 1] (tiny_pool\<lparr>pl_queue := ?q\<rparr>) [] [] [?c] [])"
    unfolding make_system_def by (meson converse_rtranclp_into_rtranclp rtranclp.rtrancl_refl)
  moreover have "\<not> queue_empty ?q"
    by (simp add: queue_push_def make_queue_def fit_capacity_def take_node_def queue_empty_def)
  moreover have "storage_free (pl_storage tiny_pool) = {0}"
    by (simp add: tiny_storage_make tiny_storage_def storage_free_def)
  ultimately have "pool_step\<^sup>*\<^sup>* (make_system tiny_pool) s \<and> sys_pushing s = [] \<and> sys_posted s = [] \<and> sys_held s = []
     \<and> \<not> queue_empty (pl_queue (sys_pool s)) \<and> storage_free (pl_storage (sys_pool s)) = {0}"
    if "s = ?s [2, 1] (tiny_pool\<lparr>pl_queue := ?q\<rparr>) [] [] [?c] []" for s
    using that by simp
  then show ?thesis using tiny_pool_make by blast
qed

text \<open>No cell is free while a request waits.\<close>

definition work_conserving :: "('v, 'h) pool \<Rightarrow> bool" where
  "work_conserving p \<longleftrightarrow> queue_entries (pl_queue p) = [] \<or> storage_free (pl_storage p) = {}"

datatype 'h pool_call = Get time executor 'h int | Recycle time nat | Waste nat | Expire bool time | Disable | Invalidate

fun pool_exec :: "'h pool_call \<Rightarrow> ('v, 'h) pool \<Rightarrow> 'h completion list \<times> ('v, 'h) pool" where
  "pool_exec (Get now ex h d) p = pool_get now ex h d p"
| "pool_exec (Recycle now c) p = pool_recycle now c p"
| "pool_exec (Waste c) p = pool_waste c p"
| "pool_exec (Expire ec t) p = pool_timer ec t p"
| "pool_exec Disable p = pool_disable p"
| "pool_exec Invalidate p = ([], pool_invalidate p)"

fun call_ok :: "'h pool_call \<Rightarrow> ('v, 'h) pool \<Rightarrow> bool" where
  "call_ok (Recycle now c) p = (c \<in> storage_used (pl_storage p))"
| "call_ok (Waste c) p = (c \<in> storage_used (pl_storage p))"
| "call_ok _ p = True"

text \<open>A sequence of calls, each of them complete before the next; None when a client gives
  back a cell that is not in use.\<close>

fun pool_run :: "'h pool_call list \<Rightarrow> ('v, 'h) pool \<Rightarrow> ('v, 'h) pool option" where
  "pool_run [] p = Some p"
| "pool_run (c # cs) p = (if call_ok c p then pool_run cs (snd (pool_exec c p)) else None)"

lemma pool_exec_inv:
  assumes "pool_inv p" "call_ok c p"
  shows "pool_inv (snd (pool_exec c p))"
proof (cases c)
  case (Get now ex h d)
  obtain wait posted p1 where l: "pool_lease now h d p = (wait, posted, p1)" by (metis prod_cases3)
  then have "pool_inv p1" using pool_lease_moves [OF assms(1) l] by (simp add: pool_moves_def)
  then show ?thesis using Get l pool_push_moves [of p1 now ex h d] 
    by (cases "pool_push now ex h d p1") (auto simp: pool_get_def pool_moves_def)
next
  case (Recycle now c)
  then show ?thesis using assms pool_return_moves [OF assms(1), of c now]
    by (cases "pool_recycle now c p") (auto simp: pool_moves_def)
next
  case (Waste c)
  then show ?thesis using assms pool_return_moves [OF assms(1), of c]
    by (cases "pool_waste c p") (auto simp: pool_moves_def)
next
  case (Expire ec t)
  then show ?thesis using pool_timer_moves [OF assms(1), of ec t] by (cases "pool_timer ec t p") (auto simp: pool_moves_def)
next
  case Disable
  then show ?thesis using pool_disable_moves [OF assms(1)] by (cases "pool_disable p") (auto simp: pool_moves_def)
next
  case Invalidate
  then show ?thesis using pool_invalidate_moves [OF assms(1)] by (simp add: pool_moves_def)
qed

lemma get_work_conserving:
  assumes "pool_inv p" "work_conserving p"
  shows "work_conserving (snd (pool_get now ex h d p))"
proof -
  note inv = pool_invD [OF assms(1)]
  obtain cell st where l: "lease now (pl_storage p) = (cell, st)" by force
  show ?thesis
  proof (cases "pl_disabled p")
    case True
    then show ?thesis using assms(2) by (simp add: pool_get_def pool_lease_def)
  next
    case False
    show ?thesis
    proof (cases cell)
      case None
      then have "storage_free st = {}" using cells.lease_none [OF inv(1), of now st] l by simp
      then show ?thesis using False l None
        by (auto simp: pool_get_def pool_lease_def pool_push_def Let_def work_conserving_def split: prod.splits)
    next
      case (Some c)
      then have "c \<in> storage_free (pl_storage p)" using cells.lease_some [OF inv(1), of now c st] l by simp
      then have "queue_entries (pl_queue p) = []" using assms(2) by (auto simp: work_conserving_def)
      then show ?thesis using False l Some by (simp add: pool_get_def pool_lease_def work_conserving_def)
    qed
  qed
qed

lemma return_work_conserving:
  assumes "pool_inv p" "work_conserving p"
    and "p' = snd (pool_recycle now c p) \<or> p' = snd (pool_waste c p)"
  shows "work_conserving p'"
proof -
  note inv = pool_invD [OF assms(1)]
  obtain x q' where q: "queue_pop (pl_queue p) = (x, q')" by force
  show ?thesis
  proof (cases "queue_entries (pl_queue p)")
    case Nil
    then show ?thesis using assms(3) rq.pop_empty [OF inv(2) Nil]
      by (auto simp: pool_recycle_def pool_waste_def work_conserving_def)
  next
    case (Cons e es)
    then have "storage_free (pl_storage p) = {}" using assms(2) by (simp add: work_conserving_def)
    then show ?thesis using assms(3) rq.pop_entry [OF inv(2) Cons q] q
      by (auto simp: pool_recycle_def pool_waste_def work_conserving_def Let_def split: prod.splits if_splits)
  qed
qed

lemma pool_exec_work_conserving:
  assumes "pool_inv p" "work_conserving p"
  shows "work_conserving (snd (pool_exec c p))"
proof (cases c)
  case (Expire ec t)
  obtain late q' where q: "queue_cancel ec t (pl_queue p) = (late, q')" by force
  then have "queue_entries (pl_queue p) = [] \<Longrightarrow> queue_entries q' = []"
    using rq.cancel_error [of t "pl_queue p"] rq.cancel_entries [OF pool_invD(2) [OF assms(1)], of t late q'] by (cases ec) auto
  then show ?thesis using assms(2) Expire q by (auto simp: pool_timer_def work_conserving_def)
next
  case Disable
  obtain ps q' where "disable_queue (pl_queue p) = (ps, q')" by force
  then show ?thesis using disable_queue_moves [OF pool_invD(2) [OF assms(1)]] Disable
    by (simp add: pool_disable_def work_conserving_def)
next
  case Invalidate
  then show ?thesis using assms(2) cells.invalidate_cells [OF pool_invD(1) [OF assms(1)]]
    by (simp add: pool_invalidate_def work_conserving_def)
qed (auto intro: get_work_conserving return_work_conserving assms)

lemma pool_run_work_conserving:
  "pool_run cs p = Some p' \<Longrightarrow> pool_inv p \<Longrightarrow> work_conserving p \<Longrightarrow> pool_inv p' \<and> work_conserving p'"
  by (induction cs arbitrary: p) (auto simp: pool_exec_inv pool_exec_work_conserving split: if_splits)

text \<open>C9: when calls do not overlap, the pool wastes no cell: after any sequence of complete
  calls by clients that give back only cells they have, either no request waits in the
  queue or no cell is free.\<close>

theorem pool_wastes_no_cell:
  assumes "make_pool capacity queue_capacity timeout span = Some p" "pool_run cs p = Some p'"
  shows "queue_empty (pl_queue p') \<or> storage_free (pl_storage p') = {}"
proof -
  have "work_conserving p" using make_pool_inv(3) [OF assms(1)] by (simp add: work_conserving_def queued_def)
  with pool_run_work_conserving [OF assms(2) make_pool_inv(1) [OF assms(1)]] have "work_conserving p'" by blast
  then show ?thesis by (auto simp: work_conserving_def queue_empty_def queue_entries_def)
qed

theorem pool_wastes_no_cell_witness:
  "\<exists>p'. pool_run [Get 0 (0, 0) 1 5] tiny_pool = Some p'
     \<and> (queue_empty (pl_queue p') \<or> storage_free (pl_storage p') = {})"
  using pool_wastes_no_cell [OF tiny_pool_make, of "[Get 0 (0, 0) 1 5]"] by simp

end
