(* ===== verification/Base36.thy ===== *)
theory Base36
  imports Prelude
begin

text \<open>
  Base-36 text of SQLSTATE values: \<open>detail/base36.h\<close>. \<open>b36tol\<close> is \<open>strtol\<close> with
  base 36 on a NUL-terminated string (leading white space, an optional sign, the
  longest run of digits of either case, clamped to \<open>long\<close>); \<open>ltob36\<close> emits the
  digits of the value converted to \<open>unsigned long\<close>, most significant first.
\<close>

definition b36_digit :: "char \<Rightarrow> int option" where
  "b36_digit c = (let n = of_char c :: int in
     if 48 \<le> n \<and> n \<le> 57 then Some (n - 48)
     else if 65 \<le> n \<and> n \<le> 90 then Some (n - 55)
     else if 97 \<le> n \<and> n \<le> 122 then Some (n - 87)
     else None)"

definition is_space :: "char \<Rightarrow> bool" where
  "is_space c = (let n = of_char c :: int in n = 32 \<or> 9 \<le> n \<and> n \<le> 13)"

fun b36_value :: "int \<Rightarrow> string \<Rightarrow> int" where
  "b36_value acc [] = acc"
| "b36_value acc (c # cs) = (case b36_digit c of
     Some d \<Rightarrow> b36_value (36 * acc + d) cs
   | None \<Rightarrow> acc)"

definition b36tol :: "string \<Rightarrow> int" where
  "b36tol s = (let t = dropWhile is_space s in
     case t of
       [] \<Rightarrow> 0
     | c # cs \<Rightarrow>
         if c = CHR ''-'' then max int64_min (- b36_value 0 cs)
         else if c = CHR ''+'' then min int64_max (b36_value 0 cs)
         else min int64_max (b36_value 0 t))"

definition b36_char :: "int \<Rightarrow> char" where
  "b36_char d = (if d < 10 then char_of (48 + d) else char_of (65 + d - 10))"

function ltob36_digits :: "int \<Rightarrow> string" where
  "ltob36_digits u = b36_char (u mod 36) # (if u div 36 > 0 then ltob36_digits (u div 36) else [])"
  by auto
termination by (relation "measure nat") auto

declare ltob36_digits.simps [simp del]

definition ltob36 :: "int \<Rightarrow> string" where
  "ltob36 i = rev (ltob36_digits (i mod 2 ^ 64))"

section \<open>Lemmas\<close>

text \<open>The characters of a SQLSTATE: decimal digits and upper-case letters.\<close>

definition sqlstate_char :: "char \<Rightarrow> bool" where
  "sqlstate_char c = (let n = of_char c :: int in 48 \<le> n \<and> n \<le> 57 \<or> 65 \<le> n \<and> n \<le> 90)"

lemma b36_digit_char: "0 \<le> d \<Longrightarrow> d < 36 \<Longrightarrow> b36_digit (b36_char d) = Some d"
  by (auto simp: b36_digit_def b36_char_def Let_def)

lemma sqlstate_char_b36_char: "0 \<le> d \<Longrightarrow> d < 36 \<Longrightarrow> sqlstate_char (b36_char d)"
  by (auto simp: sqlstate_char_def b36_char_def Let_def)

lemma b36_digit_sqlstate_char:
  "sqlstate_char c \<Longrightarrow> \<exists>d. 0 \<le> d \<and> d < 36 \<and> b36_digit c = Some d \<and> c = b36_char d"
  by (auto simp: sqlstate_char_def b36_digit_def b36_char_def Let_def
      intro: exI [of _ "of_char c - 48"] exI [of _ "of_char c - 55"])

lemma sqlstate_chars_ltob36_digits: "list_all sqlstate_char (ltob36_digits u)"
  by (induction u rule: ltob36_digits.induct)
    (subst ltob36_digits.simps, simp add: sqlstate_char_b36_char)

lemma b36_value_append:
  "list_all sqlstate_char xs \<Longrightarrow> b36_value acc (xs @ ys) = b36_value (b36_value acc xs) ys"
  by (induction xs arbitrary: acc) (auto dest!: b36_digit_sqlstate_char)

lemma b36_value_acc:
  "list_all sqlstate_char xs \<Longrightarrow> b36_value acc xs = acc * 36 ^ length xs + b36_value 0 xs"
proof (induction xs arbitrary: acc)
  case (Cons c xs)
  then obtain d where "b36_digit c = Some d" by (auto dest: b36_digit_sqlstate_char)
  with Cons.prems Cons.IH [of "36 * acc + d"] Cons.IH [of d] show ?case
    by (simp add: algebra_simps)
qed simp

lemma b36_value_less:
  "list_all sqlstate_char xs \<Longrightarrow> 0 \<le> b36_value 0 xs \<and> b36_value 0 xs < 36 ^ length xs"
proof (induction xs)
  case (Cons c xs)
  then obtain d where d: "0 \<le> d" "d < 36" "b36_digit c = Some d" by (auto dest: b36_digit_sqlstate_char)
  then have "d * 36 ^ length xs \<le> 35 * 36 ^ length xs"
    by (intro mult_right_mono) simp_all
  moreover have "0 \<le> b36_value 0 xs" "b36_value 0 xs < 36 ^ length xs" "0 \<le> d * 36 ^ length xs"
    using Cons d by simp_all
  ultimately have "0 \<le> d * 36 ^ length xs + b36_value 0 xs"
    "d * 36 ^ length xs + b36_value 0 xs < 36 * 36 ^ length xs" by linarith+
  then show ?case using Cons.prems d b36_value_acc [of xs d] by simp
qed simp

lemma b36_value_ltob36_digits: "0 \<le> u \<Longrightarrow> b36_value 0 (rev (ltob36_digits u)) = u"
proof (induction u rule: ltob36_digits.induct)
  case (1 u)
  have "b36_digit (b36_char (u mod 36)) = Some (u mod 36)" by (simp add: b36_digit_char)
  moreover have "list_all sqlstate_char (rev (ltob36_digits (u div 36)))"
    using sqlstate_chars_ltob36_digits by (simp add: list_all_iff)
  moreover have "u div 36 = 0" if "\<not> u div 36 > 0"
    using that \<open>0 \<le> u\<close> by (simp add: pos_imp_zdiv_nonneg_iff order_antisym)
  ultimately show ?case
    using 1 by (subst ltob36_digits.simps) (auto simp: b36_value_append)
qed

lemma sqlstate_char_not_space:
  "sqlstate_char c \<Longrightarrow> \<not> is_space c \<and> c \<noteq> CHR ''-'' \<and> c \<noteq> CHR ''+''"
  by (auto simp: sqlstate_char_def is_space_def Let_def)

lemma b36tol_sqlstate:
  assumes "list_all sqlstate_char s"
  shows "b36tol s = min int64_max (b36_value 0 s)"
  using assms by (cases s) (auto simp: b36tol_def Let_def sqlstate_char_not_space int64_max_def)

lemma euclidean_split_unique:
  fixes d e p a b :: int
  assumes "d * p + a = e * p + b" "0 \<le> a" "a < p" "0 \<le> b" "b < p"
  shows "d = e \<and> a = b"
proof -
  have "(d * p + a) div p = d" "(e * p + b) div p = e" using assms(2-5) by simp_all
  with assms(1) show ?thesis by simp
qed

lemma b36_value_inj:
  assumes "list_all sqlstate_char xs" "list_all sqlstate_char ys" "length xs = length ys"
    "b36_value 0 xs = b36_value 0 ys"
  shows "xs = ys"
  using assms
proof (induction xs ys rule: list_induct2')
  case (4 x xs y ys)
  from 4 obtain d e where d: "b36_digit x = Some d" "x = b36_char d"
    and e: "b36_digit y = Some e" "y = b36_char e"
    by (auto dest!: b36_digit_sqlstate_char)
  let ?p = "36 ^ length xs :: int"
  have "d * ?p + b36_value 0 xs = e * ?p + b36_value 0 ys"
    using 4 d e b36_value_acc [of xs d] b36_value_acc [of ys e] by simp
  moreover have "0 \<le> b36_value 0 xs" "b36_value 0 xs < ?p" "0 \<le> b36_value 0 ys" "b36_value 0 ys < ?p"
    using 4 b36_value_less [of xs] b36_value_less [of ys] by simp_all
  ultimately have "d = e \<and> b36_value 0 xs = b36_value 0 ys"
    by (rule euclidean_split_unique)
  with 4 d e show ?case by simp
qed auto

text \<open>\<open>b36tol\<close> reads back every non-negative \<open>long\<close> that \<open>ltob36\<close> prints.\<close>

lemma base36_roundtrip:
  assumes "0 \<le> i" "i \<le> int64_max"
  shows "b36tol (ltob36 i) = i"
proof -
  from assms have "i mod 2 ^ 64 = i" by (simp add: int64_max_def)
  with assms show ?thesis
    using sqlstate_chars_ltob36_digits [of i] b36_value_ltob36_digits [of i]
    by (simp add: ltob36_def b36tol_sqlstate list_all_iff)
qed

end
