(* ===== verification/Pg_Definitions.thy ===== *)
theory Pg_Definitions
  imports Prelude
begin

text \<open>
  The built-in PostgreSQL types known to the library: the specializations of
  \<open>pg::type_definition\<close> in \<open>pg/definitions.h\<close> as a table of rows (name, OID, OID of
  the array type, element type, size), with the array definition derived from it.
\<close>

datatype type_size = Bytes int | Dynamic_size

type_synonym pg_type_def = "string \<times> int \<times> int option \<times> string option \<times> type_size"

definition pg_type_definitions_1 :: "pg_type_def list" where
  "pg_type_definitions_1 =
   [(''aclitem'', 1033, Some 1034, None, Bytes 12),
    (''any'', 2276, None, None, Bytes 4),
    (''anyarray'', 2277, None, None, Dynamic_size),
    (''anyelement'', 2283, None, None, Bytes 4),
    (''anyenum'', 3500, None, None, Bytes 4),
    (''anynonarray'', 2776, None, None, Bytes 4),
    (''anyrange'', 3831, None, None, Dynamic_size),
    (''bit'', 1560, Some 1561, None, Dynamic_size),
    (''bool'', 16, Some 1000, None, Bytes 1),
    (''box'', 603, Some 1020, Some ''point'', Bytes 32),
    (''bpchar'', 1042, Some 1014, None, Dynamic_size),
    (''bytea'', 17, Some 1001, None, Dynamic_size),
    (''char'', 18, Some 1002, None, Bytes 1),
    (''cid'', 29, Some 1012, None, Bytes 4),
    (''cidr'', 650, Some 651, None, Dynamic_size),
    (''circle'', 718, Some 719, None, Bytes 24),
    (''cstring'', 2275, Some 1263, None, Dynamic_size),
    (''date'', 1082, Some 1182, None, Bytes 4),
    (''daterange'', 3912, Some 3913, None, Dynamic_size)]"

definition pg_type_definitions_2 :: "pg_type_def list" where
  "pg_type_definitions_2 =
   [(''event_trigger'', 3838, None, None, Bytes 4),
    (''fdw_handler'', 3115, None, None, Bytes 4),
    (''float4'', 700, Some 1021, None, Bytes 4),
    (''float8'', 701, Some 1022, None, Bytes 8),
    (''gtsvector'', 3642, Some 3644, None, Dynamic_size),
    (''index_am_handler'', 325, None, None, Bytes 4),
    (''inet'', 869, Some 1041, None, Dynamic_size),
    (''int2'', 21, Some 1005, None, Bytes 2),
    (''int2vector'', 22, Some 1006, Some ''int2'', Dynamic_size),
    (''int4'', 23, Some 1007, None, Bytes 4),
    (''int4range'', 3904, Some 3905, None, Dynamic_size),
    (''int8'', 20, Some 1016, None, Bytes 8),
    (''int8range'', 3926, Some 3927, None, Dynamic_size),
    (''interval'', 1186, Some 1187, None, Bytes 16),
    (''json'', 114, Some 199, None, Dynamic_size),
    (''jsonb'', 3802, Some 3807, None, Dynamic_size),
    (''jsonpath'', 4072, Some 4073, None, Dynamic_size),
    (''language_handler'', 2280, None, None, Bytes 4),
    (''line'', 628, Some 629, Some ''float8'', Bytes 24)]"

definition pg_type_definitions_3 :: "pg_type_def list" where
  "pg_type_definitions_3 =
   [(''lseg'', 601, Some 1018, Some ''point'', Bytes 32),
    (''macaddr'', 829, Some 1040, None, Bytes 6),
    (''macaddr8'', 774, Some 775, None, Bytes 8),
    (''money'', 790, Some 791, None, Bytes 8),
    (''name'', 19, Some 1003, Some ''char'', Dynamic_size),
    (''numeric'', 1700, Some 1231, None, Dynamic_size),
    (''numrange'', 3906, Some 3907, None, Dynamic_size),
    (''oid'', 26, Some 1028, None, Bytes 4),
    (''oidvector'', 30, Some 1013, Some ''oid'', Dynamic_size),
    (''opaque'', 2282, None, None, Bytes 4),
    (''path'', 602, Some 1019, None, Dynamic_size),
    (''pg_attribute'', 75, None, None, Dynamic_size),
    (''pg_class'', 83, None, None, Dynamic_size),
    (''pg_dependencies'', 3402, None, None, Dynamic_size),
    (''pg_lsn'', 3220, Some 3221, None, Bytes 8),
    (''pg_mcv_list'', 5017, None, None, Dynamic_size),
    (''pg_ndistinct'', 3361, None, None, Dynamic_size),
    (''pg_node_tree'', 194, None, None, Dynamic_size),
    (''pg_proc'', 81, None, None, Dynamic_size)]"

definition pg_type_definitions_4 :: "pg_type_def list" where
  "pg_type_definitions_4 =
   [(''pg_type'', 71, None, None, Dynamic_size),
    (''point'', 600, Some 1017, Some ''float8'', Bytes 16),
    (''polygon'', 604, Some 1027, None, Dynamic_size),
    (''record'', 2249, None, None, Dynamic_size),
    (''refcursor'', 1790, Some 2201, None, Dynamic_size),
    (''regclass'', 2205, Some 2210, None, Bytes 4),
    (''regconfig'', 3734, Some 3735, None, Bytes 4),
    (''regdictionary'', 3769, Some 3770, None, Bytes 4),
    (''regnamespace'', 4089, Some 4090, None, Bytes 4),
    (''regoper'', 2203, Some 2208, None, Bytes 4),
    (''regoperator'', 2204, Some 2209, None, Bytes 4),
    (''regproc'', 24, Some 1008, None, Bytes 4),
    (''regprocedure'', 2202, Some 2207, None, Bytes 4),
    (''regrole'', 4096, Some 4097, None, Bytes 4),
    (''regtype'', 2206, Some 2211, None, Bytes 4),
    (''table_am_handler'', 269, None, None, Bytes 4),
    (''text'', 25, Some 1009, None, Dynamic_size),
    (''tid'', 27, Some 1010, None, Bytes 6),
    (''time'', 1083, Some 1183, None, Bytes 8)]"

definition pg_type_definitions_5 :: "pg_type_def list" where
  "pg_type_definitions_5 =
   [(''timestamp'', 1114, Some 1115, None, Bytes 8),
    (''timestamptz'', 1184, Some 1185, None, Bytes 8),
    (''timetz'', 1266, Some 1270, None, Bytes 12),
    (''trigger'', 2279, None, None, Bytes 4),
    (''tsm_handler'', 3310, None, None, Bytes 4),
    (''tsquery'', 3615, Some 3645, None, Dynamic_size),
    (''tsrange'', 3908, Some 3909, None, Dynamic_size),
    (''tstzrange'', 3910, Some 3911, None, Dynamic_size),
    (''tsvector'', 3614, Some 3643, None, Dynamic_size),
    (''txid_snapshot'', 2970, Some 2949, None, Dynamic_size),
    (''unknown'', 705, None, None, Dynamic_size),
    (''uuid'', 2950, Some 2951, None, Bytes 16),
    (''varbit'', 1562, Some 1563, None, Dynamic_size),
    (''varchar'', 1043, Some 1015, None, Dynamic_size),
    (''void'', 2278, None, None, Bytes 4),
    (''xid'', 28, Some 1011, None, Bytes 4),
    (''xml'', 142, Some 143, None, Dynamic_size)]"

definition pg_type_definitions :: "pg_type_def list" where
  "pg_type_definitions = pg_type_definitions_1 @ pg_type_definitions_2 @ pg_type_definitions_3 @ pg_type_definitions_4 @ pg_type_definitions_5"

section \<open>Lookup\<close>

definition type_definition :: "string \<Rightarrow> pg_type_def option" where
  "type_definition name = find (\<lambda>(n, _). n = name) pg_type_definitions"

text \<open>\<open>array_definition\<close>: the record type has a definition of its own, any other one
  is derived from the \<open>array_oid\<close> member where there is one.\<close>

definition array_definition :: "string \<Rightarrow> int option" where
  "array_definition name = (if name = ''record'' then Some 2287
     else case type_definition name of
       Some (_, _, array_oid, _) \<Rightarrow> array_oid
     | None \<Rightarrow> None)"

end
