(* ===== verification/Type_Traits.thy ===== *)
theory Type_Traits
  imports Pg_Definitions
begin

text \<open>
  The type system: \<open>type_traits.h\<close>, the bindings of C++ types to PostgreSQL types in
  \<open>pg/types\<close> and \<open>ext\<close>, and the OID map. A C++ type that can be a query parameter or a
  result is a value of \<open>ctype\<close>; the choice among pointer and optional types makes no
  difference to the modelled code, so they are one constructor \<open>TNullable\<close>, and so
  are the dynamic sequence containers. Checks the compiler makes (a type without
  definition, a custom type missing from the OID map) are well-formedness predicates.
\<close>

section \<open>Types\<close>

datatype container = Dynamic_array | Static_array nat

datatype ctype =
    TBool | TChar | TInt2 | TInt4 | TInt8 | TFloat4 | TFloat8 | TOid
  | TText | TBytea | TName | TJson | TJsonb | TLtree
  | TUuid | TInterval | TTimestamp
  | TNullptr
  | TNullable ctype
  | TArray container ctype
  | TTuple "ctype list"
  | TStruct string "ctype list"

fun is_nullable :: "ctype \<Rightarrow> bool" where
  "is_nullable (TNullable t) = True"
| "is_nullable TNullptr = True"
| "is_nullable _ = False"

fun is_array :: "ctype \<Rightarrow> bool" where
  "is_array (TArray c t) = True"
| "is_array _ = False"

fun unwrap_type :: "ctype \<Rightarrow> ctype" where
  "unwrap_type (TNullable t) = t"
| "unwrap_type t = t"

section \<open>Type traits\<close>

text \<open>The PostgreSQL name a C++ type is bound to, None for a type without
  \<open>definitions::type\<close>. The names of types defined by the user (\<open>TStruct\<close>) and of
  \<open>ltree\<close> are not in the table of built-in types.\<close>

fun bound_name :: "ctype \<Rightarrow> string option" where
  "bound_name TBool = Some ''bool''"
| "bound_name TChar = Some ''char''"
| "bound_name TInt2 = Some ''int2''"
| "bound_name TInt4 = Some ''int4''"
| "bound_name TInt8 = Some ''int8''"
| "bound_name TFloat4 = Some ''float4''"
| "bound_name TFloat8 = Some ''float8''"
| "bound_name TOid = Some ''oid''"
| "bound_name TText = Some ''text''"
| "bound_name TBytea = Some ''bytea''"
| "bound_name TName = Some ''name''"
| "bound_name TJson = Some ''json''"
| "bound_name TJsonb = Some ''jsonb''"
| "bound_name TLtree = Some ''ltree''"
| "bound_name TUuid = Some ''uuid''"
| "bound_name TInterval = Some ''interval''"
| "bound_name TTimestamp = Some ''timestamp''"
| "bound_name TNullptr = Some ''null''"
| "bound_name (TTuple ts) = Some ''record''"
| "bound_name (TStruct name ts) = Some name"
| "bound_name (TNullable t) = None"
| "bound_name (TArray c t) = None"

definition is_custom :: "ctype \<Rightarrow> bool" where
  "is_custom t = (case t of TStruct _ _ \<Rightarrow> True | TLtree \<Rightarrow> True | _ \<Rightarrow> False)"

text \<open>\<open>type_traits<T>::oid\<close>, None for \<open>void\<close>: a type defined with
  \<open>OZO_PG_DEFINE_CUSTOM_TYPE\<close>, or an array of such a type.\<close>

definition traits_oid :: "ctype \<Rightarrow> int option" where
  "traits_oid T = (case unwrap_type T of
     TArray _ v \<Rightarrow>
       (if is_custom (unwrap_type v) then None
        else case bound_name (unwrap_type v) of Some n \<Rightarrow> array_definition n | None \<Rightarrow> None)
   | TNullptr \<Rightarrow> Some 0
   | t \<Rightarrow>
       (if is_custom t then None
        else case bound_name t of
          Some n \<Rightarrow> map_option (\<lambda>(_, oid, _). oid) (type_definition n)
        | None \<Rightarrow> None))"

text \<open>\<open>type_traits<T>::size\<close>; a custom type has the default, a dynamic size.\<close>

definition traits_size :: "ctype \<Rightarrow> type_size" where
  "traits_size T = (case unwrap_type T of
     TArray _ v \<Rightarrow> Dynamic_size
   | TNullptr \<Rightarrow> Bytes (- 1)
   | t \<Rightarrow>
       (if is_custom t then Dynamic_size
        else case bound_name t of
          Some n \<Rightarrow> (case type_definition n of Some (_, _, _, _, sz) \<Rightarrow> sz | None \<Rightarrow> Dynamic_size)
        | None \<Rightarrow> Dynamic_size))"

definition is_built_in :: "ctype \<Rightarrow> bool" where
  "is_built_in t \<longleftrightarrow> traits_oid t \<noteq> None"

definition is_dynamic_size :: "ctype \<Rightarrow> bool" where
  "is_dynamic_size t \<longleftrightarrow> traits_size t = Dynamic_size"

definition null_oid :: oid_t where "null_oid = 0"

definition null_state_size :: size_type where "null_state_size = - 1"

section \<open>The OID map\<close>

type_synonym oid_map = "(ctype \<times> oid_t) list"

definition register_types :: "ctype list \<Rightarrow> oid_map" where
  "register_types ts = map (\<lambda>t. (t, null_oid)) ts"

definition set_type_oid :: "ctype \<Rightarrow> oid_t \<Rightarrow> oid_map \<Rightarrow> oid_map" where
  "set_type_oid t oid m = map (\<lambda>(k, v). if k = t then (k, oid) else (k, v)) m"

definition type_oid :: "oid_map \<Rightarrow> ctype \<Rightarrow> oid_t" where
  "type_oid m t = (case traits_oid t of
     Some oid \<Rightarrow> word_of_int oid
   | None \<Rightarrow> (case map_of m (unwrap_type t) of Some oid \<Rightarrow> oid | None \<Rightarrow> null_oid))"

definition accepts_oid :: "oid_map \<Rightarrow> ctype \<Rightarrow> oid_t \<Rightarrow> bool" where
  "accepts_oid m t oid \<longleftrightarrow> type_oid m t = oid"

definition oid_map_empty :: "oid_map \<Rightarrow> bool" where
  "oid_map_empty m \<longleftrightarrow> length m = 0"

section \<open>Lemmas\<close>

text \<open>The rows of the bound types, read off the table once.\<close>

lemma type_definition_rows:
  "type_definition ''bool'' = Some (''bool'', 16, Some 1000, None, Bytes 1)"
  "type_definition ''char'' = Some (''char'', 18, Some 1002, None, Bytes 1)"
  "type_definition ''int2'' = Some (''int2'', 21, Some 1005, None, Bytes 2)"
  "type_definition ''int4'' = Some (''int4'', 23, Some 1007, None, Bytes 4)"
  "type_definition ''int8'' = Some (''int8'', 20, Some 1016, None, Bytes 8)"
  "type_definition ''float4'' = Some (''float4'', 700, Some 1021, None, Bytes 4)"
  "type_definition ''float8'' = Some (''float8'', 701, Some 1022, None, Bytes 8)"
  "type_definition ''oid'' = Some (''oid'', 26, Some 1028, None, Bytes 4)"
  "type_definition ''text'' = Some (''text'', 25, Some 1009, None, Dynamic_size)"
  "type_definition ''bytea'' = Some (''bytea'', 17, Some 1001, None, Dynamic_size)"
  "type_definition ''name'' = Some (''name'', 19, Some 1003, Some ''char'', Dynamic_size)"
  "type_definition ''json'' = Some (''json'', 114, Some 199, None, Dynamic_size)"
  "type_definition ''jsonb'' = Some (''jsonb'', 3802, Some 3807, None, Dynamic_size)"
  "type_definition ''uuid'' = Some (''uuid'', 2950, Some 2951, None, Bytes 16)"
  "type_definition ''interval'' = Some (''interval'', 1186, Some 1187, None, Bytes 16)"
  "type_definition ''timestamp'' = Some (''timestamp'', 1114, Some 1115, None, Bytes 8)"
  "type_definition ''record'' = Some (''record'', 2249, None, None, Dynamic_size)"
  by code_simp+

lemma traits_size_simps [simp]:
  "traits_size TBool = Bytes 1" "traits_size TChar = Bytes 1" "traits_size TInt2 = Bytes 2"
  "traits_size TInt4 = Bytes 4" "traits_size TInt8 = Bytes 8" "traits_size TFloat4 = Bytes 4"
  "traits_size TFloat8 = Bytes 8" "traits_size TOid = Bytes 4" "traits_size TText = Dynamic_size"
  "traits_size TBytea = Dynamic_size" "traits_size TName = Dynamic_size"
  "traits_size TJson = Dynamic_size" "traits_size TJsonb = Dynamic_size"
  "traits_size TLtree = Dynamic_size" "traits_size TUuid = Bytes 16"
  "traits_size TInterval = Bytes 16" "traits_size TTimestamp = Bytes 8"
  "traits_size TNullptr = Bytes (- 1)" "traits_size (TTuple ts) = Dynamic_size"
  "traits_size (TStruct n ts) = Dynamic_size" "traits_size (TArray c t) = Dynamic_size"
  by (simp_all add: traits_size_def is_custom_def type_definition_rows)

lemma traits_oid_simps [simp]:
  "traits_oid TBool = Some 16" "traits_oid TChar = Some 18" "traits_oid TInt2 = Some 21"
  "traits_oid TInt4 = Some 23" "traits_oid TInt8 = Some 20" "traits_oid TFloat4 = Some 700"
  "traits_oid TFloat8 = Some 701" "traits_oid TOid = Some 26" "traits_oid TText = Some 25"
  "traits_oid TBytea = Some 17" "traits_oid TName = Some 19" "traits_oid TJson = Some 114"
  "traits_oid TJsonb = Some 3802" "traits_oid TLtree = None" "traits_oid TUuid = Some 2950"
  "traits_oid TInterval = Some 1186" "traits_oid TTimestamp = Some 1114"
  "traits_oid TNullptr = Some 0" "traits_oid (TTuple ts) = Some 2249" "traits_oid (TStruct n ts) = None"
  by (simp_all add: traits_oid_def is_custom_def type_definition_rows)

lemma type_oid_set:
  assumes "traits_oid t = None" "unwrap_type t = t" "t \<in> fst ` set m"
  shows "type_oid (set_type_oid t oid m) t = oid"
  using assms by (induction m) (auto simp: type_oid_def set_type_oid_def)

lemma type_oid_set_other:
  assumes "unwrap_type u \<noteq> t"
  shows "type_oid (set_type_oid t oid m) u = type_oid m u"
  using assms by (induction m) (auto simp: type_oid_def set_type_oid_def split: option.splits)

lemma fst_set_type_oid [simp]: "map fst (set_type_oid t oid m) = map fst m"
  by (induction m) (auto simp: set_type_oid_def)

end
