(* ===== verification/Endian.thy ===== *)
theory Endian
  imports Prelude
begin

text \<open>
  Byte order and raw representation of integers: \<open>detail/endian.h\<close>,
  \<open>detail/typed_buffer.h\<close> and \<open>detail/float.h\<close>. Integers are words of a length
  that is a multiple of eight; \<open>sizeof_word\<close> is their \<open>sizeof\<close>. A floating-point
  value is represented by its bit pattern, which is what the union of
  \<open>detail/float.h\<close> reads and writes.
\<close>

section \<open>Byte order conversion\<close>

datatype endian = little | big

definition sizeof_word :: "'a::len word \<Rightarrow> nat" where
  "sizeof_word w = LENGTH('a) div 8"

definition byte_order_swap :: "'a::len word \<Rightarrow> 'a word" where
  "byte_order_swap value = foldr (\<lambda>N acc.
     push_bit ((sizeof_word value - 1 - N) * 8) (drop_bit (N * 8) value AND 255) OR acc)
     [0..<sizeof_word value] 0"

fun convert_to_big_endian :: "endian \<Rightarrow> 'a::len word \<Rightarrow> 'a word" where
  "convert_to_big_endian little value = byte_order_swap value"
| "convert_to_big_endian big value = value"

fun convert_from_big_endian :: "endian \<Rightarrow> 'a::len word \<Rightarrow> 'a word" where
  "convert_from_big_endian little value = byte_order_swap value"
| "convert_from_big_endian big value = value"

section \<open>The typed buffer\<close>

text \<open>\<open>typed_buffer\<close> overlays an integer with its bytes in memory: the byte at
  address \<open>i\<close> is the \<open>i\<close>-th least significant one on a little-endian machine
  and the \<open>i\<close>-th most significant one on a big-endian machine.\<close>

definition byte_at :: "nat \<Rightarrow> 'a::len word \<Rightarrow> byte" where
  "byte_at i w = ucast (drop_bit (8 * i) w)"

definition le_bytes :: "'a::len word \<Rightarrow> bytes" where
  "le_bytes w = map (\<lambda>i. byte_at i w) [0..<sizeof_word w]"

fun word_of_le :: "bytes \<Rightarrow> 'a::len word" where
  "word_of_le [] = 0"
| "word_of_le (b # bs) = ucast b OR push_bit 8 (word_of_le bs)"

fun typed_buffer_raw :: "endian \<Rightarrow> 'a::len word \<Rightarrow> bytes" where
  "typed_buffer_raw little w = le_bytes w"
| "typed_buffer_raw big w = rev (le_bytes w)"

fun typed_buffer_typed :: "endian \<Rightarrow> bytes \<Rightarrow> 'a::len word" where
  "typed_buffer_typed little raw = word_of_le raw"
| "typed_buffer_typed big raw = word_of_le (rev raw)"

text \<open>The reference encoding: the bytes of a word, most significant first.\<close>

definition be_bytes :: "'a::len word \<Rightarrow> bytes" where
  "be_bytes w = rev (le_bytes w)"

definition word_of_be :: "bytes \<Rightarrow> 'a::len word" where
  "word_of_be bs = word_of_le (rev bs)"

section \<open>Lemmas\<close>

lemma length_le_bytes [simp]: "length (le_bytes w) = sizeof_word w"
  by (simp add: le_bytes_def)

lemma length_be_bytes [simp, codec_simps]: "length (be_bytes w) = sizeof_word w"
  by (simp add: be_bytes_def)

lemma bit_byte_at: "bit (byte_at i w) k \<longleftrightarrow> k < 8 \<and> bit w (8 * i + k)"
  by (auto simp: byte_at_def bit_simps)

lemma bit_foldr_or:
  fixes f :: "nat \<Rightarrow> 'a::len word"
  shows "bit (foldr (\<lambda>N acc. f N OR acc) Ns 0) k \<longleftrightarrow> (\<exists>N\<in>set Ns. bit (f N) k)"
  by (induction Ns) (auto simp: bit_simps)

lemma bit_swap_term:
  fixes w :: "'a::len word"
  shows "bit (push_bit s (drop_bit d w AND 255)) j \<longleftrightarrow>
    s \<le> j \<and> j < LENGTH('a) \<and> j - s < 8 \<and> bit w (d + (j - s))"
proof -
  have "(255 :: 'a word) = mask 8" by (simp add: mask_eq_exp_minus_1)
  then have "bit (push_bit s (drop_bit d w AND 255)) j = bit (push_bit s (drop_bit d w AND mask 8)) j"
    by (simp only:)
  also have "\<dots> \<longleftrightarrow> s \<le> j \<and> j < LENGTH('a) \<and> j - s < 8 \<and> bit w (d + (j - s))"
    by (auto simp only: bit_push_bit_iff bit_and_iff bit_drop_bit_eq bit_mask_iff
        possible_bit_word comp_def)
  finally show ?thesis .
qed

lemma bit_byte_order_swap:
  fixes w :: "'a::len word"
  assumes "8 dvd LENGTH('a)" "i < sizeof_word w" "k < 8"
  shows "bit (byte_order_swap w) (8 * i + k) \<longleftrightarrow> bit w (8 * (sizeof_word w - 1 - i) + k)"
proof -
  let ?n = "sizeof_word w" and ?j = "8 * i + k"
  have len: "?j < LENGTH('a)" using assms by (auto simp: sizeof_word_def elim!: dvdE)
  have pos: "(?n - 1 - N) * 8 \<le> ?j \<and> ?j - (?n - 1 - N) * 8 < 8 \<longleftrightarrow> N = ?n - 1 - i"
    if "N < ?n" for N
    using that assms(2,3) by auto
  have "bit (byte_order_swap w) ?j \<longleftrightarrow>
    (\<exists>N<?n. (?n - 1 - N) * 8 \<le> ?j \<and> ?j - (?n - 1 - N) * 8 < 8
       \<and> bit w (N * 8 + (?j - (?n - 1 - N) * 8)))"
    unfolding byte_order_swap_def bit_foldr_or bit_swap_term using len by auto
  also have "\<dots> \<longleftrightarrow> (\<exists>N<?n. N = ?n - 1 - i \<and> bit w (N * 8 + (?j - (?n - 1 - N) * 8)))"
    using pos by blast
  also have "\<dots> \<longleftrightarrow> bit w (8 * (?n - 1 - i) + k)"
    using assms(2,3) by (auto simp: Suc_diff_Suc mult.commute)
  finally show ?thesis .
qed

lemma byte_at_swap:
  fixes w :: "'a::len word"
  assumes "8 dvd LENGTH('a)" "i < sizeof_word w"
  shows "byte_at i (byte_order_swap w) = byte_at (sizeof_word w - 1 - i) w"
  by (rule bit_eqI) (use assms in \<open>auto simp: bit_byte_at bit_byte_order_swap\<close>)

lemma sizeof_swap [simp]: "sizeof_word (byte_order_swap w) = sizeof_word w"
  by (simp add: sizeof_word_def)

lemma le_bytes_swap:
  fixes w :: "'a::len word"
  assumes "8 dvd LENGTH('a)"
  shows "le_bytes (byte_order_swap w) = be_bytes w"
  using assms
  by (auto intro!: nth_equalityI simp: be_bytes_def le_bytes_def rev_nth byte_at_swap)

lemma bit_word_of_le:
  "bit (word_of_le bs :: 'a::len word) k \<longleftrightarrow>
     k < LENGTH('a) \<and> k div 8 < length bs \<and> bit (bs ! (k div 8)) (k mod 8)"
proof (induction bs arbitrary: k)
  case (Cons b bs)
  show ?case
  proof (cases "k < 8")
    case True
    then show ?thesis by (auto simp: bit_simps)
  next
    case False
    then obtain j where k: "k = j + 8" using le_Suc_ex by (metis add.commute not_le)
    have "(j + 8) div 8 = Suc (j div 8)" by simp
    then show ?thesis
      using bit_imp_le_length [of b k]
      by (auto simp: k bit_simps Cons.IH)
  qed
qed simp

lemma word_of_le_bytes:
  fixes w :: "'a::len word"
  assumes "8 dvd LENGTH('a)"
  shows "word_of_le (le_bytes w) = w"
proof (rule bit_word_eqI)
  fix k assume "k < LENGTH('a)"
  moreover from this assms have "k div 8 < sizeof_word w"
    by (simp add: sizeof_word_def div_less_iff_less_mult)
  ultimately show "bit (word_of_le (le_bytes w) :: 'a word) k = bit w k"
    by (simp add: bit_word_of_le le_bytes_def bit_byte_at)
qed

lemma word_of_be_bytes [simp]:
  fixes w :: "'a::len word"
  assumes "8 dvd LENGTH('a)"
  shows "word_of_be (be_bytes w) = w"
  using assms by (simp add: word_of_be_def be_bytes_def word_of_le_bytes)

lemma byte_order_swap_involution:
  fixes w :: "'a::len word"
  assumes "8 dvd LENGTH('a)"
  shows "byte_order_swap (byte_order_swap w) = w"
  using word_of_le_bytes [OF assms] le_bytes_swap [OF assms]
  by (metis be_bytes_def rev_rev_ident)

lemma raw_convert_to_big_endian:
  fixes w :: "'a::len word"
  assumes "8 dvd LENGTH('a)"
  shows "typed_buffer_raw e (convert_to_big_endian e w) = be_bytes w"
  using assms by (cases e) (simp_all add: le_bytes_swap be_bytes_def)

lemma convert_from_typed:
  fixes w :: "'a::len word"
  assumes "8 dvd LENGTH('a)"
  shows "convert_from_big_endian e (typed_buffer_typed e (be_bytes w) :: 'a word) = w"
proof (cases e)
  case little
  then show ?thesis
    using assms le_bytes_swap [of w] word_of_le_bytes [of "byte_order_swap w"]
    by (simp add: byte_order_swap_involution)
next
  case big
  then show ?thesis using assms by (simp add: be_bytes_def word_of_le_bytes)
qed

lemma be_bytes_word_of_be:
  fixes bs :: bytes
  assumes "8 dvd LENGTH('a::len)" "length bs = LENGTH('a) div 8"
  shows "be_bytes (word_of_be bs :: 'a word) = bs"
proof -
  have "byte_at i (word_of_le xs :: 'a word) = xs ! i" if "length xs = LENGTH('a) div 8" "i < length xs" for xs i
  proof (rule bit_word_eqI)
    fix k assume k: "k < LENGTH(8)"
    have "8 * i + k < LENGTH('a)" using that k assms(1) by (auto elim!: dvdE)
    then show "bit (byte_at i (word_of_le xs :: 'a word)) k = bit (xs ! i) k"
      using that k by (simp add: bit_byte_at bit_word_of_le)
  qed
  then have "le_bytes (word_of_le (rev bs) :: 'a word) = rev bs"
    using assms(2) by (intro nth_equalityI) (simp_all add: le_bytes_def sizeof_word_def)
  then show ?thesis by (simp add: be_bytes_def word_of_be_def)
qed

text \<open>C1: whatever the byte order of the machine, the bytes laid out in memory
  by \<open>convert_to_big_endian\<close> are those of the big-endian reference encoding, and
  \<open>convert_from_big_endian\<close> recovers the value from them, for every integer width
  that is a whole number of bytes.\<close>

theorem big_endian_wire_format:
  fixes v :: "'a::len word"
  assumes "8 dvd LENGTH('a)"
  shows "typed_buffer_raw native (convert_to_big_endian native v) = be_bytes v
    \<and> convert_from_big_endian native
         (typed_buffer_typed native (typed_buffer_raw native (convert_to_big_endian native v)) :: 'a word)
       = v"
  using assms by (simp add: raw_convert_to_big_endian convert_from_typed)

theorem big_endian_wire_format_witness:
  "typed_buffer_raw little (convert_to_big_endian little (0x01020304 :: 32 word)) = [1, 2, 3, 4]"
  using big_endian_wire_format [where native = little and v = "0x01020304 :: 32 word"]
  by simp code_simp

end
