(* ===== verification/Streams.thy ===== *)
theory Streams
  imports Endian Error_Codes
begin

text \<open>
  Binary input and output streams: \<open>io/istream.h\<close> and \<open>io/ostream.h\<close>. An input
  stream is the bytes between its read position and its end plus the sticky
  \<open>unexpected_eof_\<close> flag, here \<open>eof_flag\<close>. A member \<open>read\<close> never fails: it copies what there is and
  raises the flag when that is not enough; the free function \<open>read\<close> turns the flag
  into an exception. An output stream is a buffer that every \<open>write\<close> extends, so a
  \<open>write\<close> is represented by the bytes it appends. The byte order of the machine is
  little-endian, the wire format is proved independent of it in \<open>Endian\<close>.
\<close>

definition native :: endian where "native = little"

section \<open>Input stream\<close>

record istream =
  stream_buf :: bytes
  eof_flag :: bool

abbreviation mk_istream :: "bytes \<Rightarrow> istream" where
  "mk_istream bs \<equiv> \<lparr>stream_buf = bs, eof_flag = False\<rparr>"

definition istreambuf_read :: "nat \<Rightarrow> bytes \<Rightarrow> bytes \<times> bytes" where
  "istreambuf_read n i = (let last = min n (length i) in (take last i, drop last i))"

definition istream_read :: "nat \<Rightarrow> istream \<Rightarrow> bytes \<times> istream" where
  "istream_read len s = (let (got, rest) = istreambuf_read len (stream_buf s) in
     (got, if length got \<noteq> len then s\<lparr>stream_buf := rest, eof_flag := True\<rparr> else s\<lparr>stream_buf := rest\<rparr>))"

definition istream_get :: "istream \<Rightarrow> byte option \<times> istream" where
  "istream_get s = (let (got, s') = istream_read 1 s in
     (if eof_flag s' then None else Some (hd got), s'))"

definition istream_read_char :: "istream \<Rightarrow> byte \<times> istream" where
  "istream_read_char s = (let (c, s') = istream_get s in
     (case c of Some b \<Rightarrow> b | None \<Rightarrow> - 1, s'))"

definition istream_read_int :: "istream \<Rightarrow> 'a::len word \<times> istream" where
  "istream_read_int s = (let (raw, s') = istream_read (LENGTH('a) div 8) s in
     (convert_from_big_endian native (typed_buffer_typed native raw), s'))"

definition istream_read_bool :: "istream \<Rightarrow> bool \<times> istream" where
  "istream_read_bool s = (let (tmp, s') = istream_read_char s in (tmp \<noteq> 0, s'))"

text \<open>The free function \<open>read\<close>.\<close>

definition checked :: "'a \<times> istream \<Rightarrow> ('a \<times> istream) result" where
  "checked r = (if eof_flag (snd r) then Inl (System_Error unexpected_eof) else Inr r)"

definition read_raw :: "nat \<Rightarrow> istream \<Rightarrow> (bytes \<times> istream) result" where
  "read_raw len s = checked (istream_read len s)"

definition read_char :: "istream \<Rightarrow> (byte \<times> istream) result" where
  "read_char s = checked (istream_read_char s)"

definition read_int :: "istream \<Rightarrow> ('a::len word \<times> istream) result" where
  "read_int s = checked (istream_read_int s)"

definition read_bool :: "istream \<Rightarrow> (bool \<times> istream) result" where
  "read_bool s = checked (istream_read_bool s)"

section \<open>Output stream\<close>

definition write_raw :: "bytes \<Rightarrow> bytes" where
  "write_raw bs = bs"

definition write_char :: "byte \<Rightarrow> bytes" where
  "write_char c = [c]"

definition write_int :: "'a::len word \<Rightarrow> bytes" where
  "write_int w = typed_buffer_raw native (convert_to_big_endian native w)"

definition write_bool :: "bool \<Rightarrow> bytes" where
  "write_bool b = write_char (if b then 1 else 0)"

section \<open>The contract between a writer and a reader\<close>

text \<open>A reader undoes a writer when, from any stream that starts with the bytes the
  writer emits for an admissible value, it returns that value and stops right after
  those bytes.\<close>

locale wire_codec =
  fixes enc :: "'v \<Rightarrow> bytes"
    and dec :: "istream \<Rightarrow> ('v \<times> istream) result"
    and admissible :: "'v \<Rightarrow> bool"
  assumes dec_enc: "admissible v \<Longrightarrow> dec (mk_istream (enc v @ rest)) = Inr (v, mk_istream rest)"
begin

lemma enc_prefix_free:
  assumes "admissible v" "admissible w" "enc v @ r = enc w @ r'"
  shows "v = w \<and> r = r'"
proof -
  have "Inr (v, mk_istream r) = (Inr (w, mk_istream r') :: ('v \<times> istream) result)"
    unfolding dec_enc [OF assms(1), symmetric] dec_enc [OF assms(2), symmetric] assms(3) ..
  then show ?thesis by simp
qed

end

section \<open>Lemmas\<close>

lemma istream_read_all:
  "istream_read n (mk_istream bs) =
    (if n \<le> length bs then (take n bs, mk_istream (drop n bs))
     else (bs, \<lparr>stream_buf = [], eof_flag = True\<rparr>))"
  by (simp add: istream_read_def istreambuf_read_def Let_def min_def)

lemma istream_read_sticky: "eof_flag s \<Longrightarrow> eof_flag (snd (istream_read n s))"
  by (simp add: istream_read_def istreambuf_read_def Let_def)

lemma read_raw_append [simp]:
  "length bs = n \<Longrightarrow> read_raw n (mk_istream (bs @ rest)) = Inr (bs, mk_istream rest)"
  by (simp add: read_raw_def istream_read_all checked_def)

lemma istream_get_mk:
  "istream_get (mk_istream bs) = (case bs of
     [] \<Rightarrow> (None, \<lparr>stream_buf = [], eof_flag = True\<rparr>) | b # r \<Rightarrow> (Some b, mk_istream r))"
  by (cases bs) (simp_all add: istream_get_def istream_read_all)

lemma write_int_eq: "8 dvd LENGTH('a) \<Longrightarrow> write_int (w :: 'a::len word) = be_bytes w"
  by (simp add: write_int_def raw_convert_to_big_endian)

lemma length_write_int [codec_simps]:
  "8 dvd LENGTH('a) \<Longrightarrow> length (write_int (w :: 'a::len word)) = LENGTH('a) div 8"
  by (simp add: write_int_eq sizeof_word_def)

lemma length_write_ints [simp]:
  "length (write_int (w2 :: 16 word)) = 2" "length (write_int (w4 :: 32 word)) = 4"
  "length (write_int (w8 :: 64 word)) = 8"
  by (simp_all add: length_write_int)

lemma istream_read_int_write:
  fixes w :: "'a::len word"
  assumes "8 dvd LENGTH('a)"
  shows "istream_read_int (mk_istream (write_int w @ rest)) = (w, mk_istream rest)"
  using assms by (simp add: istream_read_int_def istream_read_all length_write_int write_int_eq
      convert_from_typed sizeof_word_def)

lemma read_int_write:
  fixes w :: "'a::len word"
  assumes "8 dvd LENGTH('a)"
  shows "read_int (mk_istream (write_int w @ rest)) = Inr (w, mk_istream rest)"
  using assms by (simp add: read_int_def istream_read_int_write checked_def)

interpretation char_codec: wire_codec write_char read_char "\<lambda>_. True"
  by unfold_locales
    (simp add: write_char_def read_char_def istream_read_char_def istream_get_mk checked_def)

interpretation bool_codec: wire_codec write_bool read_bool "\<lambda>_. True"
  by unfold_locales
    (simp add: write_bool_def write_char_def read_bool_def istream_read_bool_def
      istream_read_char_def istream_get_mk checked_def)

interpretation int16_codec: wire_codec "write_int :: 16 word \<Rightarrow> bytes" read_int "\<lambda>_. True"
  by unfold_locales (simp add: read_int_write)

interpretation int32_codec: wire_codec "write_int :: 32 word \<Rightarrow> bytes" read_int "\<lambda>_. True"
  by unfold_locales (simp add: read_int_write)

interpretation int64_codec: wire_codec "write_int :: 64 word \<Rightarrow> bytes" read_int "\<lambda>_. True"
  by unfold_locales (simp add: read_int_write)

lemmas stream_codecs [simp] = char_codec.dec_enc [OF TrueI] bool_codec.dec_enc [OF TrueI]
  int16_codec.dec_enc [OF TrueI] int32_codec.dec_enc [OF TrueI] int64_codec.dec_enc [OF TrueI]

lemma read_int_cases:
  assumes "8 dvd LENGTH('a::len)"
  shows "read_int (mk_istream bs) =
    (if LENGTH('a) div 8 \<le> length bs
     then Inr (word_of_be (take (LENGTH('a) div 8) bs) :: 'a word, mk_istream (drop (LENGTH('a) div 8) bs))
     else Inl (System_Error unexpected_eof))"
proof (cases "LENGTH('a) div 8 \<le> length bs")
  case True
  let ?raw = "take (LENGTH('a) div 8) bs"
  have "be_bytes (word_of_be ?raw :: 'a word) = ?raw"
    using True assms by (intro be_bytes_word_of_be) simp_all
  then have "convert_from_big_endian native (typed_buffer_typed native ?raw :: 'a word) = word_of_be ?raw"
    using convert_from_typed [OF assms, of native "word_of_be ?raw"] by simp
  with True show ?thesis
    by (simp add: read_int_def istream_read_int_def istream_read_all checked_def)
qed (simp add: read_int_def istream_read_int_def istream_read_all checked_def)

text \<open>The free function \<open>read\<close> for raw data succeeds exactly when the stream holds
  enough bytes and no earlier read fell short; it then returns precisely the next
  bytes and leaves the rest, and otherwise it raises \<open>unexpected_eof\<close>. It never looks
  beyond the end of the buffer.\<close>

lemma read_raw_spec:
  "read_raw len s =
    (if eof_flag s \<or> length (stream_buf s) < len then Inl (System_Error unexpected_eof)
     else Inr (take len (stream_buf s), s\<lparr>stream_buf := drop len (stream_buf s)\<rparr>))"
  by (auto simp: read_raw_def istream_read_def istreambuf_read_def Let_def checked_def min_def)

end
