(* ===== verification/Chrono.thy ===== *)
theory Chrono
  imports Streams
begin

text \<open>
  Durations and time points on the wire: \<open>ext/std/duration.h\<close>, \<open>ext/std/time_point.h\<close>
  and \<open>detail/epoch.h\<close>. Ticks are the integers they denote; an arithmetic result is
  brought back into \<open>int64\<close> with \<open>int64_of\<close> wherever the C++ expression computes in a
  64-bit representation, so an overflow is visible as wrap-around.
  \<open>system_clock\<close> counts nanoseconds, as in libstdc++.
\<close>

definition int64_of :: "int \<Rightarrow> int" where
  "int64_of x = (x + 2 ^ 63) mod 2 ^ 64 - 2 ^ 63"

definition usecs_per_day :: int where "usecs_per_day = 86400000000"

section \<open>Intervals\<close>

record pg_interval =
  iv_microseconds :: int
  iv_days :: int
  iv_months :: int

definition from_chrono_duration :: "int \<Rightarrow> pg_interval" where
  "from_chrono_duration usecs =
     \<lparr>iv_microseconds = crem usecs usecs_per_day,
      iv_days = int32_of (cdiv usecs usecs_per_day),
      iv_months = 0\<rparr>"

definition to_chrono_duration :: "pg_interval \<Rightarrow> int" where
  "to_chrono_duration iv = (
     let usecs_surplus = crem (iv_microseconds iv) usecs_per_day;
         days_total = int64_of (int64_of (int64_of (30 * iv_months iv) + iv_days iv)
                        + cdiv (iv_microseconds iv) usecs_per_day);
         usecs_of_days = (\<lambda>d. int64_of (d * usecs_per_day))
     in
     if days_total < int64_of (cdiv int64_min usecs_per_day - 1)
        \<or> (days_total < 0 \<and>
           int64_of (usecs_of_days (int64_of (days_total + 1)) + usecs_surplus)
             < int64_of (int64_min + usecs_per_day))
     then int64_min
     else if int64_of (cdiv int64_max usecs_per_day + 1) < days_total
        \<or> (0 < days_total \<and>
           int64_of (int64_max - usecs_per_day)
             < int64_of (usecs_of_days (int64_of (days_total - 1)) + usecs_surplus))
     then int64_max
     else int64_of (usecs_of_days days_total + usecs_surplus))"

definition write_interval :: "int \<Rightarrow> bytes" where
  "write_interval usecs = (let iv = from_chrono_duration usecs in
     write_int (word_of_int (iv_microseconds iv) :: 64 word)
     @ write_int (word_of_int (iv_days iv) :: 32 word)
     @ write_int (word_of_int (iv_months iv) :: 32 word))"

definition read_interval :: "istream \<Rightarrow> (int \<times> istream) result" where
  "read_interval s0 = bindR (checked (
     let (us, s1) = istream_read_int s0;
         (d, s2) = istream_read_int s1;
         (m, s3) = istream_read_int s2
     in (\<lparr>iv_microseconds = sint (us :: 64 word), iv_days = sint (d :: 32 word),
          iv_months = sint (m :: 32 word)\<rparr>, s3)))
     (\<lambda>(iv, s). Inr (to_chrono_duration iv, s))"

section \<open>Time points\<close>

definition ns_per_us :: int where "ns_per_us = 1000"

definition epoch :: int where "epoch = 24 * 3600 * 1000000000 * 10957"

definition time_point_to_wire :: "int \<Rightarrow> int" where
  "time_point_to_wire t = cdiv (int64_of (t - epoch)) ns_per_us"

definition time_point_of_wire :: "int \<Rightarrow> int" where
  "time_point_of_wire v = int64_of (epoch + int64_of (v * ns_per_us))"

definition write_time_point :: "int \<Rightarrow> bytes" where
  "write_time_point t = write_int (word_of_int (time_point_to_wire t) :: 64 word)"

definition read_time_point :: "istream \<Rightarrow> (int \<times> istream) result" where
  "read_time_point s = bindR (read_int s) (\<lambda>(v :: 64 word, s'). Inr (time_point_of_wire (sint v), s'))"

section \<open>Lemmas\<close>

lemma int64_of_id: "in_int64 x \<Longrightarrow> int64_of x = x"
  by (simp add: int64_of_def in_int64_def int64_min_def int64_max_def)

lemma in_int64_int64_of: "in_int64 (int64_of x)"
proof -
  have "0 \<le> (x + 2 ^ 63) mod 2 ^ 64" "(x + 2 ^ 63) mod 2 ^ 64 < 2 ^ 64" by simp_all
  then show ?thesis by (simp add: int64_of_def in_int64_def int64_min_def int64_max_def)
qed

lemmas day_split = cdiv_crem_sign [of usecs_per_day]

lemma usecs_per_day_pos: "0 < usecs_per_day"
  by (simp add: usecs_per_day_def)

lemma day_bounds:
  assumes "in_int64 u"
  shows "\<bar>cdiv u usecs_per_day\<bar> \<le> 106751991"
  using day_split [OF usecs_per_day_pos, of u] assms
  by (cases "0 \<le> u") (simp_all add: in_int64_def int64_min_def int64_max_def usecs_per_day_def)

lemma int64_of_below: "\<lbrakk>- (2 ^ 63) - 2 ^ 64 \<le> x; x < - (2 ^ 63)\<rbrakk> \<Longrightarrow> int64_of x = x + 2 ^ 64"
  unfolding int64_of_def using mod_add_self2 [of "x + 2 ^ 63" "2 ^ 64"]
  by (simp add: mod_pos_pos_trivial)

lemma int64_of_above: "\<lbrakk>2 ^ 63 \<le> x; x < 2 ^ 63 + 2 ^ 64\<rbrakk> \<Longrightarrow> int64_of x = x - 2 ^ 64"
  unfolding int64_of_def using minus_mod_self2 [of "x + 2 ^ 63" "2 ^ 64"]
  by (simp add: mod_pos_pos_trivial)

lemma int64_of_add_left: "int64_of (int64_of x + y) = int64_of (x + y)"
  by (simp add: int64_of_def mod_simps algebra_simps)

section \<open>Correctness of the conversions\<close>

definition interval_days :: "pg_interval \<Rightarrow> int" where
  "interval_days iv = 30 * iv_months iv + iv_days iv + cdiv (iv_microseconds iv) usecs_per_day"

definition interval_usecs :: "pg_interval \<Rightarrow> int" where
  "interval_usecs iv = (30 * iv_months iv + iv_days iv) * usecs_per_day + iv_microseconds iv"

definition interval_wf :: "pg_interval \<Rightarrow> bool" where
  "interval_wf iv \<longleftrightarrow> in_int64 (iv_microseconds iv)
     \<and> int32_of (iv_days iv) = iv_days iv \<and> int32_of (iv_months iv) = iv_months iv"

definition clamp64 :: "int \<Rightarrow> int" where
  "clamp64 x = max int64_min (min int64_max x)"

text \<open>The intervals on which the range checks of the source overflow themselves.\<close>

definition interval_gap :: "pg_interval \<Rightarrow> bool" where
  "interval_gap iv \<longleftrightarrow>
     interval_days iv = - 106751992 \<and> crem (iv_microseconds iv) usecs_per_day < - 14454775808
   \<or> interval_days iv = 106751992 \<and> 14454775807 < crem (iv_microseconds iv) usecs_per_day"

lemma interval_usecs_split:
  "interval_usecs iv = interval_days iv * usecs_per_day + crem (iv_microseconds iv) usecs_per_day"
  by (simp add: interval_usecs_def interval_days_def crem_def algebra_simps)

lemma interval_days_bound:
  assumes "interval_wf iv"
  shows "\<bar>interval_days iv\<bar> < 2 ^ 40"
  using assms day_bounds [of "iv_microseconds iv"]
    int32_of_range [of "iv_days iv"] int32_of_range [of "iv_months iv"]
  by (simp add: interval_wf_def interval_days_def)

lemma min_days: "cdiv int64_min usecs_per_day = - 106751991"
  and max_days: "cdiv int64_max usecs_per_day = 106751991"
  by (simp_all add: cdiv_def int64_min_def int64_max_def usecs_per_day_def)

text \<open>The conversion with the intermediate results that cannot overflow computed
  exactly.\<close>

lemma to_chrono_duration_eq:
  assumes "interval_wf iv"
  defines "T \<equiv> interval_days iv" and "r \<equiv> crem (iv_microseconds iv) usecs_per_day"
  shows "to_chrono_duration iv =
    (if T < - 106751992 \<or> T < 0 \<and> int64_of ((T + 1) * 86400000000 + r) < - 9223371950454775808
     then int64_min
     else if 106751992 < T \<or> 0 < T \<and> 9223371950454775807 < int64_of ((T - 1) * 86400000000 + r)
     then int64_max
     else int64_of (T * 86400000000 + r))"
proof -
  have T: "\<bar>T\<bar> < 2 ^ 40" using interval_days_bound [OF assms(1)] by (simp add: T_def)
  have "in_int64 (30 * iv_months iv)" "in_int64 (30 * iv_months iv + iv_days iv)"
    using assms(1) int32_of_range [of "iv_days iv"] int32_of_range [of "iv_months iv"]
    by (auto simp: interval_wf_def in_int64_def int64_min_def int64_max_def)
  moreover have "in_int64 T" "in_int64 (T + 1)" "in_int64 (T - 1)"
    using T by (auto simp: in_int64_def int64_min_def int64_max_def)
  moreover have "int64_of (int64_min + usecs_per_day) = - 9223371950454775808"
    "int64_of (int64_max - usecs_per_day) = 9223371950454775807"
    "int64_of (cdiv int64_min usecs_per_day - 1) = - 106751992"
    "int64_of (cdiv int64_max usecs_per_day + 1) = 106751992"
    unfolding min_days max_days
    by (simp_all add: int64_of_def int64_min_def int64_max_def usecs_per_day_def)
  ultimately show ?thesis
    unfolding to_chrono_duration_def Let_def
    by (simp add: int64_of_id T_def [unfolded interval_days_def, symmetric] r_def [symmetric]
        int64_of_add_left) (auto simp: usecs_per_day_def)
qed

lemma to_chrono_clamps:
  assumes "interval_wf iv" "\<not> interval_gap iv"
  shows "to_chrono_duration iv = clamp64 (interval_usecs iv)"
proof -
  define T r where "T = interval_days iv" and "r = crem (iv_microseconds iv) usecs_per_day"
  have r: "- 86400000000 < r" "r < 86400000000"
    using day_split(2) [OF usecs_per_day_pos, of "iv_microseconds iv"]
    by (auto simp: r_def usecs_per_day_def)
  have gap: "T = - 106751992 \<Longrightarrow> - 14454775808 \<le> r" "T = 106751992 \<Longrightarrow> r \<le> 14454775807"
    using assms(2) by (auto simp: interval_gap_def T_def r_def)
  note eq = to_chrono_duration_eq [OF assms(1), folded T_def r_def]
  note usecs = interval_usecs_split [of iv, folded T_def r_def, unfolded usecs_per_day_def]
  note bounds = clamp64_def int64_min_def int64_max_def in_int64_def
  consider "T < - 106751992" | "- 106751992 \<le> T" "T < 0" | "T = 0" | "0 < T" "T \<le> 106751992"
    | "106751992 < T" by linarith
  then show ?thesis
  proof cases
    case 2
    have "int64_of ((T + 1) * 86400000000 + r) = (T + 1) * 86400000000 + r"
      using 2 r gap by (intro int64_of_id, cases "T = - 106751992") (auto simp: bounds)
    moreover have "int64_of (T * 86400000000 + r) = T * 86400000000 + r"
      if "- 9223372036854775808 \<le> T * 86400000000 + r"
      using 2 r that by (intro int64_of_id) (auto simp: bounds)
    ultimately show ?thesis using 2 r unfolding eq usecs by (auto simp: bounds)
  next
    case 4
    have "int64_of ((T - 1) * 86400000000 + r) = (T - 1) * 86400000000 + r"
      using 4 r gap by (intro int64_of_id, cases "T = 106751992") (auto simp: bounds)
    moreover have "int64_of (T * 86400000000 + r) = T * 86400000000 + r"
      if "T * 86400000000 + r \<le> 9223372036854775807"
      using 4 r that by (intro int64_of_id) (auto simp: bounds)
    ultimately show ?thesis using 4 r unfolding eq usecs by (auto simp: bounds)
  qed (use r in \<open>auto simp: eq usecs bounds int64_of_id\<close>)
qed

text \<open>C30: decoding an interval is exact where its length fits \<open>int64\<close> microseconds (a
  month counting 30 days) and saturates at the nearest bound otherwise, on every
  interval outside \<open>interval_gap\<close>.\<close>

theorem interval_saturates:
  assumes "interval_wf iv" "\<not> interval_gap iv"
  shows "to_chrono_duration iv = clamp64 (interval_usecs iv)"
  using assms by (rule to_chrono_clamps)

theorem interval_saturates_witness:
  "to_chrono_duration \<lparr>iv_microseconds = 14454775808, iv_days = 106751991, iv_months = 0\<rparr> = 2 ^ 63 - 1"
proof -
  let ?iv = "\<lparr>iv_microseconds = 14454775808, iv_days = 106751991, iv_months = 0\<rparr>"
  have "interval_wf ?iv" "\<not> interval_gap ?iv" by code_simp+
  from interval_saturates [OF this] show ?thesis by simp code_simp
qed

text \<open>C31: inside \<open>interval_gap\<close> the range check overflows and the conversion does not
  saturate: an interval longer than the largest duration decodes to a negative one and
  an interval shorter than the smallest duration to a positive one.\<close>

theorem interval_gap_wraps:
  assumes "interval_wf iv" "interval_gap iv"
  shows "interval_usecs iv < int64_min \<and> 0 < to_chrono_duration iv
    \<or> int64_max < interval_usecs iv \<and> to_chrono_duration iv < 0"
proof -
  define T r where "T = interval_days iv" and "r = crem (iv_microseconds iv) usecs_per_day"
  have r: "- 86400000000 < r" "r < 86400000000"
    using day_split(2) [OF usecs_per_day_pos, of "iv_microseconds iv"]
    by (auto simp: r_def usecs_per_day_def)
  have "T = - 106751992 \<and> r < - 14454775808 \<or> T = 106751992 \<and> 14454775807 < r"
    using assms(2) by (simp add: interval_gap_def T_def r_def)
  then show ?thesis
    unfolding to_chrono_duration_eq [OF assms(1)] interval_usecs_split
      T_def [symmetric] r_def [symmetric]
    using r by (auto simp: int64_of_below int64_of_above int64_min_def int64_max_def usecs_per_day_def)
qed

theorem interval_gap_wraps_witness:
  "let iv = \<lparr>iv_microseconds = 50000000000, iv_days = 106751992, iv_months = 0\<rparr> in
   int64_max < interval_usecs iv \<and> to_chrono_duration iv < 0"
proof -
  let ?iv = "\<lparr>iv_microseconds = 50000000000, iv_days = 106751992, iv_months = 0\<rparr>"
  have "interval_wf ?iv" "interval_gap ?iv" "\<not> interval_usecs ?iv < int64_min" by code_simp+
  with interval_gap_wraps [of ?iv] show ?thesis by (simp add: Let_def)
qed

text \<open>Encoding a duration and decoding it again is the identity on every \<open>int64\<close>.\<close>

lemma from_chrono_duration_wf:
  assumes "in_int64 u"
  shows "interval_wf (from_chrono_duration u)" "\<not> interval_gap (from_chrono_duration u)"
    "interval_usecs (from_chrono_duration u) = u"
proof -
  let ?d = "cdiv u usecs_per_day" and ?r = "crem u usecs_per_day"
  have d: "\<bar>?d\<bar> \<le> 106751991" and r: "\<bar>?r\<bar> < usecs_per_day"
    using day_bounds [OF assms] day_split(2) [OF usecs_per_day_pos] by auto
  then have [simp]: "int32_of ?d = ?d" by simp
  have "cdiv ?r usecs_per_day = 0" using r by (simp add: cdiv_def)
  then have "interval_days (from_chrono_duration u) = ?d"
    by (simp add: interval_days_def from_chrono_duration_def)
  with d show "\<not> interval_gap (from_chrono_duration u)" by (auto simp: interval_gap_def)
  show "interval_wf (from_chrono_duration u)"
    using r by (simp add: interval_wf_def from_chrono_duration_def in_int64_def int64_min_def
        int64_max_def) (auto simp: usecs_per_day_def abs_less_iff)
  show "interval_usecs (from_chrono_duration u) = u"
    by (simp add: interval_usecs_def from_chrono_duration_def crem_def)
qed

lemma chrono_duration_roundtrip:
  assumes "in_int64 u"
  shows "to_chrono_duration (from_chrono_duration u) = u"
  using from_chrono_duration_wf [OF assms] to_chrono_clamps assms
  by (simp add: clamp64_def in_int64_def)

section \<open>Wire format\<close>

lemma sint_word64: "in_int64 x \<Longrightarrow> sint (word_of_int x :: 64 word) = x"
  by (simp add: sint_uint uint_word_of_int signed_take_bit_eq_take_bit_shift take_bit_eq_mod
      in_int64_def int64_min_def int64_max_def mod_simps)

lemma sint_word32: "int32_of x = x \<Longrightarrow> sint (word_of_int x :: 32 word) = x"
  by (simp add: int32_of_sint)

lemma length_write_interval [codec_simps]: "length (write_interval u) = 16"
  by (simp add: write_interval_def Let_def length_write_int)

lemma length_write_time_point [codec_simps]: "length (write_time_point t) = 8"
  by (simp add: write_time_point_def length_write_int)

interpretation interval_codec: wire_codec write_interval read_interval in_int64
proof unfold_locales
  fix u rest
  assume u: "in_int64 u"
  let ?iv = "from_chrono_duration u"
  have "interval_wf ?iv" by (rule from_chrono_duration_wf [OF u])
  then have sint: "sint (word_of_int (iv_microseconds ?iv) :: 64 word) = iv_microseconds ?iv"
    "sint (word_of_int (iv_days ?iv) :: 32 word) = iv_days ?iv"
    "sint (word_of_int (iv_months ?iv) :: 32 word) = iv_months ?iv"
    by (simp_all add: interval_wf_def sint_word64 sint_word32)
  moreover have "to_chrono_duration
      \<lparr>iv_microseconds = iv_microseconds ?iv, iv_days = iv_days ?iv, iv_months = iv_months ?iv\<rparr> = u"
    using chrono_duration_roundtrip [OF u] by (cases ?iv) simp
  ultimately show "read_interval (mk_istream (write_interval u @ rest)) = Inr (u, mk_istream rest)"
    by (simp add: read_interval_def write_interval_def Let_def istream_read_int_write checked_def)
qed

text \<open>A time point is representable on the wire when it is a whole number of
  microseconds and neither its distance to the epoch nor the way back overflows.\<close>

definition time_point_exact :: "int \<Rightarrow> bool" where
  "time_point_exact t \<longleftrightarrow> in_int64 t \<and> in_int64 (t - epoch) \<and> ns_per_us dvd t"

lemma time_point_of_to_wire:
  assumes "time_point_exact t"
  shows "time_point_of_wire (time_point_to_wire t) = t" "in_int64 (time_point_to_wire t)"
proof -
  define k where "k = (t - epoch) div 1000"
  have "1000 dvd t - epoch"
    using assms by (auto simp: time_point_exact_def ns_per_us_def epoch_def intro!: dvd_diff)
  then have k: "t - epoch = 1000 * k" by (simp add: k_def)
  have range: "in_int64 t" "in_int64 (1000 * k)"
    using assms by (simp_all add: time_point_exact_def flip: k)
  have wire: "time_point_to_wire t = k"
    using range by (simp add: time_point_to_wire_def k int64_of_id ns_per_us_def cdiv_mult_self)
  with range show "in_int64 (time_point_to_wire t)" by (auto simp: in_int64_def int64_min_def int64_max_def)
  show "time_point_of_wire (time_point_to_wire t) = t"
    using range k by (simp add: wire time_point_of_wire_def ns_per_us_def mult.commute int64_of_id)
      (metis add.commute diff_add_cancel int64_of_id)
qed

interpretation time_point_codec: wire_codec write_time_point read_time_point time_point_exact
  by unfold_locales
    (simp add: write_time_point_def read_time_point_def time_point_of_to_wire sint_word64)

text \<open>A time point read back from the wire is the one sent, cut down to whole
  microseconds in the direction of the PostgreSQL epoch, whenever its distance to the
  epoch does not overflow; and a wire value survives the way through a time point
  whenever it fits the clock.\<close>

lemma time_point_roundtrip:
  assumes "in_int64 t" "in_int64 (t - epoch)" "in_int64 (v * ns_per_us)" "in_int64 (epoch + v * ns_per_us)"
  shows "time_point_of_wire (time_point_to_wire t) = t - crem (t - epoch) ns_per_us
    \<and> time_point_to_wire (time_point_of_wire v) = v"
proof
  let ?q = "cdiv (t - epoch) ns_per_us" and ?r = "crem (t - epoch) ns_per_us"
  note split = cdiv_crem_sign [of ns_per_us "t - epoch"]
  have sent: "epoch + ?q * ns_per_us = t - ?r"
    using split(1) by (simp add: ns_per_us_def)
  have "in_int64 (?q * ns_per_us)" "in_int64 (t - ?r)"
    using split assms(1,2)
    by (cases "0 \<le> t - epoch"; simp add: in_int64_def ns_per_us_def epoch_def int64_min_def int64_max_def)+
  then show "time_point_of_wire (time_point_to_wire t) = t - ?r"
    using assms(2) by (simp add: time_point_of_wire_def time_point_to_wire_def int64_of_id sent)
  show "time_point_to_wire (time_point_of_wire v) = v"
    using assms(3,4) cdiv_mult_self [of ns_per_us v]
    by (simp add: time_point_of_wire_def time_point_to_wire_def int64_of_id ns_per_us_def mult.commute)
qed

end
