(* ===== verification/Binary_IO.thy ===== *)
theory Binary_IO
  imports Type_Traits Chrono
begin

text \<open>
  Binary serialization: \<open>io/size_of.h\<close>, \<open>io/send.h\<close>, \<open>io/recv.h\<close>, \<open>io/array.h\<close>,
  \<open>io/composite.h\<close> and the specializations of \<open>pg/types\<close> and \<open>ext\<close>. A C++ value is a
  \<open>cval\<close>; the functions take the static type they are instantiated with as a \<open>ctype\<close>.
  \<open>recv\<close> deserializes into an existing object, so it takes the current value of that
  object and returns the new one. The implementation functors of a type (\<open>size_of_impl\<close>,
  \<open>send_impl\<close>, \<open>recv_impl\<close>) recurse over the type, and the functions around them
  (\<open>size_of\<close>, frames, \<open>detail::recv\<close>) take the implementation they dispatch to as an
  argument.
\<close>

section \<open>Values\<close>

datatype cval =
    VBool bool
  | VChar byte
  | VInt2 "16 word"
  | VInt4 "32 word"
  | VInt8 "64 word"
  | VFloat4 "32 word"
  | VFloat8 "64 word"
  | VOid oid_t
  | VBytes bytes
  | VUuid bytes
  | VInterval int
  | VTimestamp int
  | VNull
  | VSome cval
  | VArray "cval list"
  | VTuple "cval list"

definition is_null :: "cval \<Rightarrow> bool" where
  "is_null v \<longleftrightarrow> v = VNull"

fun unwrap :: "cval \<Rightarrow> cval" where
  "unwrap (VSome v) = v"
| "unwrap v = v"

fun bytes_of :: "cval \<Rightarrow> bytes" where
  "bytes_of (VBytes b) = b"
| "bytes_of (VUuid b) = b"
| "bytes_of _ = []"

fun items_of :: "cval \<Rightarrow> cval list" where
  "items_of (VArray vs) = vs"
| "items_of (VTuple vs) = vs"
| "items_of _ = []"

text \<open>The value a default-constructed object has.\<close>

fun default_value :: "ctype \<Rightarrow> cval" where
  "default_value TBool = VBool False"
| "default_value TChar = VChar 0"
| "default_value TInt2 = VInt2 0"
| "default_value TInt4 = VInt4 0"
| "default_value TInt8 = VInt8 0"
| "default_value TFloat4 = VFloat4 0"
| "default_value TFloat8 = VFloat8 0"
| "default_value TOid = VOid 0"
| "default_value TText = VBytes []"
| "default_value TBytea = VBytes []"
| "default_value TName = VBytes []"
| "default_value TJson = VBytes []"
| "default_value TJsonb = VBytes []"
| "default_value TLtree = VBytes []"
| "default_value TUuid = VUuid (replicate 16 0)"
| "default_value TInterval = VInterval 0"
| "default_value TTimestamp = VTimestamp 0"
| "default_value TNullptr = VNull"
| "default_value (TNullable t) = VNull"
| "default_value (TArray Dynamic_array t) = VArray []"
| "default_value (TArray (Static_array n) t) = VArray (replicate n (default_value t))"
| "default_value (TTuple ts) = VTuple (map default_value ts)"
| "default_value (TStruct name ts) = VTuple (map default_value ts)"

section \<open>Sizes\<close>

definition size_of_value :: "(cval \<Rightarrow> int) \<Rightarrow> cval \<Rightarrow> size_type" where
  "size_of_value impl v = (if is_null v then null_state_size else int32_of (impl (unwrap v)))"

definition data_frame_size :: "size_type \<Rightarrow> size_type" where
  "data_frame_size sz = int32_of (4 + max sz 0)"

definition frame_size :: "size_type \<Rightarrow> size_type" where
  "frame_size sz = int32_of (4 + data_frame_size sz)"

definition array_data_size :: "ctype \<Rightarrow> size_type list \<Rightarrow> size_type" where
  "array_data_size value_type sizes =
     (if \<not> is_dynamic_size value_type
      then (case sizes of [] \<Rightarrow> 0 | sz # _ \<Rightarrow> int32_of (data_frame_size sz * int (length sizes)))
      else foldl (\<lambda>r sz. int32_of (r + data_frame_size sz)) 0 sizes)"

definition composite_data_size :: "size_type list \<Rightarrow> size_type" where
  "composite_data_size sizes = foldl (\<lambda>r sz. int32_of (r + frame_size sz)) 0 sizes"

definition static_size :: "ctype \<Rightarrow> int" where
  "static_size t = (case traits_size t of Bytes n \<Rightarrow> n | Dynamic_size \<Rightarrow> 0)"

fun size_of_impl :: "ctype \<Rightarrow> cval \<Rightarrow> int" where
  "size_of_impl (TNullable t) v = size_of_impl t v"
| "size_of_impl (TArray c t) v =
     12 + 8 + array_data_size t (map (\<lambda>x. size_of_value (\<lambda>y. size_of_impl t y) x) (items_of v))"
| "size_of_impl (TTuple ts) v =
     4 + composite_data_size (map2 size_of_value (map (\<lambda>t. \<lambda>y. size_of_impl t y) ts) (items_of v))"
| "size_of_impl (TStruct name ts) v =
     4 + composite_data_size (map2 size_of_value (map (\<lambda>t. \<lambda>y. size_of_impl t y) ts) (items_of v))"
| "size_of_impl TJsonb v = int (length (bytes_of v)) + 1"
| "size_of_impl TLtree v = int (length (bytes_of v)) + 1"
| "size_of_impl t v = (if is_dynamic_size t then int (length (bytes_of v)) else static_size t)"

definition size_of :: "ctype \<Rightarrow> cval \<Rightarrow> size_type" where
  "size_of t v = size_of_value (size_of_impl t) v"

section \<open>Sending\<close>

definition send_value :: "(cval \<Rightarrow> bytes) \<Rightarrow> cval \<Rightarrow> bytes" where
  "send_value impl v = (if is_null v then [] else impl (unwrap v))"

definition send_data_frame :: "size_type \<Rightarrow> bytes \<Rightarrow> bytes" where
  "send_data_frame sz data = write_int (word_of_int sz :: 32 word) @ data"

definition send_frame :: "oid_t \<Rightarrow> size_type \<Rightarrow> bytes \<Rightarrow> bytes" where
  "send_frame oid sz data = write_int oid @ send_data_frame sz data"

fun send_scalar :: "cval \<Rightarrow> bytes" where
  "send_scalar (VBool b) = write_bool b"
| "send_scalar (VChar c) = write_char c"
| "send_scalar (VInt2 w) = write_int w"
| "send_scalar (VInt4 w) = write_int w"
| "send_scalar (VInt8 w) = write_int w"
| "send_scalar (VFloat4 w) = write_int w"
| "send_scalar (VFloat8 w) = write_int w"
| "send_scalar (VOid w) = write_int w"
| "send_scalar (VBytes b) = write_raw b"
| "send_scalar (VUuid b) = write_raw b"
| "send_scalar (VInterval u) = write_interval u"
| "send_scalar (VTimestamp t) = write_time_point t"
| "send_scalar _ = []"

definition send_array_header :: "oid_map \<Rightarrow> ctype \<Rightarrow> nat \<Rightarrow> bytes" where
  "send_array_header m value_type n =
     write_int (1 :: 32 word) @ write_int (0 :: 32 word) @ write_int (type_oid m value_type)
     @ write_int (of_nat n :: 32 word) @ write_int (0 :: 32 word)"

definition send_composite :: "oid_map \<Rightarrow> (ctype \<times> (cval \<Rightarrow> bytes)) list \<Rightarrow> cval list \<Rightarrow> bytes" where
  "send_composite m impls vs =
     write_int (of_nat (length impls) :: 32 word)
     @ concat (map2 (\<lambda>(t, impl) x. send_frame (type_oid m t) (size_of t x) (send_value impl x)) impls vs)"

fun send_impl :: "oid_map \<Rightarrow> ctype \<Rightarrow> cval \<Rightarrow> bytes" where
  "send_impl m (TNullable t) v = send_impl m t v"
| "send_impl m (TArray c t) v =
     send_array_header m t (length (items_of v))
     @ concat (map (\<lambda>x. send_data_frame (size_of t x) (send_value (\<lambda>y. send_impl m t y) x)) (items_of v))"
| "send_impl m (TTuple ts) v = send_composite m (map (\<lambda>t. (t, \<lambda>y. send_impl m t y)) ts) (items_of v)"
| "send_impl m (TStruct name ts) v = send_composite m (map (\<lambda>t. (t, \<lambda>y. send_impl m t y)) ts) (items_of v)"
| "send_impl m TJsonb v = write_char 1 @ write_raw (bytes_of v)"
| "send_impl m TLtree v = write_char 1 @ write_raw (bytes_of v)"
| "send_impl m t v = send_scalar v"

definition send :: "oid_map \<Rightarrow> ctype \<Rightarrow> cval \<Rightarrow> bytes" where
  "send m t v = send_value (send_impl m t) v"

section \<open>Receiving\<close>

type_synonym receiver = "size_type \<Rightarrow> cval \<Rightarrow> istream \<Rightarrow> (cval \<times> istream) result"

text \<open>\<open>detail::recv\<close>: the OID is None where the source passes \<open>null_oid\<close>.\<close>

definition detail_recv :: "oid_map \<Rightarrow> ctype \<Rightarrow> receiver \<Rightarrow> oid_t option \<Rightarrow> receiver" where
  "detail_recv m T impl oid sz cur s =
    (if is_nullable T \<and> sz = null_state_size then Inr (VNull, s)
     else if (case oid of Some w \<Rightarrow> \<not> accepts_oid m T w | None \<Rightarrow> False)
     then Inl (System_Error oid_type_mismatch)
     else if is_nullable T
     then bindR (impl sz (if is_null cur then default_value (unwrap_type T) else unwrap cur) s)
            (\<lambda>(v, s'). Inr (VSome v, s'))
     else if sz = null_state_size then Inl Invalid_Argument
     else impl sz cur s)"

definition recv_data_frame :: "oid_map \<Rightarrow> ctype \<Rightarrow> receiver \<Rightarrow> oid_t option \<Rightarrow> cval \<Rightarrow> istream \<Rightarrow> (cval \<times> istream) result" where
  "recv_data_frame m T impl oid cur s =
     bindR (read_int s) (\<lambda>(n :: 32 word, s'). detail_recv m T impl oid (sint n) cur s')"

definition recv_frame :: "oid_map \<Rightarrow> ctype \<Rightarrow> receiver \<Rightarrow> cval \<Rightarrow> istream \<Rightarrow> (cval \<times> istream) result" where
  "recv_frame m T impl cur s =
     bindR (read_int s) (\<lambda>(oid :: oid_t, s'). recv_data_frame m T impl (Some oid) cur s')"

fun recv_seq :: "(istream \<Rightarrow> (cval \<times> istream) result) list \<Rightarrow> istream \<Rightarrow> (cval list \<times> istream) result" where
  "recv_seq [] s = Inr ([], s)"
| "recv_seq (f # fs) s = bindR (f s) (\<lambda>(v, s1). bindR (recv_seq fs s1) (\<lambda>(vs, s2). Inr (v # vs, s2)))"

definition read_scalar :: "ctype \<Rightarrow> istream \<Rightarrow> (cval \<times> istream) result" where
  "read_scalar t s = (case t of
     TBool \<Rightarrow> map_sum id (apfst VBool) (read_bool s)
   | TChar \<Rightarrow> map_sum id (apfst VChar) (read_char s)
   | TInt2 \<Rightarrow> map_sum id (apfst VInt2) (read_int s)
   | TInt4 \<Rightarrow> map_sum id (apfst VInt4) (read_int s)
   | TInt8 \<Rightarrow> map_sum id (apfst VInt8) (read_int s)
   | TFloat4 \<Rightarrow> map_sum id (apfst VFloat4) (read_int s)
   | TFloat8 \<Rightarrow> map_sum id (apfst VFloat8) (read_int s)
   | TOid \<Rightarrow> map_sum id (apfst VOid) (read_int s)
   | _ \<Rightarrow> Inl Invalid_Argument)"

text \<open>The primary template of \<open>recv_impl\<close>: resize and read for a type of dynamic size,
  a size check and a read otherwise. A negative size other than the null state makes
  \<open>resize\<close> throw.\<close>

definition recv_default_impl :: "ctype \<Rightarrow> receiver" where
  "recv_default_impl t sz cur s =
    (if is_dynamic_size t
     then if sz < 0 then Inl Length_Error
          else map_sum id (apfst VBytes) (read_raw (nat sz) s)
     else if sz \<noteq> static_size t then Inl (System_Error bad_object_size)
     else read_scalar t s)"

text \<open>\<open>recv_impl\<close> of \<open>jsonb\<close> and of \<open>ltree\<close>: a version byte precedes the text.\<close>

definition recv_versioned_impl :: "receiver" where
  "recv_versioned_impl sz cur s =
    (if sz < 1 then Inl Range_Error
     else bindR (read_char s) (\<lambda>(version, s'). map_sum id (apfst VBytes) (read_raw (nat (sz - 1)) s')))"

definition fit_array_size :: "container \<Rightarrow> cval \<Rightarrow> size_type \<Rightarrow> cval list \<Rightarrow> cval list result" where
  "fit_array_size c dflt n xs = (case c of
     Dynamic_array \<Rightarrow>
       if n < 0 then Inl Length_Error
       else Inr (take (nat n) xs @ replicate (nat n - length xs) dflt)
   | Static_array k \<Rightarrow>
       if n \<noteq> int32_of (int k) then Inl (System_Error bad_array_size) else Inr xs)"

definition recv_array_impl :: "oid_map \<Rightarrow> container \<Rightarrow> ctype \<Rightarrow> receiver \<Rightarrow> receiver" where
  "recv_array_impl m c t impl sz cur s0 =
     bindR (checked (
         let (dimensions_count, s1) = istream_read_int s0;
             (dataoffset :: 32 word, s2) = istream_read_int s1;
             (elemtype, s3) = istream_read_int s2
         in ((sint (dimensions_count :: 32 word), elemtype), s3)))
     (\<lambda>((dimensions_count, elemtype), s3).
       if dimensions_count > 1 then Inl (System_Error bad_array_dimension)
       else if \<not> accepts_oid m (unwrap_type t) elemtype then Inl (System_Error oid_type_mismatch)
       else if dimensions_count < 1 then Inr (cur, s3)
       else bindR (checked (
           let (dim_size, s4) = istream_read_int s3;
               (dim_index :: 32 word, s5) = istream_read_int s4
           in (sint (dim_size :: 32 word), s5)))
       (\<lambda>(dim_size, s5).
         if dim_size = 0 then Inr (cur, s5)
         else bindR (fit_array_size c (default_value t) dim_size (items_of cur)) (\<lambda>items.
           bindR (recv_seq (map (\<lambda>x. recv_data_frame m t impl None x) items) s5) (\<lambda>(vs, s6).
             Inr (VArray vs, s6)))))"

definition read_and_verify_header :: "nat \<Rightarrow> istream \<Rightarrow> istream result" where
  "read_and_verify_header fields_number s =
     bindR (read_int s) (\<lambda>(count :: 32 word, s').
       if sint count \<noteq> int32_of (int fields_number) then Inl (System_Error bad_composite_size) else Inr s')"

definition recv_composite_impl :: "oid_map \<Rightarrow> (ctype \<times> receiver) list \<Rightarrow> receiver" where
  "recv_composite_impl m impls sz cur s =
     bindR (read_and_verify_header (length impls) s) (\<lambda>s1.
       bindR (recv_seq (map2 (\<lambda>(t, impl) x. recv_frame m t impl x) impls (items_of cur)) s1) (\<lambda>(vs, s2).
         Inr (VTuple vs, s2)))"

fun recv_impl :: "oid_map \<Rightarrow> ctype \<Rightarrow> receiver" where
  "recv_impl m (TNullable t) sz cur s = recv_impl m t sz cur s"
| "recv_impl m (TArray c t) sz cur s =
     recv_array_impl m c t (\<lambda>n x s'. recv_impl m t n x s') sz cur s"
| "recv_impl m (TTuple ts) sz cur s =
     recv_composite_impl m (map (\<lambda>t. (t, \<lambda>n x s'. recv_impl m t n x s')) ts) sz cur s"
| "recv_impl m (TStruct name ts) sz cur s =
     recv_composite_impl m (map (\<lambda>t. (t, \<lambda>n x s'. recv_impl m t n x s')) ts) sz cur s"
| "recv_impl m TJsonb sz cur s = recv_versioned_impl sz cur s"
| "recv_impl m TLtree sz cur s = recv_versioned_impl sz cur s"
| "recv_impl m TUuid sz cur s = map_sum id (apfst VUuid) (read_raw 16 s)"
| "recv_impl m TInterval sz cur s = map_sum id (apfst VInterval) (read_interval s)"
| "recv_impl m TTimestamp sz cur s = map_sum id (apfst VTimestamp) (read_time_point s)"
| "recv_impl m t sz cur s = recv_default_impl t sz cur s"

definition recv :: "oid_map \<Rightarrow> ctype \<Rightarrow> oid_t \<Rightarrow> receiver" where
  "recv m T oid sz cur s = detail_recv m T (recv_impl m T) (Some oid) sz cur s"

end
