(* ===== verification/Binary_Sizes.thy ===== *)
theory Binary_Sizes
  imports Binary_IO
begin

text \<open>
  Well-formed types and values of the serialization component, and the agreement of
  \<open>size_of\<close> with the bytes \<open>send\<close> emits.
\<close>

section \<open>Typing\<close>

fun scalar_types :: "cval \<Rightarrow> ctype list" where
  "scalar_types (VBool b) = [TBool]"
| "scalar_types (VChar c) = [TChar]"
| "scalar_types (VInt2 w) = [TInt2]"
| "scalar_types (VInt4 w) = [TInt4]"
| "scalar_types (VInt8 w) = [TInt8]"
| "scalar_types (VFloat4 w) = [TFloat4]"
| "scalar_types (VFloat8 w) = [TFloat8]"
| "scalar_types (VOid w) = [TOid]"
| "scalar_types (VBytes b) = [TText, TBytea, TName, TJson, TJsonb, TLtree]"
| "scalar_types (VUuid b) = (if length b = 16 then [TUuid] else [])"
| "scalar_types (VInterval u) = (if in_int64 u then [TInterval] else [])"
| "scalar_types (VTimestamp t) = (if in_int64 t then [TTimestamp] else [])"
| "scalar_types VNull = [TNullptr]"
| "scalar_types _ = []"

fun fits_container :: "container \<Rightarrow> 'a list \<Rightarrow> bool" where
  "fits_container Dynamic_array xs = True"
| "fits_container (Static_array k) xs = (length xs = k)"

fun has_type :: "ctype \<Rightarrow> cval \<Rightarrow> bool" where
  "has_type (TNullable t) v = (case v of VNull \<Rightarrow> True | VSome u \<Rightarrow> has_type t u | _ \<Rightarrow> False)"
| "has_type (TArray c t) v = (case v of VArray vs \<Rightarrow> fits_container c vs \<and> list_all (\<lambda>x. has_type t x) vs | _ \<Rightarrow> False)"
| "has_type (TTuple ts) v = (case v of VTuple vs \<Rightarrow> list_all2 (\<lambda>p x. p x) (map (\<lambda>t. \<lambda>x. has_type t x) ts) vs | _ \<Rightarrow> False)"
| "has_type (TStruct name ts) v = (case v of VTuple vs \<Rightarrow> list_all2 (\<lambda>p x. p x) (map (\<lambda>t. \<lambda>x. has_type t x) ts) vs | _ \<Rightarrow> False)"
| "has_type t v = (t \<in> set (scalar_types v))"

text \<open>Types the library can be instantiated with: a nullable wraps a type that is not
  nullable itself, and an array has elements whose array type is defined.\<close>

fun wf_type :: "ctype \<Rightarrow> bool" where
  "wf_type (TNullable t) = (\<not> is_nullable t \<and> wf_type t)"
| "wf_type (TArray c t) = (\<not> is_array (unwrap_type t) \<and> unwrap_type t \<notin> {TInterval, TNullptr} \<and> wf_type t)"
| "wf_type (TTuple ts) = list_all wf_type ts"
| "wf_type (TStruct name ts) = list_all wf_type ts"
| "wf_type t = True"

text \<open>The arrays on which \<open>size_of_array_impl\<close> may extrapolate from the first element:
  those with elements of dynamic size, and those with all or none of the elements null.\<close>

fun size_consistent :: "ctype \<Rightarrow> cval \<Rightarrow> bool" where
  "size_consistent (TNullable t) v = size_consistent t v"
| "size_consistent (TArray c t) v =
     ((is_dynamic_size t \<or> list_all is_null (items_of v) \<or> list_all (Not \<circ> is_null) (items_of v))
      \<and> list_all (\<lambda>x. size_consistent t (unwrap x)) (items_of v))"
| "size_consistent (TTuple ts) v =
     list_all2 (\<lambda>p x. p (unwrap x)) (map (\<lambda>t. \<lambda>x. size_consistent t x) ts) (items_of v)"
| "size_consistent (TStruct name ts) v =
     list_all2 (\<lambda>p x. p (unwrap x)) (map (\<lambda>t. \<lambda>x. size_consistent t x) ts) (items_of v)"
| "size_consistent t v = True"

section \<open>Typing lemmas\<close>

lemma has_type_TTuple:
  "has_type (TTuple ts) v \<longleftrightarrow> (\<exists>vs. v = VTuple vs \<and> list_all2 has_type ts vs)"
  "has_type (TStruct name ts) v \<longleftrightarrow> (\<exists>vs. v = VTuple vs \<and> list_all2 has_type ts vs)"
  by (cases v; simp add: list_all2_map1)+

lemma has_type_TArray:
  "has_type (TArray c t) v \<longleftrightarrow> (\<exists>vs. v = VArray vs \<and> fits_container c vs \<and> list_all (has_type t) vs)"
  by (cases v) simp_all

lemma has_type_TNullable:
  "has_type (TNullable t) v \<longleftrightarrow> v = VNull \<or> (\<exists>u. v = VSome u \<and> has_type t u)"
  by (cases v) simp_all

lemmas has_type_structured [simp] = has_type_TTuple has_type_TArray has_type_TNullable

declare has_type.simps(1-4) [simp del]

lemma has_type_not_nullable:
  assumes "has_type t v" "\<not> is_nullable t"
  shows "v \<noteq> VNull" "unwrap v = v" "unwrap_type t = t"
  using assms by (cases t; cases v; simp)+

lemma has_type_unwrap:
  assumes "has_type t v" "v \<noteq> VNull" "wf_type t"
  shows "has_type (unwrap_type t) (unwrap v)"
proof (cases "is_nullable t")
  case True
  then show ?thesis using assms by (cases t; cases v) auto
next
  case False
  then show ?thesis using assms has_type_not_nullable by metis
qed

lemma has_type_unwrap_not_null:
  assumes "has_type t v" "wf_type t" "v \<noteq> VNull"
  shows "unwrap v \<noteq> VNull"
proof (cases "is_nullable t")
  case True
  then show ?thesis using assms has_type_not_nullable(1) by (cases t; cases v) auto
next
  case False
  then show ?thesis using assms has_type_not_nullable by metis
qed

section \<open>Sizes of frames\<close>

definition sent_length :: "oid_map \<Rightarrow> ctype \<Rightarrow> cval \<Rightarrow> nat" where
  "sent_length m t v = length (send m t v)"

text \<open>\<open>size_of_impl\<close> is right for the values of a type.\<close>

definition size_exact :: "oid_map \<Rightarrow> ctype \<Rightarrow> bool" where
  "size_exact m t \<longleftrightarrow> (\<forall>v. has_type (unwrap_type t) v \<longrightarrow> v \<noteq> VNull \<longrightarrow> size_consistent t v \<longrightarrow>
     int (length (send_impl m t v)) < 2 ^ 31 \<longrightarrow> size_of_impl t v = int (length (send_impl m t v)))"

lemma length_send_data_frame [codec_simps]: "length (send_data_frame sz d) = 4 + length d"
  by (simp add: send_data_frame_def length_write_int)

lemma length_send_frame [codec_simps]: "length (send_frame oid sz d) = 8 + length d"
  by (simp add: send_frame_def length_send_data_frame length_write_int)

lemma length_send_array_header [codec_simps]: "length (send_array_header m t n) = 20"
  by (simp add: send_array_header_def length_write_int)

lemma size_of_item:
  assumes "size_exact m t" "has_type t x" "wf_type t" "size_consistent t (unwrap x)"
    "int (sent_length m t x) < 2 ^ 31"
  shows "size_of t x = (if is_null x then - 1 else int (sent_length m t x))"
proof (cases "is_null x")
  case True
  then show ?thesis by (simp add: size_of_def size_of_value_def null_state_size_def)
next
  case False
  then have "has_type (unwrap_type t) (unwrap x)"
    using assms(2,3) by (simp add: is_null_def has_type_unwrap)
  moreover have "sent_length m t x = length (send_impl m t (unwrap x))"
    using False by (simp add: sent_length_def send_def send_value_def)
  ultimately have "size_of_impl t (unwrap x) = int (sent_length m t x)"
    using assms(1,4,5) has_type_unwrap_not_null [OF assms(2,3)] False
    by (simp add: size_exact_def is_null_def)
  with False assms(5) show ?thesis by (simp add: size_of_def size_of_value_def)
qed

lemma item_frames:
  assumes "size_exact m t" "has_type t x" "wf_type t" "size_consistent t (unwrap x)"
  shows "int (sent_length m t x) + 4 < 2 ^ 31 \<Longrightarrow> data_frame_size (size_of t x) = int (sent_length m t x) + 4"
    "int (sent_length m t x) + 8 < 2 ^ 31 \<Longrightarrow> frame_size (size_of t x) = int (sent_length m t x) + 8"
  using size_of_item [OF assms]
  by (cases "is_null x"; simp add: data_frame_size_def frame_size_def sent_length_def send_def send_value_def)+

lemma foldl_int32_sum:
  assumes "list_all (\<lambda>x. 0 \<le> x) xs" "0 \<le> a" "a + sum_list xs < 2 ^ 31"
  shows "foldl (\<lambda>r x. int32_of (r + x)) a xs = a + sum_list xs"
  using assms
proof (induction xs arbitrary: a)
  case (Cons x xs)
  have "0 \<le> sum_list xs" using Cons.prems(1) by (induction xs) auto
  then have "int32_of (a + x) = a + x" using Cons.prems by simp
  with Cons.IH [of "a + x"] Cons.prems show ?case by simp
qed simp

lemma int_sum_list: "int (sum_list (map f xs)) = sum_list (map (\<lambda>x. int (f x)) xs)"
  by (induction xs) simp_all

lemma traits_size_TNullable: "unwrap_type t = t \<Longrightarrow> traits_size (TNullable t) = traits_size t"
  by (simp add: traits_size_def)

lemma not_nullable_unwrap: "\<not> is_nullable t \<Longrightarrow> unwrap_type t = t"
  by (cases t) simp_all

lemma size_of_impl_static:
  assumes "\<not> is_dynamic_size t" "wf_type t"
  shows "size_of_impl t v = static_size t"
proof -
  have base: "size_of_impl t v = static_size t" if "\<not> is_dynamic_size t" "unwrap_type t = t" for t
    using that by (cases t) (simp_all add: is_dynamic_size_def static_size_def)
  show ?thesis
  proof (cases "is_nullable t")
    case False
    then show ?thesis using base assms(1) by (simp add: not_nullable_unwrap)
  next
    case True
    then show ?thesis using base assms
      by (cases t) (auto simp: is_dynamic_size_def static_size_def not_nullable_unwrap traits_size_TNullable)
  qed
qed

section \<open>The size of every value\<close>

lemma length_send_scalar:
  assumes "t \<in> set (scalar_types v)" "t \<notin> {TJsonb, TLtree, TNullptr}"
  shows "int (length (send_scalar v)) = (if is_dynamic_size t then int (length (bytes_of v)) else static_size t)"
  using assms
  by (cases v) (auto simp: is_dynamic_size_def static_size_def write_bool_def write_char_def
      write_raw_def length_write_int length_write_interval length_write_time_point split: if_splits)

lemma size_exact_scalar:
  assumes "\<And>v. has_type t v \<longleftrightarrow> t \<in> set (scalar_types v)" "unwrap_type t = t"
    and "t \<notin> {TJsonb, TLtree, TNullptr}"
    and "\<And>v. size_of_impl t v = (if is_dynamic_size t then int (length (bytes_of v)) else static_size t)"
    and "\<And>v. send_impl m t v = send_scalar v"
  shows "size_exact m t"
  using assms length_send_scalar by (simp add: size_exact_def)

lemma size_exact_versioned: "size_exact m TJsonb" "size_exact m TLtree"
  by (auto simp: size_exact_def write_char_def write_raw_def)

lemma size_exact_nullptr: "size_exact m TNullptr"
  unfolding size_exact_def
proof (intro allI impI)
  fix v assume "has_type (unwrap_type TNullptr) v" "v \<noteq> VNull"
  then show "size_of_impl TNullptr v = int (length (send_impl m TNullptr v))"
    by (cases v) (auto split: if_splits)
qed

lemma sent_length_static:
  assumes "size_exact m t" "wf_type t" "\<not> is_dynamic_size t" "has_type t y" "\<not> is_null y"
    "size_consistent t (unwrap y)" "int (sent_length m t y) < 2 ^ 31"
  shows "int (sent_length m t y) = static_size t"
proof -
  have "int32_of (static_size t) = int (sent_length m t y)"
    using size_of_item [OF assms(1,4,2,6,7)] assms(5) size_of_impl_static [OF assms(3,2)]
    by (simp add: size_of_def size_of_value_def)
  moreover have "size_of_impl t (unwrap y) = int (length (send_impl m t (unwrap y)))"
    using assms has_type_unwrap has_type_unwrap_not_null
    by (simp add: size_exact_def is_null_def sent_length_def send_def send_value_def)
  ultimately show ?thesis
    using assms(5) size_of_impl_static [OF assms(3,2)] by (simp add: sent_length_def send_def send_value_def)
qed

lemma size_exact_array:
  assumes "size_exact m t" "wf_type t"
  shows "size_exact m (TArray c t)"
  unfolding size_exact_def
proof (intro allI impI)
  fix v
  assume ty: "has_type (unwrap_type (TArray c t)) v" and cons: "size_consistent (TArray c t) v"
    and bound: "int (length (send_impl m (TArray c t) v)) < 2 ^ 31"
  let ?L = "\<lambda>x. int (sent_length m t x) + 4"
  obtain vs where v: "v = VArray vs" "list_all (has_type t) vs"
    using ty by (auto simp: has_type_TArray)
  have len: "int (length (send_impl m (TArray c t) v)) = 20 + sum_list (map ?L vs)"
    by (simp add: v length_send_array_header length_concat comp_def length_send_data_frame
        sent_length_def send_def int_sum_list add.commute)
  have "sum_list (map ?L vs) < 2 ^ 31" using bound len by simp
  moreover have "?L x \<le> sum_list (map ?L vs)" if "x \<in> set vs" for x
    using that by (intro member_le_sum_list) auto
  ultimately have bounds: "?L x < 2 ^ 31" if "x \<in> set vs" for x
    using that by fastforce
  then have frames: "data_frame_size (size_of t x) = ?L x" if "x \<in> set vs" for x
    using that assms v(2) cons
    by (intro item_frames(1)) (force simp: v list_all_iff)+
  have "array_data_size t (map (size_of t) vs) = sum_list (map ?L vs)"
  proof (cases "is_dynamic_size t")
    case True
    have "array_data_size t (map (size_of t) vs) = foldl (\<lambda>r x. int32_of (r + x)) 0 (map ?L vs)"
      using True frames by (simp add: array_data_size_def foldl_map cong: foldl_cong)
    also have "\<dots> = sum_list (map ?L vs)"
      using foldl_int32_sum [of "map ?L vs" 0] \<open>sum_list (map ?L vs) < 2 ^ 31\<close> by (simp add: list_all_iff)
    finally show ?thesis .
  next
    case False
    show ?thesis
    proof (cases vs)
      case (Cons x xs)
      have item: "int (sent_length m t y) = (if is_null y then 0 else static_size t)" if "y \<in> set vs" for y
        using that assms v(2) cons False bounds [OF that] sent_length_static [of m t y]
        by (auto simp: v list_all_iff sent_length_def send_def send_value_def)
      have same: "?L y = ?L x" if "y \<in> set vs" for y
        using item [OF that] item [of x] Cons that cons False by (auto simp: v list_all_iff)
      have sum: "sum_list (map ?L vs) = ?L x * int (length vs)"
        using same by (simp add: sum_list_triv map_idI cong: map_cong)
      have "0 \<le> ?L x * int (length vs)" by simp
      then have "int32_of (?L x * int (length vs)) = ?L x * int (length vs)"
        using \<open>sum_list (map ?L vs) < 2 ^ 31\<close> unfolding sum by (intro int32_of_id) linarith+
      then show ?thesis using False Cons frames [of x] unfolding sum
        by (simp add: array_data_size_def)
    qed (simp add: array_data_size_def False)
  qed
  then show "size_of_impl (TArray c t) v = int (length (send_impl m (TArray c t) v))"
    using len by (simp add: v size_of_def [abs_def])
qed

text \<open>A composite, given as the list of its member types.\<close>

definition composite_size_exact :: "oid_map \<Rightarrow> ctype list \<Rightarrow> bool" where
  "composite_size_exact m ts \<longleftrightarrow> (\<forall>vs. list_all2 has_type ts vs \<longrightarrow>
     list_all2 (\<lambda>t x. size_consistent t (unwrap x)) ts vs \<longrightarrow>
     int (length (send_composite m (map (\<lambda>t. (t, send_impl m t)) ts) vs)) < 2 ^ 31 \<longrightarrow>
     4 + composite_data_size (map2 size_of ts vs)
       = int (length (send_composite m (map (\<lambda>t. (t, send_impl m t)) ts) vs)))"

lemma map2_map1: "map2 f (map g xs) ys = map2 (\<lambda>x y. f (g x) y) xs ys"
  by (simp add: zip_map1 case_prod_beta comp_def)

lemma length_send_composite:
  "length (send_composite m (map (\<lambda>t. (t, send_impl m t)) ts) vs) =
     4 + sum_list (map2 (\<lambda>t x. sent_length m t x + 8) ts vs)"
  by (simp add: send_composite_def length_concat comp_def case_prod_unfold zip_map1
      length_send_frame sent_length_def send_def add.commute)

lemma composite_size:
  assumes "\<And>t. t \<in> set ts \<Longrightarrow> size_exact m t" "list_all wf_type ts"
  shows "composite_size_exact m ts"
  unfolding composite_size_exact_def
proof (intro allI impI)
  fix vs
  assume ty: "list_all2 has_type ts vs"
    and cons: "list_all2 (\<lambda>t x. size_consistent t (unwrap x)) ts vs"
    and bound: "int (length (send_composite m (map (\<lambda>t. (t, send_impl m t)) ts) vs)) < 2 ^ 31"
  let ?L = "\<lambda>(t, x). int (sent_length m t x) + 8"
  have len: "int (length (send_composite m (map (\<lambda>t. (t, send_impl m t)) ts) vs))
      = 4 + sum_list (map ?L (zip ts vs))"
    by (simp add: length_send_composite int_sum_list case_prod_unfold)
  then have total: "sum_list (map ?L (zip ts vs)) < 2 ^ 31" using bound by simp
  have "?L p \<le> sum_list (map ?L (zip ts vs))" if "p \<in> set (zip ts vs)" for p
    using that by (intro member_le_sum_list) (auto simp: case_prod_beta)
  with total have bounds: "?L p < 2 ^ 31" if "p \<in> set (zip ts vs)" for p
    using that by fastforce
  have frames: "frame_size (size_of t x) = int (sent_length m t x) + 8" if "(t, x) \<in> set (zip ts vs)" for t x
  proof (rule item_frames(2) [where m = m])
    show "size_exact m t" "wf_type t"
      using that assms by (auto simp: list_all_iff dest: set_zip_leftD)
    show "has_type t x" "size_consistent t (unwrap x)"
      using that ty cons by (auto simp: list_all2_iff)
    show "int (sent_length m t x) + 8 < 2 ^ 31" using bounds [OF that] by simp
  qed
  have "composite_data_size (map2 size_of ts vs) = foldl (\<lambda>r x. int32_of (r + x)) 0 (map ?L (zip ts vs))"
    using frames by (simp add: composite_data_size_def foldl_map case_prod_beta cong: foldl_cong)
  also have "\<dots> = sum_list (map ?L (zip ts vs))"
    using foldl_int32_sum [of "map ?L (zip ts vs)" 0] total by (simp add: list_all_iff case_prod_beta)
  finally show "4 + composite_data_size (map2 size_of ts vs)
      = int (length (send_composite m (map (\<lambda>t. (t, send_impl m t)) ts) vs))"
    using len by simp
qed

lemma size_exact_composite:
  assumes "composite_size_exact m ts"
  shows "size_exact m (TTuple ts)" "size_exact m (TStruct name ts)"
  using assms by (auto simp: size_exact_def composite_size_exact_def map2_map1 list_all2_map1
      size_of_def [abs_def])

lemma size_exact_all: "wf_type t \<Longrightarrow> size_exact m t"
proof (induction t)
  case (TNullable t)
  then show ?case by (auto simp: size_exact_def not_nullable_unwrap)
next
  case (TArray c t)
  then show ?case by (simp add: size_exact_array)
next
  case (TTuple ts)
  then show ?case by (intro size_exact_composite composite_size) (auto simp: list_all_iff)
next
  case (TStruct name ts)
  then show ?case by (intro size_exact_composite composite_size) (auto simp: list_all_iff)
qed (auto intro: size_exact_versioned size_exact_nullptr size_exact_scalar)

lemma size_of_eq_sent_length:
  assumes "wf_type t" "has_type t v" "size_consistent t (unwrap v)" "int (length (send m t v)) < 2 ^ 31"
  shows "size_of t v = (if is_null v then - 1 else int (length (send m t v)))"
  using size_of_item [OF size_exact_all [OF assms(1)] assms(2,1,3)] assms(4) by (simp add: sent_length_def)

text \<open>C11: for every well-typed value whose arrays of fixed-size elements do not mix
  null and non-null elements, \<open>size_of\<close> is the number of bytes \<open>send\<close> emits, and the
  null-state size for a null value, as long as that number fits \<open>size_type\<close>.\<close>

theorem size_of_matches_send:
  assumes "wf_type t" "has_type t v" "size_consistent t (unwrap v)" "int (length (send m t v)) < 2 ^ 31"
  shows "size_of t v = (if is_null v then null_state_size else int (length (send m t v)))"
  using size_of_eq_sent_length [OF assms] by (simp add: null_state_size_def)

theorem size_of_matches_send_witness:
  "size_of (TTuple [TNullable TInt4, TText]) (VTuple [VNull, VBytes [104, 105]]) = 22"
proof -
  let ?t = "TTuple [TNullable TInt4, TText]" and ?v = "VTuple [VNull, VBytes [104, 105]]"
  have "wf_type ?t" "has_type ?t ?v" "size_consistent ?t (unwrap ?v)" by simp_all
  moreover have "length (send [] ?t ?v) = 22"
    by (simp add: send_def send_value_def is_null_def send_composite_def codec_simps write_raw_def)
  ultimately show ?thesis using size_of_matches_send [of ?t ?v "[]"] by (simp add: is_null_def)
qed

text \<open>C29: an array of optional integers that mixes null and non-null elements is not
  measured correctly: the size is the first element's frame times the length, so an
  array with a null first element is declared too short and one with a non-null first
  element followed by nulls too long.\<close>

theorem mixed_null_array_size:
  assumes "length ws < 2 ^ 20" "k < 2 ^ 20"
  shows "let t = TArray Dynamic_array (TNullable TInt4);
             v = VArray (VNull # map (VSome \<circ> VInt4) ws);
             u = VArray (VSome (VInt4 w) # replicate k VNull)
         in size_of t v = int (length (send m t v)) - 4 * int (length ws)
          \<and> size_of t u = int (length (send m t u)) + 4 * int k"
proof -
  have static: "\<not> is_dynamic_size (TNullable TInt4)"
    by (simp add: is_dynamic_size_def traits_size_TNullable)
  have static4: "\<not> is_dynamic_size TInt4" "static_size TInt4 = 4"
    by (simp_all add: is_dynamic_size_def static_size_def)
  show ?thesis
    using assms static static4
    by (simp add: Let_def size_of_def size_of_value_def is_null_def array_data_size_def
        data_frame_size_def null_state_size_def send_def send_value_def length_concat comp_def
        codec_simps sum_list_triv sum_list_replicate map_replicate_const)
qed

theorem mixed_null_array_size_witness:
  "size_of (TArray Dynamic_array (TNullable TInt4)) (VArray [VNull, VSome (VInt4 7)]) = 28
   \<and> length (send [] (TArray Dynamic_array (TNullable TInt4)) (VArray [VNull, VSome (VInt4 7)])) = 32"
proof -
  have "length (send [] (TArray Dynamic_array (TNullable TInt4)) (VArray [VNull, VSome (VInt4 7)])) = 32"
    by (simp add: send_def send_value_def is_null_def codec_simps)
  then show ?thesis
    using mixed_null_array_size [of "[7]" 0 0 "[]"] by (simp add: Let_def)
qed

end
