(* ===== verification/Binary_Roundtrip.thy ===== *)
theory Binary_Roundtrip
  imports Binary_Sizes
begin

text \<open>
  Receiving what was sent: the round trip of \<open>send\<close> and \<open>recv\<close>.
\<close>

section \<open>Round trip\<close>

text \<open>The time points of a value are whole microseconds in the range of the clock.\<close>

fun time_exact :: "cval \<Rightarrow> bool" where
  "time_exact (VTimestamp t) = time_point_exact t"
| "time_exact (VSome v) = time_exact v"
| "time_exact (VArray vs) = list_all time_exact vs"
| "time_exact (VTuple vs) = list_all time_exact vs"
| "time_exact v = True"

text \<open>The receiver of a type undoes its sender, from a default-constructed object.\<close>

definition recv_exact :: "oid_map \<Rightarrow> ctype \<Rightarrow> bool" where
  "recv_exact m t \<longleftrightarrow> (\<forall>v rest. has_type (unwrap_type t) v \<longrightarrow> v \<noteq> VNull \<longrightarrow> size_consistent t v \<longrightarrow>
     time_exact v \<longrightarrow> int (length (send_impl m t v)) < 2 ^ 31 \<longrightarrow>
     recv_impl m t (size_of_impl t v) (default_value (unwrap_type t)) (mk_istream (send_impl m t v @ rest))
       = Inr (v, mk_istream rest))"

text \<open>What a field or an element has to satisfy to be read back from its frame.\<close>

definition item_ok :: "oid_map \<Rightarrow> ctype \<Rightarrow> cval \<Rightarrow> bool" where
  "item_ok m t x \<longleftrightarrow> has_type t x \<and> wf_type t \<and> size_consistent t (unwrap x) \<and> time_exact x
     \<and> int (sent_length m t x) < 2 ^ 31"

lemma time_exact_unwrap: "time_exact x \<Longrightarrow> time_exact (unwrap x)"
  by (cases x) simp_all

lemma detail_recv_send:
  assumes "recv_exact m t" "item_ok m t x" "oid = None \<or> oid = Some (type_oid m t)"
  shows "detail_recv m t (recv_impl m t) oid (size_of t x) (default_value t)
      (mk_istream (send m t x @ rest)) = Inr (x, mk_istream rest)"
proof (cases "is_null x")
  case True
  then have "is_nullable t"
    using assms(2) has_type_not_nullable(1) by (auto simp: item_ok_def is_null_def)
  with True show ?thesis
    by (simp add: detail_recv_def size_of_def size_of_value_def send_def send_value_def is_null_def)
next
  case False
  have ok: "has_type t x" "wf_type t" "size_consistent t (unwrap x)" "time_exact (unwrap x)"
    "int (sent_length m t x) < 2 ^ 31" "x \<noteq> VNull"
    using assms(2) False by (auto simp: item_ok_def is_null_def time_exact_unwrap)
  have sent: "send m t x = send_impl m t (unwrap x)" "sent_length m t x = length (send_impl m t (unwrap x))"
    using False by (simp_all add: send_def send_value_def sent_length_def)
  have size: "size_of t x = size_of_impl t (unwrap x)" "0 \<le> size_of_impl t (unwrap x)"
    using size_exact_all [OF ok(2)] ok sent has_type_unwrap has_type_unwrap_not_null False
    by (simp_all add: size_of_def size_of_value_def size_exact_def)
  have "recv_impl m t (size_of t x) (default_value (unwrap_type t)) (mk_istream (send m t x @ rest))
      = Inr (unwrap x, mk_istream rest)"
    using assms(1) ok sent size has_type_unwrap has_type_unwrap_not_null by (simp add: recv_exact_def)
  moreover have "accepts_oid m t (type_oid m t)" by (simp add: accepts_oid_def)
  moreover have "x = VSome (unwrap x)" "is_null (default_value t)" if "is_nullable t"
    using that ok by (cases t; cases x; auto simp: is_null_def split: if_splits)+
  moreover have "unwrap x = x" "unwrap_type t = t" if "\<not> is_nullable t"
    using that ok has_type_not_nullable by auto
  ultimately show ?thesis
    using assms(3) size by (cases "is_nullable t") (auto simp: detail_recv_def null_state_size_def)
qed

lemma size_of_range: "- (2 ^ 31) \<le> size_of t x" "size_of t x < 2 ^ 31"
  using int32_of_range [of "size_of_impl t (unwrap x)"]
  by (auto simp: size_of_def size_of_value_def null_state_size_def)

lemma recv_data_frame_send:
  assumes "recv_exact m t" "item_ok m t x" "oid = None \<or> oid = Some (type_oid m t)"
  shows "recv_data_frame m t (recv_impl m t) oid (default_value t)
     (mk_istream (send_data_frame (size_of t x) (send m t x) @ rest)) = Inr (x, mk_istream rest)"
  using detail_recv_send [OF assms] size_of_range [of t x]
  by (simp add: recv_data_frame_def send_data_frame_def sint_word32)

lemma recv_frame_send:
  assumes "recv_exact m t" "item_ok m t x"
  shows "recv_frame m t (recv_impl m t) (default_value t)
     (mk_istream (send_frame (type_oid m t) (size_of t x) (send m t x) @ rest)) = Inr (x, mk_istream rest)"
  using recv_data_frame_send [OF assms, of "Some (type_oid m t)"]
  by (simp add: recv_frame_def send_frame_def)

lemma recv_seq_send:
  assumes "list_all2 (\<lambda>f (e, v). \<forall>rest. f (mk_istream (e @ rest)) = Inr (v, mk_istream rest)) fs evs"
  shows "recv_seq fs (mk_istream (concat (map fst evs) @ rest)) = Inr (map snd evs, mk_istream rest)"
  using assms by (induction fs evs rule: list_all2_induct) (auto split: prod.splits)

lemma has_type_scalar:
  "has_type TBool v \<longleftrightarrow> (\<exists>b. v = VBool b)"
  "has_type TChar v \<longleftrightarrow> (\<exists>c. v = VChar c)"
  "has_type TInt2 v \<longleftrightarrow> (\<exists>w. v = VInt2 w)"
  "has_type TInt4 v \<longleftrightarrow> (\<exists>w. v = VInt4 w)"
  "has_type TInt8 v \<longleftrightarrow> (\<exists>w. v = VInt8 w)"
  "has_type TFloat4 v \<longleftrightarrow> (\<exists>w. v = VFloat4 w)"
  "has_type TFloat8 v \<longleftrightarrow> (\<exists>w. v = VFloat8 w)"
  "has_type TOid v \<longleftrightarrow> (\<exists>w. v = VOid w)"
  "has_type TText v \<longleftrightarrow> (\<exists>b. v = VBytes b)"
  "has_type TBytea v \<longleftrightarrow> (\<exists>b. v = VBytes b)"
  "has_type TName v \<longleftrightarrow> (\<exists>b. v = VBytes b)"
  "has_type TJson v \<longleftrightarrow> (\<exists>b. v = VBytes b)"
  "has_type TJsonb v \<longleftrightarrow> (\<exists>b. v = VBytes b)"
  "has_type TLtree v \<longleftrightarrow> (\<exists>b. v = VBytes b)"
  "has_type TUuid v \<longleftrightarrow> (\<exists>b. v = VUuid b \<and> length b = 16)"
  "has_type TInterval v \<longleftrightarrow> (\<exists>u. v = VInterval u \<and> in_int64 u)"
  "has_type TTimestamp v \<longleftrightarrow> (\<exists>t. v = VTimestamp t \<and> in_int64 t)"
  "has_type TNullptr v \<longleftrightarrow> v = VNull"
  by (cases v; simp)+

lemmas recv_scalar_simps = has_type_scalar recv_default_impl_def is_dynamic_size_def static_size_def
  read_scalar_def recv_versioned_impl_def write_raw_def interval_codec.dec_enc time_point_codec.dec_enc

lemma recv_exact_scalar:
  "recv_exact m TBool" "recv_exact m TChar" "recv_exact m TInt2" "recv_exact m TInt4"
  "recv_exact m TInt8" "recv_exact m TFloat4" "recv_exact m TFloat8" "recv_exact m TOid"
  "recv_exact m TText" "recv_exact m TBytea" "recv_exact m TName" "recv_exact m TJson"
  "recv_exact m TJsonb" "recv_exact m TLtree" "recv_exact m TUuid" "recv_exact m TInterval"
  "recv_exact m TTimestamp" "recv_exact m TNullptr"
  unfolding recv_exact_def
  by (intro allI impI; clarsimp simp only: unwrap_type.simps has_type_scalar; simp add: recv_scalar_simps)+

lemma recv_composite_send:
  assumes "list_all2 (\<lambda>t x. recv_exact m t \<and> item_ok m t x) ts vs" "length ts < 2 ^ 31"
  shows "recv_composite_impl m (map (\<lambda>t. (t, recv_impl m t)) ts) sz (VTuple (map default_value ts))
     (mk_istream (send_composite m (map (\<lambda>t. (t, send_impl m t)) ts) vs @ rest))
     = Inr (VTuple vs, mk_istream rest)"
proof -
  let ?fs = "map2 (\<lambda>(t, impl) x. recv_frame m t impl x) (map (\<lambda>t. (t, recv_impl m t)) ts) (map default_value ts)"
  let ?evs = "map2 (\<lambda>t x. (send_frame (type_oid m t) (size_of t x) (send m t x), x)) ts vs"
  have len: "length ts = length vs" using assms(1) by (rule list_all2_lengthD)
  have "list_all2 (\<lambda>f (e, v). \<forall>rest. f (mk_istream (e @ rest)) = Inr (v, mk_istream rest)) ?fs ?evs"
    using assms(1) len
    by (auto simp: list_all2_conv_all_nth recv_frame_send)
  from recv_seq_send [OF this, of rest]
  have "recv_seq ?fs (mk_istream (concat (map fst ?evs) @ rest)) = Inr (vs, mk_istream rest)"
    using len by (simp add: case_prod_unfold comp_def)
  moreover have "sint (word_of_nat (length ts) :: 32 word) = int32_of (int (length ts))"
    using assms(2) by (simp add: int32_of_sint)
  ultimately show ?thesis
    by (simp add: recv_composite_impl_def read_and_verify_header_def send_composite_def
        case_prod_unfold comp_def zip_map1 send_def)
qed

lemma type_oid_unwrap:
  assumes "wf_type t"
  shows "type_oid m (unwrap_type t) = type_oid m t"
proof -
  have "unwrap_type (unwrap_type t) = unwrap_type t" using assms by (cases t) (simp_all add: not_nullable_unwrap)
  then show ?thesis by (simp only: type_oid_def traits_oid_def)
qed

lemma recv_array_send:
  assumes "recv_exact m t" "list_all (item_ok m t) vs" "fits_container c vs" "length vs < 2 ^ 31"
    "wf_type t"
  shows "recv_array_impl m c t (recv_impl m t) sz (default_value (TArray c t))
     (mk_istream (send_array_header m t (length vs)
        @ concat (map (\<lambda>x. send_data_frame (size_of t x) (send m t x)) vs) @ rest))
     = Inr (VArray vs, mk_istream rest)"
proof -
  have oid: "accepts_oid m (unwrap_type t) (type_oid m t)"
    using assms(5) by (simp add: accepts_oid_def type_oid_unwrap)
  let ?dflts = "replicate (length vs) (default_value t)"
  have fit: "fit_array_size c (default_value t) (int (length vs)) (items_of (default_value (TArray c t))) = Inr ?dflts"
    using assms(3,4) by (cases c) (simp_all add: fit_array_size_def)
  let ?fs = "map (\<lambda>x. recv_data_frame m t (recv_impl m t) None x) ?dflts"
  let ?evs = "map (\<lambda>x. (send_data_frame (size_of t x) (send m t x), x)) vs"
  have "list_all2 (\<lambda>f (e, v). \<forall>rest. f (mk_istream (e @ rest)) = Inr (v, mk_istream rest)) ?fs ?evs"
    using assms(1,2) by (auto simp: list_all2_conv_all_nth list_all_length recv_data_frame_send)
  from recv_seq_send [OF this, of rest]
  have seq: "recv_seq ?fs (mk_istream (concat (map (\<lambda>x. send_data_frame (size_of t x) (send m t x)) vs) @ rest))
      = Inr (vs, mk_istream rest)"
    by (simp add: comp_def)
  have n: "sint (word_of_nat (length vs) :: 32 word) = int (length vs)"
    using assms(4) int32_of_sint [of "int (length vs)"] by simp
  show ?thesis
  proof (cases "vs = []")
    case True
    then have "default_value (TArray c t) = VArray []" using assms(3) by (cases c) auto
    with True oid show ?thesis
      by (simp add: recv_array_impl_def send_array_header_def istream_read_int_write checked_def)
  next
    case False
    then have "int (length vs) \<noteq> 0" by simp
    with fit seq n oid show ?thesis
      by (simp add: recv_array_impl_def send_array_header_def istream_read_int_write checked_def
          del: of_nat_eq_0_iff map_replicate)
  qed
qed

lemma int_length_le_sum_list:
  fixes f :: "'a \<Rightarrow> nat"
  assumes "x \<in> set xs"
  shows "f x \<le> sum_list (map f xs)"
  using assms by (intro member_le_sum_list) auto

lemma length_le_sum_list:
  fixes f :: "'a \<Rightarrow> nat"
  shows "length xs * k \<le> sum_list (map (\<lambda>x. f x + k) xs)"
  by (induction xs) auto

lemma recv_exact_array:
  assumes "recv_exact m t" "wf_type t"
  shows "recv_exact m (TArray c t)"
  unfolding recv_exact_def
proof (intro allI impI)
  fix v rest
  assume ty: "has_type (unwrap_type (TArray c t)) v" and cons: "size_consistent (TArray c t) v"
    and time: "time_exact v" and bound: "int (length (send_impl m (TArray c t) v)) < 2 ^ 31"
  obtain vs where v: "v = VArray vs" "list_all (has_type t) vs" "fits_container c vs"
    using ty by auto
  have sum: "20 + sum_list (map (\<lambda>x. sent_length m t x + 4) vs) < 2 ^ 31"
    using bound by (simp add: v length_send_array_header length_concat comp_def length_send_data_frame
        sent_length_def send_def add.commute)
  have "int (sent_length m t x) < 2 ^ 31" if "x \<in> set vs" for x
    using int_length_le_sum_list [OF that, of "\<lambda>x. sent_length m t x + 4"] sum by simp
  then have "list_all (item_ok m t) vs"
    using v cons time assms(2) by (auto simp: list_all_iff item_ok_def)
  moreover have "length vs < 2 ^ 31"
    using sum length_le_sum_list [of vs 4 "sent_length m t"] by linarith
  ultimately have "recv_array_impl m c t (recv_impl m t) sz (default_value (TArray c t))
     (mk_istream (send_array_header m t (length vs)
        @ concat (map (\<lambda>x. send_data_frame (size_of t x) (send m t x)) vs) @ rest))
     = Inr (VArray vs, mk_istream rest)" for sz
    using assms v(3) by (intro recv_array_send)
  then show "recv_impl m (TArray c t) (size_of_impl (TArray c t) v) (default_value (unwrap_type (TArray c t)))
      (mk_istream (send_impl m (TArray c t) v @ rest)) = Inr (v, mk_istream rest)"
    by (simp add: v send_def [abs_def])
qed

lemma recv_exact_composite:
  assumes "\<And>t. t \<in> set ts \<Longrightarrow> recv_exact m t" "list_all wf_type ts"
    and vs: "list_all2 has_type ts vs" "list_all2 (\<lambda>t x. size_consistent t (unwrap x)) ts vs"
      "list_all time_exact vs"
    and bound: "int (length (send_composite m (map (\<lambda>t. (t, send_impl m t)) ts) vs)) < 2 ^ 31"
  shows "recv_composite_impl m (map (\<lambda>t. (t, recv_impl m t)) ts) sz (VTuple (map default_value ts))
     (mk_istream (send_composite m (map (\<lambda>t. (t, send_impl m t)) ts) vs @ rest))
     = Inr (VTuple vs, mk_istream rest)"
proof (rule recv_composite_send)
  let ?L = "\<lambda>(t, x). sent_length m t x + 8"
  have sum: "4 + sum_list (map ?L (zip ts vs)) < 2 ^ 31"
    using bound by (simp add: length_send_composite)
  have len: "length ts = length vs" using vs(1) by (rule list_all2_lengthD)
  have "int (sent_length m (ts ! i) (vs ! i)) < 2 ^ 31" if "i < length ts" for i
  proof -
    have "(ts ! i, vs ! i) \<in> set (zip ts vs)" using that len by (auto simp: set_zip)
    from int_length_le_sum_list [OF this, of ?L] sum show ?thesis by simp
  qed
  then show "list_all2 (\<lambda>t x. recv_exact m t \<and> item_ok m t x) ts vs"
    using assms(1,2) vs len unfolding list_all2_conv_all_nth list_all_length item_ok_def by auto
  show "length ts < 2 ^ 31"
    using sum len length_le_sum_list [of "zip ts vs" 8 "\<lambda>(t, x). sent_length m t x"]
    by (simp add: case_prod_unfold)
qed

lemma recv_exact_tuple:
  assumes "\<And>t. t \<in> set ts \<Longrightarrow> recv_exact m t" "list_all wf_type ts"
  shows "recv_exact m (TTuple ts)" "recv_exact m (TStruct name ts)"
  unfolding recv_exact_def
proof (safe, goal_cases)
  case (1 v rest)
  then obtain vs where v: "v = VTuple vs" "list_all2 has_type ts vs" by auto
  with 1 recv_exact_composite [OF assms, of vs] show ?case by (simp add: list_all2_map1)
next
  case (2 v rest)
  then obtain vs where v: "v = VTuple vs" "list_all2 has_type ts vs" by auto
  with 2 recv_exact_composite [OF assms, of vs] show ?case by (simp add: list_all2_map1)
qed

lemma recv_exact_all: "wf_type t \<Longrightarrow> recv_exact m t"
proof (induction t)
  case (TNullable t)
  then show ?case by (simp add: recv_exact_def not_nullable_unwrap)
next
  case (TArray c t)
  then show ?case by (simp add: recv_exact_array)
next
  case (TTuple ts)
  then show ?case by (intro recv_exact_tuple) (auto simp: list_all_iff)
next
  case (TStruct name ts)
  then show ?case by (intro recv_exact_tuple) (auto simp: list_all_iff)
qed (rule recv_exact_scalar)+



end
