(* ===== verification/Binary_Typing.thy ===== *)
theory Binary_Typing
  imports Binary_Roundtrip
begin

text \<open>
  The type of what \<open>recv\<close> delivers, and its error paths.
\<close>

section \<open>Type safety\<close>

definition recv_typed :: "oid_map \<Rightarrow> ctype \<Rightarrow> bool" where
  "recv_typed m t \<longleftrightarrow> (\<forall>sz cur s v s'. has_type (unwrap_type t) cur \<longrightarrow>
     recv_impl m t sz cur s = Inr (v, s') \<longrightarrow> has_type (unwrap_type t) v)"

lemma list_all2_map_same: "list_all2 P xs (map f xs) \<longleftrightarrow> (\<forall>x\<in>set xs. P x (f x))"
  by (simp add: list_all2_map2 list_all2_same)

lemma has_type_default: "wf_type t \<Longrightarrow> has_type t (default_value t)"
proof (induction t)
  case (TArray c t)
  then show ?case by (cases c) (auto simp: list_all_iff)
next
  case (TTuple ts)
  then show ?case by (auto simp: list_all_iff list_all2_map_same)
next
  case (TStruct name ts)
  then show ?case by (auto simp: list_all_iff list_all2_map_same)
qed (simp_all add: in_int64_def int64_min_def int64_max_def)

lemma recv_seq_results:
  "recv_seq fs s = Inr (vs, s') \<Longrightarrow> list_all2 (\<lambda>f v. \<exists>s1 s2. f s1 = Inr (v, s2)) fs vs"
  by (induction fs arbitrary: s vs) (auto split: prod.splits)

lemma detail_recv_typed:
  assumes "recv_typed m t" "wf_type t" "has_type t cur" "detail_recv m t (recv_impl m t) oid sz cur s = Inr (v, s')"
  shows "has_type t v"
proof (cases "is_nullable t")
  case False
  then show ?thesis
    using assms has_type_not_nullable(3) [OF assms(3) False]
    by (simp add: detail_recv_def recv_typed_def split: if_splits) blast
next
  case True
  show ?thesis
  proof (cases "v = VNull")
    case True
    then show ?thesis using \<open>is_nullable t\<close> by (cases t) (simp_all add: has_type_scalar)
  next
    case False
    let ?init = "if is_null cur then default_value (unwrap_type t) else unwrap cur"
    obtain u s1 where u: "recv_impl m t sz ?init s = Inr (u, s1)" "v = VSome u"
      using assms(4) True False by (auto simp: detail_recv_def split: if_splits prod.splits)
    have "wf_type (unwrap_type t)" using assms(2) by (cases t) auto
    then have "has_type (unwrap_type t) ?init"
      using assms(2,3) has_type_default has_type_unwrap by (simp add: is_null_def)
    with u(1) assms(1) have typed: "has_type (unwrap_type t) u" unfolding recv_typed_def by blast
    have "t \<noteq> TNullptr"
      using u(1) by (auto simp: recv_default_impl_def is_dynamic_size_def read_scalar_def split: if_splits)
    with True typed u(2) show ?thesis by (cases t) simp_all
  qed
qed

lemma recv_data_frame_typed:
  assumes "recv_typed m t" "wf_type t" "has_type t cur" "recv_data_frame m t (recv_impl m t) oid cur s = Inr (v, s')"
  shows "has_type t v"
  using assms(4) detail_recv_typed [OF assms(1-3)] by (auto simp: recv_data_frame_def split: prod.splits)

lemma recv_frame_typed:
  assumes "recv_typed m t" "wf_type t" "has_type t cur" "recv_frame m t (recv_impl m t) cur s = Inr (v, s')"
  shows "has_type t v"
  using assms(4) recv_data_frame_typed [OF assms(1-3)] by (auto simp: recv_frame_def split: prod.splits)

lemma map_sum_eq_Inr: "map_sum id (apfst f) r = Inr (v, s) \<longleftrightarrow> (\<exists>x. r = Inr (x, s) \<and> v = f x)"
  by (cases r) (auto simp: apfst_def)

lemma read_raw_length: "read_raw n s = Inr (bs, s') \<Longrightarrow> length bs = n"
  by (auto simp: read_raw_def istream_read_def istreambuf_read_def checked_def Let_def split: if_splits)

lemma in_int64_bounds: "in_int64 int64_min" "in_int64 int64_max"
  by (simp_all add: in_int64_def int64_min_def int64_max_def)

lemma to_chrono_duration_range: "in_int64 (to_chrono_duration iv)"
  unfolding to_chrono_duration_def Let_def by (simp only: in_int64_int64_of in_int64_bounds split: if_split) simp

lemma read_interval_range: "read_interval s = Inr (u, s') \<Longrightarrow> in_int64 u"
  by (auto simp: read_interval_def to_chrono_duration_range split: prod.splits)

lemma read_time_point_range: "read_time_point s = Inr (t, s') \<Longrightarrow> in_int64 t"
  by (auto simp: read_time_point_def time_point_of_wire_def in_int64_int64_of split: prod.splits)

lemma recv_typed_scalar:
  "recv_typed m TBool" "recv_typed m TChar" "recv_typed m TInt2" "recv_typed m TInt4"
  "recv_typed m TInt8" "recv_typed m TFloat4" "recv_typed m TFloat8" "recv_typed m TOid"
  "recv_typed m TText" "recv_typed m TBytea" "recv_typed m TName" "recv_typed m TJson"
  "recv_typed m TJsonb" "recv_typed m TLtree" "recv_typed m TUuid" "recv_typed m TInterval"
  "recv_typed m TTimestamp" "recv_typed m TNullptr"
  by (auto simp: recv_typed_def has_type_scalar recv_default_impl_def is_dynamic_size_def read_scalar_def
      recv_versioned_impl_def map_sum_eq_Inr dest: read_interval_range read_time_point_range read_raw_length
      split: if_splits prod.splits)

lemma fit_array_size_typed:
  assumes "fit_array_size c d n xs = Inr ys" "list_all P xs" "P d" "fits_container c xs"
  shows "list_all P ys \<and> fits_container c ys"
proof (cases c)
  case Dynamic_array
  then have "ys = take (nat n) xs @ replicate (nat n - length xs) d"
    using assms(1) by (auto simp: fit_array_size_def split: if_splits)
  with assms(2,3) Dynamic_array show ?thesis by (auto simp: list_all_iff dest!: in_set_takeD)
next
  case (Static_array k)
  with assms show ?thesis by (auto simp: fit_array_size_def split: if_splits)
qed

lemma fits_container_length: "length xs = length ys \<Longrightarrow> fits_container c xs \<Longrightarrow> fits_container c ys"
  by (cases c) auto

lemma recv_typed_array:
  assumes "recv_typed m t" "wf_type t"
  shows "recv_typed m (TArray c t)"
  unfolding recv_typed_def
proof (intro allI impI)
  fix sz cur s v s'
  assume "has_type (unwrap_type (TArray c t)) cur" and r: "recv_impl m (TArray c t) sz cur s = Inr (v, s')"
  then obtain xs where cur: "cur = VArray xs" "fits_container c xs" "list_all (has_type t) xs" by auto
  have keep: "has_type (TArray c t) cur" using cur by simp
  have received: "has_type (TArray c t) (VArray vs)"
    if "fit_array_size c (default_value t) n xs = Inr ys"
      "recv_seq (map (\<lambda>x. recv_data_frame m t (recv_impl m t) None x) ys) s1 = Inr (vs, s2)" for n ys vs s1 s2
  proof -
    have ys: "list_all (has_type t) ys" "fits_container c ys"
      using fit_array_size_typed [OF that(1) cur(3) has_type_default [OF assms(2)] cur(2)] by auto
    have "list_all2 (\<lambda>x v. \<exists>s1 s2. recv_data_frame m t (recv_impl m t) None x s1 = Inr (v, s2)) ys vs"
      using recv_seq_results [OF that(2)] by (simp add: list_all2_map1)
    then have "length ys = length vs" "list_all (has_type t) vs"
      using ys(1) recv_data_frame_typed [OF assms]
      by (auto simp: list_all2_conv_all_nth list_all_length) blast
    with ys(2) show ?thesis using fits_container_length by simp
  qed
  from r show "has_type (unwrap_type (TArray c t)) v"
    using keep received
    by (auto simp: recv_array_impl_def cur split: prod.splits if_splits simp del: has_type_structured)
qed

lemma recv_typed_composite:
  assumes "\<And>t. t \<in> set ts \<Longrightarrow> recv_typed m t" "list_all wf_type ts" "list_all2 has_type ts xs"
    "recv_composite_impl m (map (\<lambda>t. (t, recv_impl m t)) ts) sz (VTuple xs) s = Inr (v, s')"
  shows "\<exists>vs. v = VTuple vs \<and> list_all2 has_type ts vs"
proof -
  obtain vs s1 s2 where v: "v = VTuple vs"
    and seq: "recv_seq (map2 (\<lambda>t x. recv_frame m t (recv_impl m t) x) ts xs) s1 = Inr (vs, s2)"
    using assms(4) by (auto simp: recv_composite_impl_def zip_map1 case_prod_unfold comp_def)
  have len: "length ts = length xs" using assms(3) by (rule list_all2_lengthD)
  note res = recv_seq_results [OF seq, unfolded list_all2_conv_all_nth]
  have "has_type (ts ! i) (vs ! i)" if "i < length ts" for i
  proof -
    from res that len obtain s1 s2 where "recv_frame m (ts ! i) (recv_impl m (ts ! i)) (xs ! i) s1 = Inr (vs ! i, s2)"
      by auto
    moreover have "has_type (ts ! i) (xs ! i)" using assms(3) that by (simp add: list_all2_conv_all_nth)
    ultimately show ?thesis
      using recv_frame_typed assms(1,2) that by (meson list_all_length nth_mem)
  qed
  then have "list_all2 has_type ts vs" using res len by (simp add: list_all2_conv_all_nth)
  with v show ?thesis by blast
qed

lemma recv_typed_all: "wf_type t \<Longrightarrow> recv_typed m t"
proof (induction t)
  case (TNullable t)
  then show ?case by (simp add: recv_typed_def not_nullable_unwrap)
next
  case (TArray c t)
  then show ?case by (simp add: recv_typed_array)
next
  case (TTuple ts)
  then have "\<And>t. t \<in> set ts \<Longrightarrow> recv_typed m t" "list_all wf_type ts" by (auto simp: list_all_iff)
  from recv_typed_composite [OF this] show ?case by (auto simp: recv_typed_def)
next
  case (TStruct name ts)
  then have "\<And>t. t \<in> set ts \<Longrightarrow> recv_typed m t" "list_all wf_type ts" by (auto simp: list_all_iff)
  from recv_typed_composite [OF this] show ?case by (auto simp: recv_typed_def)
qed (rule recv_typed_scalar)+



section \<open>Outcomes of a single value\<close>

text \<open>Receiving a 32-bit integer has exactly these outcomes: a wrong OID, an
  unexpected null, a wrong size and a short stream are each reported by their own
  error, in this order, and otherwise the result is the big-endian value of the next
  four bytes.\<close>

lemma recv_int4_outcomes:
  "recv m TInt4 oid sz cur (mk_istream bs) =
    (if oid \<noteq> 23 then Inl (System_Error oid_type_mismatch)
     else if sz = - 1 then Inl Invalid_Argument
     else if sz \<noteq> 4 then Inl (System_Error bad_object_size)
     else if length bs < 4 then Inl (System_Error unexpected_eof)
     else Inr (VInt4 (word_of_be (take 4 bs)), mk_istream (drop 4 bs)))"
  by (auto simp: recv_def detail_recv_def null_state_size_def accepts_oid_def type_oid_def
      recv_default_impl_def is_dynamic_size_def static_size_def read_scalar_def read_int_cases)

text \<open>The empty array the server sends has no dimension; the one \<open>send\<close> emits has one
  dimension of size zero.\<close>

definition empty_array_image :: "oid_map \<Rightarrow> ctype \<Rightarrow> bool \<Rightarrow> bytes" where
  "empty_array_image m t server =
    (if server
     then write_int (0 :: 32 word) @ write_int (0 :: 32 word) @ write_int (type_oid m t)
     else send_array_header m t 0)"

text \<open>C35: an empty array received into an object that already has elements leaves
  those elements in place, in either of its two wire forms.\<close>

theorem recv_empty_array_keeps_elements:
  assumes "wf_type (TArray c t)"
  shows "recv m (TArray c t) (type_oid m (TArray c t)) (int (length (empty_array_image m t server)))
      (VArray vs) (mk_istream (empty_array_image m t server @ rest))
     = Inr (VArray vs, mk_istream rest)"
proof -
  have "accepts_oid m (unwrap_type t) (type_oid m t)"
    using assms by (simp add: accepts_oid_def type_oid_unwrap)
  then show ?thesis
    by (cases server) (simp_all add: recv_def detail_recv_def null_state_size_def accepts_oid_def
        empty_array_image_def send_array_header_def recv_array_impl_def istream_read_int_write checked_def)
qed

theorem recv_empty_array_keeps_elements_witness:
  "recv [] (TArray Dynamic_array TInt4) 1007 12 (VArray [VInt4 1])
     (mk_istream (empty_array_image [] TInt4 True)) = Inr (VArray [VInt4 1], mk_istream [])"
proof -
  have "type_oid [] (TArray Dynamic_array TInt4) = 1007"
    by (simp add: type_oid_def traits_oid_def is_custom_def array_definition_def type_definition_rows)
  moreover have "length (empty_array_image [] TInt4 True) = 12" by (simp add: empty_array_image_def)
  ultimately show ?thesis
    using recv_empty_array_keeps_elements [of Dynamic_array TInt4 "[]" True "[VInt4 1]" "[]"] by simp
qed

end
