(* ===== verification/Binary_Query.thy ===== *)
theory Binary_Query
  imports Binary_Typing
begin

text \<open>
  The binary form of a query: \<open>io/binary_query.h\<close>. The query holds one buffer with the
  images of all parameters and, per parameter, its type, its format, its length and a
  pointer into the buffer (the offset, or None for a null pointer). \<open>server_view\<close> is how
  \<open>PQsendQueryParams\<close> reads such arrays: a null pointer is the SQL NULL, any other one
  the given number of bytes from that address.
\<close>

record binary_query =
  text_of :: string
  buffer_of :: bytes
  types_of :: "oid_t list"
  formats_of :: "int list"
  lengths_of :: "size_type list"
  values_of :: "nat option list"

definition binary_format :: int where "binary_format = 1"

fun value_offsets :: "nat \<Rightarrow> size_type list \<Rightarrow> nat option list" where
  "value_offsets offset [] = []"
| "value_offsets offset (l # ls) =
     (if l \<noteq> 0 then Some offset else None) # value_offsets (offset + nat l) ls"

definition make_binary_query :: "string \<Rightarrow> (ctype \<times> cval) list \<Rightarrow> oid_map \<Rightarrow> binary_query" where
  "make_binary_query qtext params m = (
     let lengths = map (\<lambda>(t, v). max 0 (size_of t v)) params in
     \<lparr>text_of = qtext,
      buffer_of = concat (map (\<lambda>(t, v). send m t v) params),
      types_of = map (\<lambda>(t, v). type_oid m t) params,
      formats_of = replicate (length params) binary_format,
      lengths_of = lengths,
      values_of = value_offsets 0 lengths\<rparr>)"

definition params_count :: "binary_query \<Rightarrow> nat" where
  "params_count q = length (types_of q)"

text \<open>A query object, or one already converted, and the conversion.\<close>

datatype query_source = Plain_query string "(ctype \<times> cval) list" | Converted_query binary_query

fun to_binary_query :: "query_source \<Rightarrow> oid_map \<Rightarrow> binary_query" where
  "to_binary_query (Plain_query qtext params) m = make_binary_query qtext params m"
| "to_binary_query (Converted_query q) m = q"

definition server_view :: "binary_query \<Rightarrow> nat \<Rightarrow> bytes option" where
  "server_view q i = map_option (\<lambda>off. take (nat (lengths_of q ! i)) (drop off (buffer_of q))) (values_of q ! i)"

section \<open>Lemmas\<close>

text \<open>A parameter that \<open>size_of\<close> measures correctly.\<close>

definition param_ok :: "oid_map \<Rightarrow> ctype \<times> cval \<Rightarrow> bool" where
  "param_ok m p \<longleftrightarrow> (case p of (t, v) \<Rightarrow>
     wf_type t \<and> has_type t v \<and> size_consistent t (unwrap v) \<and> int (length (send m t v)) < 2 ^ 31)"

lemma param_length:
  assumes "param_ok m (t, v)"
  shows "max 0 (size_of t v) = int (length (send m t v))"
  using assms size_of_eq_sent_length [of t v m]
  by (auto simp: param_ok_def is_null_def send_def send_value_def)

lemma length_value_offsets [simp]: "length (value_offsets off ls) = length ls"
  by (induction ls arbitrary: off) auto

lemma value_offsets_nth:
  assumes "i < length ls" "list_all (\<lambda>l. 0 \<le> l) ls"
  shows "value_offsets off ls ! i =
    (if ls ! i = 0 then None else Some (off + nat (sum_list (take i ls))))"
  using assms
proof (induction ls arbitrary: off i)
  case (Cons l ls)
  show ?case
  proof (cases i)
    case (Suc j)
    have "0 \<le> sum_list (take j ls)"
      using Cons.prems(2) by (intro sum_list_nonneg) (auto simp: list_all_iff dest: in_set_takeD)
    with Cons Suc show ?thesis by (simp add: nat_add_distrib)
  qed simp
qed simp

lemma slice_concat:
  assumes "i < length xss"
  shows "take (length (xss ! i)) (drop (sum_list (take i (map length xss))) (concat xss)) = xss ! i"
  using assms
proof (induction xss arbitrary: i)
  case (Cons xs xss)
  then show ?case by (cases i) auto
qed simp

lemma sum_list_int_lengths: "nat (sum_list (map (\<lambda>x. int (f x)) xs)) = sum_list (map f xs)"
  by (simp flip: int_sum_list)

lemma server_view_eq:
  assumes "list_all (param_ok m) params" "i < length params"
  defines "img \<equiv> (\<lambda>(t, v). send m t v) (params ! i)"
  shows "server_view (make_binary_query qtext params m) i = (if img = [] then None else Some img)"
proof -
  let ?imgs = "map (\<lambda>(t, v). send m t v) params"
  have lengths: "map (\<lambda>(t, v). max 0 (size_of t v)) params = map (\<lambda>x. int (length x)) ?imgs"
    using assms(1) by (auto simp: list_all_iff param_length)
  have at: "?imgs ! i = img" using assms(2) by (simp add: img_def)
  have "value_offsets 0 (map (\<lambda>x. int (length x)) ?imgs) ! i =
      (if img = [] then None else Some (sum_list (take i (map length ?imgs))))"
    using assms(2) at value_offsets_nth [of i "map (\<lambda>x. int (length x)) ?imgs" 0]
    by (simp add: list_all_iff take_map sum_list_int_lengths del: map_map)
  then show ?thesis
    using slice_concat [of i ?imgs] assms(2) at
    by (auto simp: server_view_def make_binary_query_def Let_def lengths simp del: map_map)
qed



text \<open>C36: a parameter whose image is empty, like an empty string or an empty byte
  array, reaches the server as NULL although it is not null.\<close>

theorem empty_param_is_null:
  assumes "list_all (param_ok m) params" "i < length params"
    and "params ! i = (t, VBytes [])" "t \<in> {TText, TBytea, TName, TJson}"
  shows "server_view (make_binary_query qtext params m) i = None \<and> \<not> is_null (snd (params ! i))"
proof -
  have "send m t (VBytes []) = []"
    using assms(4) by (auto simp: send_def send_value_def is_null_def write_raw_def)
  with server_view_eq [OF assms(1,2), of qtext] assms(3) show ?thesis by (simp add: is_null_def)
qed

theorem empty_param_is_null_witness:
  "server_view (make_binary_query ''q'' [(TText, VBytes [])] []) 0 = None"
proof -
  have "list_all (param_ok []) [(TText, VBytes [])]"
    by (simp add: param_ok_def send_def send_value_def is_null_def write_raw_def)
  then show ?thesis using empty_param_is_null [of "[]" "[(TText, VBytes [])]" 0 TText "''q''"] by simp
qed

end
