(* ===== verification/Deadline.thy ===== *)
theory Deadline
  imports Error_Codes Time_Traits
begin

text \<open>
  Deadlines: the time constraint arithmetic of \<open>deadline.h\<close> and the two handlers that
  bound an asynchronous operation by a timer, \<open>io_deadline_handler\<close> of
  \<open>detail/deadline.h\<close> and \<open>deadline_cancel_handler\<close> of \<open>impl/cancel.h\<close>. A handler is its
  shared context together with a record of what it did: the calls of the wrapped
  handler and the cancellations of the timer and the stream.
\<close>

section \<open>Time constraints\<close>

definition deadline_after :: "int \<Rightarrow> time \<Rightarrow> time" where
  "deadline_after after now =
    (if after < 0 then now
     else if after > int64_max - now then int64_max else now + after)"

text \<open>A time constraint is none, a time point or a duration.\<close>

datatype time_constraint = No_constraint | Time_point time | Duration int

fun deadline :: "time_constraint \<Rightarrow> time \<Rightarrow> time_constraint" where
  "deadline No_constraint now = No_constraint"
| "deadline (Time_point t) now = Time_point t"
| "deadline (Duration d) now = Time_point (deadline_after d now)"

definition time_left :: "time \<Rightarrow> time \<Rightarrow> int" where
  "time_left t now = (if t > now then t - now else 0)"

definition expired :: "time \<Rightarrow> time \<Rightarrow> bool" where
  "expired t now \<longleftrightarrow> time_left t now = 0"

lemma deadline_idem [simp]: "deadline (deadline t now) now' = deadline t now"
  by (cases t) simp_all

lemma expired_iff: "expired t now \<longleftrightarrow> t \<le> now"
  by (simp add: expired_def time_left_def)

lemma deadline_after_eq:
  "0 \<le> now \<Longrightarrow> now \<le> int64_max \<Longrightarrow> deadline_after d now = min int64_max (now + max 0 d)"
  by (simp add: deadline_after_def)

text \<open>A deadline computed from a duration is a representable time point, not before
  now, the time left to it is the duration cut to what the clock can represent, and it
  has expired at exactly the times that are not earlier.\<close>

lemma deadline_bounds:
  assumes "0 \<le> now" "now \<le> int64_max"
  shows "now \<le> deadline_after d now \<and> deadline_after d now \<le> int64_max
    \<and> time_left (deadline_after d now) now = min (int64_max - now) (max 0 d)
    \<and> (expired (deadline_after d now) t \<longleftrightarrow> min int64_max (now + max 0 d) \<le> t)"
  using assms by (auto simp: deadline_after_eq expired_iff time_left_def min_def max_def)

section \<open>An operation bounded by a timer\<close>

record 'r io_deadline_handler =
  first_call :: int
  io_ec :: error_code
  io_result :: "'r option"
  io_timer_cancels :: nat
  io_stream_cancels :: nat
  io_calls :: "(error_code \<times> 'r option) list"

definition make_io_deadline_handler :: "'r io_deadline_handler" where
  "make_io_deadline_handler = \<lparr>first_call = 2, io_ec = Success, io_result = None,
     io_timer_cancels = 0, io_stream_cancels = 0, io_calls = []\<rparr>"

text \<open>The completion of the operation.\<close>

definition io_deadline_call :: "error_code \<Rightarrow> 'r \<Rightarrow> 'r io_deadline_handler \<Rightarrow> 'r io_deadline_handler" where
  "io_deadline_call ec result c =
    (let c = c\<lparr>first_call := first_call c - 1\<rparr> in
     if first_call c \<noteq> 0
     then c\<lparr>io_timer_cancels := Suc (io_timer_cancels c), io_ec := ec, io_result := Some result\<rparr>
     else c\<lparr>io_calls := io_calls c @ [(io_ec c, Some result)]\<rparr>)"

text \<open>The completion of the timer, by expiry or by cancellation.\<close>

definition io_timer_handler :: "'r io_deadline_handler \<Rightarrow> 'r io_deadline_handler" where
  "io_timer_handler c =
    (let c = c\<lparr>first_call := first_call c - 1\<rparr> in
     if first_call c \<noteq> 0
     then c\<lparr>io_stream_cancels := Suc (io_stream_cancels c), io_ec := Asio_error timed_out\<rparr>
     else c\<lparr>io_calls := io_calls c @ [(io_ec c, io_result c)]\<rparr>)"

section \<open>A cancel request bounded by a timer\<close>

record cancel_context =
  cancel_state :: int
  cancel_timer_cancels :: nat
  cancel_calls :: "(error_code \<times> string) list"

definition make_cancel_context :: cancel_context where
  "make_cancel_context = \<lparr>cancel_state = 2, cancel_timer_cancels = 0, cancel_calls = []\<rparr>"

definition deadline_cancel_call :: "error_code \<Rightarrow> string \<Rightarrow> cancel_context \<Rightarrow> cancel_context" where
  "deadline_cancel_call ec msg c =
    (let c = c\<lparr>cancel_state := cancel_state c - 1\<rparr> in
     if cancel_state c \<noteq> 0
     then c\<lparr>cancel_timer_cancels := Suc (cancel_timer_cancels c), cancel_calls := cancel_calls c @ [(ec, msg)]\<rparr>
     else c)"

definition on_timer_expired :: "cancel_context \<Rightarrow> cancel_context" where
  "on_timer_expired c =
    (let c = c\<lparr>cancel_state := cancel_state c - 1\<rparr> in
     if cancel_state c \<noteq> 0
     then c\<lparr>cancel_calls := cancel_calls c @
            [(Asio_error timed_out, ''cancel() operation waiting aborted by time-out'')]\<rparr>
     else c)"

text \<open>The result of \<open>PQcancel\<close>: whether the request was dispatched, and the 255 bytes of
  the message buffer, padded with zero characters.\<close>

definition dispatch_cancel :: "bool \<times> string \<Rightarrow> error_code \<times> string" where
  "dispatch_cancel r = (if \<not> fst r
     then (Ozo_error pq_cancel_failed, rev (dropWhile (\<lambda>c. c = CHR 0x00) (rev (snd r))))
     else (Success, []))"

section \<open>Exactly one completion\<close>

text \<open>An operation and its timer each complete once, in one of two orders.\<close>

datatype 'r completion = Completed error_code 'r | Timer_done

fun io_complete :: "'r completion \<Rightarrow> 'r io_deadline_handler \<Rightarrow> 'r io_deadline_handler" where
  "io_complete (Completed ec r) c = io_deadline_call ec r c"
| "io_complete Timer_done c = io_timer_handler c"

fun cancel_complete :: "string completion \<Rightarrow> cancel_context \<Rightarrow> cancel_context" where
  "cancel_complete (Completed ec msg) c = deadline_cancel_call ec msg c"
| "cancel_complete Timer_done c = on_timer_expired c"

definition both_completed :: "'r completion list \<Rightarrow> error_code \<Rightarrow> 'r \<Rightarrow> bool" where
  "both_completed cs ec r \<longleftrightarrow> cs = [Completed ec r, Timer_done] \<or> cs = [Timer_done, Completed ec r]"

lemmas completion_defs = io_deadline_call_def io_timer_handler_def make_io_deadline_handler_def
  deadline_cancel_call_def on_timer_expired_def make_cancel_context_def Let_def

text \<open>C8: an operation with a deadline calls its handler exactly once, when the operation
  and the timer have both completed and not before, always with the result of the
  operation. An operation that completes first cancels the timer and keeps its error
  code; a timer that completes first cancels the stream and the handler gets
  \<open>timed_out\<close>, whatever the operation reported.\<close>

theorem io_deadline_exactly_once:
  assumes "both_completed cs ec r"
  shows "io_calls (fold io_complete (take 1 cs) make_io_deadline_handler) = []
    \<and> io_calls (fold io_complete cs make_io_deadline_handler)
        = [(if hd cs = Timer_done then Asio_error timed_out else ec, Some r)]
    \<and> io_timer_cancels (fold io_complete cs make_io_deadline_handler) = (if hd cs = Timer_done then 0 else 1)
    \<and> io_stream_cancels (fold io_complete cs make_io_deadline_handler) = (if hd cs = Timer_done then 1 else 0)"
  using assms unfolding both_completed_def by (elim disjE) (simp_all add: completion_defs)

theorem io_deadline_exactly_once_witness:
  "io_calls (fold io_complete [Timer_done, Completed Success (7 :: nat)] make_io_deadline_handler)
     = [(Asio_error timed_out, Some 7)]"
  using io_deadline_exactly_once [of "[Timer_done, Completed Success (7 :: nat)]" Success 7]
  by (simp add: both_completed_def)

text \<open>A cancel request with a deadline calls its handler exactly once, at the first of
  the two completions: with the outcome of the request, or with \<open>timed_out\<close>.\<close>

lemma cancel_exactly_once:
  assumes "both_completed cs ec msg"
  shows "cancel_calls (fold cancel_complete cs make_cancel_context) =
      [(if hd cs = Timer_done then (Asio_error timed_out, ''cancel() operation waiting aborted by time-out'')
        else (ec, msg))]
    \<and> cancel_calls (fold cancel_complete (take 1 cs) make_cancel_context)
        = cancel_calls (fold cancel_complete cs make_cancel_context)"
  using assms unfolding both_completed_def by (elim disjE) (simp_all add: completion_defs)

lemma last_trimmed: "rev (dropWhile P (rev xs)) = [] \<or> \<not> P (last (rev (dropWhile P (rev xs))))"
  using hd_dropWhile [of P "rev xs"] by (cases "dropWhile P (rev xs)") auto

lemma dispatch_cancel_message:
  "(fst (dispatch_cancel r) = Success \<longleftrightarrow> fst r)
    \<and> (snd (dispatch_cancel r) = [] \<or> last (snd (dispatch_cancel r)) \<noteq> CHR 0x00)"
  using last_trimmed [of "\<lambda>c. c = CHR 0x00" "snd r"] by (simp add: dispatch_cancel_def del: rev_is_Nil_conv)

end
