(* ===== verification/Connection.thy ===== *)
theory Connection
  imports Binary_Query Deadline
begin

text \<open>
  The connection object (\<open>connection.h\<close>, \<open>impl/connection.h\<close>), its transaction status and
  the operation that establishes a connection (\<open>impl/async_connect.h\<close>). libpq is not part
  of the program: its functions are the fields of the record \<open>libpq\<close>, over a type \<open>'p\<close> of
  the states of a \<open>PGconn\<close> and a type \<open>'r\<close> of results. A function that changes the
  \<open>PGconn\<close> returns its new state beside the result.
\<close>

section \<open>The libpq functions the library calls\<close>

datatype conn_status = CONNECTION_OK | CONNECTION_BAD | CONNECTION_IN_PROGRESS

datatype polling_status =
    PGRES_POLLING_FAILED | PGRES_POLLING_READING | PGRES_POLLING_WRITING | PGRES_POLLING_OK
  | PGRES_POLLING_ACTIVE

datatype exec_status =
    PGRES_EMPTY_QUERY | PGRES_COMMAND_OK | PGRES_TUPLES_OK | PGRES_COPY_OUT | PGRES_COPY_IN
  | PGRES_BAD_RESPONSE | PGRES_NONFATAL_ERROR | PGRES_FATAL_ERROR | PGRES_COPY_BOTH
  | PGRES_SINGLE_TUPLE | PGRES_PIPELINE_SYNC | PGRES_PIPELINE_ABORTED | PGRES_TUPLES_CHUNK

datatype pq_transaction_status =
    PQTRANS_IDLE | PQTRANS_ACTIVE | PQTRANS_INTRANS | PQTRANS_INERROR | PQTRANS_UNKNOWN
  | PQTRANS_OTHER nat

record ('p, 'r) libpq =
  PQconnectStart :: "string \<Rightarrow> 'p option"
  PQconnectPoll :: "'p \<Rightarrow> polling_status \<times> 'p"
  PQstatus :: "'p \<Rightarrow> conn_status"
  PQsocket :: "'p \<Rightarrow> int"
  PQerrorMessage :: "'p \<Rightarrow> string"
  PQtransactionStatus :: "'p \<Rightarrow> pq_transaction_status"
  PQsetnonblocking :: "'p \<Rightarrow> int \<times> 'p"
  PQsendQueryParams :: "binary_query \<Rightarrow> 'p \<Rightarrow> int \<times> 'p"
  PQflush :: "'p \<Rightarrow> int \<times> 'p"
  PQisBusy :: "'p \<Rightarrow> bool"
  PQconsumeInput :: "'p \<Rightarrow> int \<times> 'p"
  PQgetResult :: "'p \<Rightarrow> 'r option \<times> 'p"
  PQresultStatus :: "'r \<Rightarrow> exec_status"
  PQresultSqlstate :: "'r \<Rightarrow> string option"

section \<open>The connection object\<close>

text \<open>\<open>socket\<close> is the descriptor the stream holds; \<open>cancels\<close> counts the calls that make
  the outstanding waits of the stream complete.\<close>

record 'p connection =
  conn_handle :: "'p option"
  conn_socket :: "int option"
  conn_oid_map :: oid_map
  error_context :: string
  conn_cancels :: nat

definition make_connection :: "oid_map \<Rightarrow> 'p connection" where
  "make_connection m = \<lparr>conn_handle = None, conn_socket = None, conn_oid_map = m, error_context = [], conn_cancels = 0\<rparr>"

definition connection_status_bad :: "('p, 'r) libpq \<Rightarrow> 'p option \<Rightarrow> bool" where
  "connection_status_bad pq h \<longleftrightarrow> (case h of None \<Rightarrow> True | Some p \<Rightarrow> PQstatus pq p = CONNECTION_BAD)"

definition connection_status_ok :: "('p, 'r) libpq \<Rightarrow> 'p option \<Rightarrow> bool" where
  "connection_status_ok pq h \<longleftrightarrow> (case h of None \<Rightarrow> False | Some p \<Rightarrow> PQstatus pq p = CONNECTION_OK)"

text \<open>\<open>find_last_not_of(' ')\<close> and the removal of the suffix behind it.\<close>

definition connection_error_message :: "('p, 'r) libpq \<Rightarrow> 'p \<Rightarrow> string" where
  "connection_error_message pq p = rev (dropWhile (\<lambda>c. c = CHR '' '') (rev (PQerrorMessage pq p)))"

text \<open>Releasing the descriptor of a stream makes its outstanding waits complete.\<close>

definition release_socket :: "'p connection \<Rightarrow> 'p connection" where
  "release_socket c = c\<lparr>conn_socket := None,
     conn_cancels := (if conn_socket c = None then conn_cancels c else Suc (conn_cancels c))\<rparr>"

definition assign :: "('p, 'r) libpq \<Rightarrow> 'p \<Rightarrow> 'p connection \<Rightarrow> error_code \<times> 'p connection" where
  "assign pq p c =
    (let fd = PQsocket pq p in
     if fd = - 1 then (Ozo_error pq_socket_failed, c)
     else (Success, (release_socket c)\<lparr>conn_socket := Some fd, conn_handle := Some p\<rparr>))"

definition release :: "'p connection \<Rightarrow> 'p option \<times> 'p connection" where
  "release c = (conn_handle c, (release_socket c)\<lparr>conn_handle := None\<rparr>)"

definition close_connection :: "'p connection \<Rightarrow> error_code \<times> 'p connection" where
  "close_connection c = (Success, snd (release c))"

definition cancel_io :: "'p connection \<Rightarrow> 'p connection" where
  "cancel_io c = c\<lparr>conn_cancels := Suc (conn_cancels c)\<rparr>"

definition is_bad :: "('p, 'r) libpq \<Rightarrow> 'p connection \<Rightarrow> bool" where
  "is_bad pq c \<longleftrightarrow> \<not> connection_status_ok pq (conn_handle c)"

definition is_open :: "'p connection \<Rightarrow> bool" where
  "is_open c \<longleftrightarrow> conn_handle c \<noteq> None"

definition set_error_context :: "string \<Rightarrow> 'p connection \<Rightarrow> 'p connection" where
  "set_error_context msg c = c\<lparr>error_context := msg\<rparr>"

text \<open>A libpq call on the native handle of the connection, with the answer libpq gives for
  a null handle.\<close>

definition on_handle :: "'a \<Rightarrow> ('p \<Rightarrow> 'a \<times> 'p) \<Rightarrow> 'p connection \<Rightarrow> 'a \<times> 'p connection" where
  "on_handle null_answer f c = (case conn_handle c of
     None \<Rightarrow> (null_answer, c)
   | Some p \<Rightarrow> (case f p of (a, p') \<Rightarrow> (a, c\<lparr>conn_handle := Some p'\<rparr>)))"

text \<open>A connection that may be a null pointer. libpq answers a null handle with the bad
  status and the unknown transaction status.\<close>

definition connection_bad :: "('p, 'r) libpq \<Rightarrow> 'p connection option \<Rightarrow> bool" where
  "connection_bad pq c \<longleftrightarrow> (case c of None \<Rightarrow> True | Some c \<Rightarrow> is_bad pq c)"

text \<open>A connection as connection provider: \<open>forward_connection\<close> resets the error context.\<close>

definition forward_connection :: "'p connection \<Rightarrow> error_code \<times> 'p connection" where
  "forward_connection c = (Success, set_error_context [] c)"

datatype transaction_status = Trans_unknown | Trans_idle | Trans_active | Trans_transaction | Trans_error

definition get_transaction_status ::
  "('p, 'r) libpq \<Rightarrow> 'p connection option \<Rightarrow> transaction_status result" where
  "get_transaction_status pq c = (case c of
     None \<Rightarrow> Inr Trans_unknown
   | Some c \<Rightarrow> (case conn_handle c of
       None \<Rightarrow> Inr Trans_unknown
     | Some p \<Rightarrow> (case PQtransactionStatus pq p of
         PQTRANS_UNKNOWN \<Rightarrow> Inr Trans_unknown
       | PQTRANS_IDLE \<Rightarrow> Inr Trans_idle
       | PQTRANS_ACTIVE \<Rightarrow> Inr Trans_active
       | PQTRANS_INTRANS \<Rightarrow> Inr Trans_transaction
       | PQTRANS_INERROR \<Rightarrow> Inr Trans_error
       | PQTRANS_OTHER _ \<Rightarrow> Inl Invalid_Argument)))"

section \<open>Establishing a connection\<close>

text \<open>What an invocation of the operation ends with: a wait for the socket, after which
  the operation is invoked again, or the call of the handler.\<close>

datatype connect_action = Wait_write | Wait_read | Connected error_code

definition connect_perform ::
  "('p, 'r) libpq \<Rightarrow> string \<Rightarrow> 'p connection \<Rightarrow> connect_action \<times> 'p connection" where
  "connect_perform pq conninfo c = (case PQconnectStart pq conninfo of
     None \<Rightarrow> (Connected (Ozo_error pq_connection_start_failed), c)
   | Some p \<Rightarrow>
       if connection_status_bad pq (Some p) then (Connected (Ozo_error pq_connection_status_bad), c)
       else (case assign pq p c of
          (ec, c') \<Rightarrow> if failed ec then (Connected ec, c') else (Wait_write, c')))"

definition connect_poll :: "('p, 'r) libpq \<Rightarrow> 'p connection \<Rightarrow> polling_status \<times> 'p connection" where
  "connect_poll pq c = on_handle PGRES_POLLING_FAILED (PQconnectPoll pq) c"

definition connect_resume ::
  "('p, 'r) libpq \<Rightarrow> error_code \<Rightarrow> 'p connection \<Rightarrow> connect_action \<times> 'p connection" where
  "connect_resume pq ec c =
    (if failed ec
     then (Connected ec, if error_context c = [] then set_error_context ''error while connection polling'' c else c)
     else (case connect_poll pq c of
         (PGRES_POLLING_OK, c') \<Rightarrow> (Connected Success, c')
       | (PGRES_POLLING_WRITING, c') \<Rightarrow> (Wait_write, c')
       | (PGRES_POLLING_READING, c') \<Rightarrow> (Wait_read, c')
       | (PGRES_POLLING_FAILED, c') \<Rightarrow> (Connected (Ozo_error pq_connect_poll_failed), c')
       | (PGRES_POLLING_ACTIVE, c') \<Rightarrow> (Connected (Ozo_error pq_connect_poll_failed), c')))"

text \<open>The operation driven by the completions of its waits.\<close>

fun connect_run ::
  "('p, 'r) libpq \<Rightarrow> error_code list \<Rightarrow> connect_action \<times> 'p connection \<Rightarrow> connect_action \<times> 'p connection" where
  "connect_run pq ecs (Connected ec, c) = (Connected ec, c)"
| "connect_run pq [] (a, c) = (a, c)"
| "connect_run pq (ec # ecs) (a, c) = connect_run pq ecs (connect_resume pq ec c)"

definition async_connect ::
  "('p, 'r) libpq \<Rightarrow> string \<Rightarrow> error_code list \<Rightarrow> 'p connection \<Rightarrow> connect_action \<times> 'p connection" where
  "async_connect pq conninfo ecs c = connect_run pq ecs (connect_perform pq conninfo c)"

section \<open>Properties\<close>

lemma assign_release:
  "assign pq p c = (Success, c') \<Longrightarrow> fst (release c') = Some p \<and> conn_socket c' = Some (PQsocket pq p)
    \<and> is_open c' \<and> \<not> is_open (snd (release c')) \<and> is_bad pq (snd (release c'))"
  by (auto simp: assign_def release_def release_socket_def is_open_def is_bad_def connection_status_ok_def
      Let_def split: if_splits)

lemma error_message_trimmed:
  "\<exists>n. PQerrorMessage pq p = connection_error_message pq p @ replicate n (CHR '' '')"
  "connection_error_message pq p = [] \<or> last (connection_error_message pq p) \<noteq> CHR '' ''"
proof -
  let ?m = "PQerrorMessage pq p"
  have "rev ?m = takeWhile (\<lambda>c. c = CHR '' '') (rev ?m) @ dropWhile (\<lambda>c. c = CHR '' '') (rev ?m)" by simp
  then have "?m = connection_error_message pq p @ rev (takeWhile (\<lambda>c. c = CHR '' '') (rev ?m))"
    unfolding connection_error_message_def by (metis rev_append rev_rev_ident)
  moreover have "rev (takeWhile (\<lambda>c. c = CHR '' '') (rev ?m)) = replicate (length (takeWhile (\<lambda>c. c = CHR '' '') (rev ?m))) (CHR '' '')"
    by (intro replicate_eqI) (auto dest: set_takeWhileD)
  ultimately show "\<exists>n. ?m = connection_error_message pq p @ replicate n (CHR '' '')" by metis
  show "connection_error_message pq p = [] \<or> last (connection_error_message pq p) \<noteq> CHR '' ''"
    using last_trimmed [of "\<lambda>c. c = CHR '' ''" ?m] by (simp only: connection_error_message_def)
qed

text \<open>The status and the state after a number of polls.\<close>

primrec polled :: "('p, 'r) libpq \<Rightarrow> nat \<Rightarrow> 'p \<Rightarrow> 'p" where
  "polled pq 0 p = p"
| "polled pq (Suc n) p = polled pq n (snd (PQconnectPoll pq p))"

definition poll_status :: "('p, 'r) libpq \<Rightarrow> nat \<Rightarrow> 'p \<Rightarrow> polling_status" where
  "poll_status pq n p = fst (PQconnectPoll pq (polled pq n p))"

text \<open>The polling succeeds at poll number \<open>n\<close>: every wait up to it completed without an
  error, and every poll before it asked for another wait.\<close>

definition polls_until_ok :: "('p, 'r) libpq \<Rightarrow> error_code list \<Rightarrow> 'p \<Rightarrow> nat \<Rightarrow> bool" where
  "polls_until_ok pq ecs p n \<longleftrightarrow> n < length ecs \<and> list_all (\<lambda>ec. \<not> failed ec) (take (Suc n) ecs)
     \<and> list_all (\<lambda>k. poll_status pq k p \<in> {PGRES_POLLING_READING, PGRES_POLLING_WRITING}) [0..<n]
     \<and> poll_status pq n p = PGRES_POLLING_OK"

lemma polls_until_ok_Cons:
  "polls_until_ok pq (ec # ecs) p n \<longleftrightarrow> \<not> failed ec \<and>
     (case n of
        0 \<Rightarrow> fst (PQconnectPoll pq p) = PGRES_POLLING_OK
      | Suc m \<Rightarrow> fst (PQconnectPoll pq p) \<in> {PGRES_POLLING_READING, PGRES_POLLING_WRITING}
          \<and> polls_until_ok pq ecs (snd (PQconnectPoll pq p)) m)"
proof (cases n)
  case (Suc m)
  have "[0..<Suc m] = 0 # map Suc [0..<m]" by (simp add: upt_conv_Cons map_Suc_upt del: upt_Suc)
  then show ?thesis unfolding Suc polls_until_ok_def
    by (simp add: list.pred_map comp_def poll_status_def conj_ac del: upt_Suc)
qed (simp add: polls_until_ok_def poll_status_def)

lemma connect_run_success:
  assumes "conn_handle c = Some p" "a \<in> {Wait_write, Wait_read}"
  shows "connect_run pq ecs (a, c) = (Connected Success, c') \<longleftrightarrow>
    (\<exists>n. polls_until_ok pq ecs p n \<and> c' = c\<lparr>conn_handle := Some (polled pq (Suc n) p)\<rparr>)"
  using assms
proof (induction ecs arbitrary: a c p)
  case Nil
  then show ?case by (auto simp: polls_until_ok_def)
next
  case (Cons ec ecs)
  obtain st p' where poll: "PQconnectPoll pq p = (st, p')" by force
  let ?c = "c\<lparr>conn_handle := Some p'\<rparr>"
  have IH: "b \<in> {Wait_write, Wait_read} \<Longrightarrow> connect_run pq ecs (b, ?c) = (Connected Success, c') \<longleftrightarrow>
      (\<exists>n. polls_until_ok pq ecs p' n \<and> c' = ?c\<lparr>conn_handle := Some (polled pq (Suc n) p')\<rparr>)" for b
    by (rule Cons.IH) simp_all
  have shift: "polled pq (Suc k) p = polled pq k p'" for k
    by (simp add: poll)
  have ex: "(\<exists>n. Q n) \<longleftrightarrow> Q 0 \<or> (\<exists>n. Q (Suc n))" for Q :: "nat \<Rightarrow> bool" by (metis not0_implies_Suc)
  have a: "connect_run pq (ec # ecs) (a, c) = connect_run pq ecs (connect_resume pq ec c)"
    using Cons.prems by auto
  show ?case
    unfolding a by (subst ex, cases st) (auto simp: connect_resume_def connect_poll_def on_handle_def Cons.prems poll IH
        polls_until_ok_Cons shift)
qed

text \<open>C7: a connection is reported as established exactly when libpq started it with a
  good status and a socket, every wait completed without an error, and the polls asked
  for waits until one of them reported that the connection is ready; the connection object then
  holds the polled handle and its socket.\<close>

theorem async_connect_success:
  "async_connect pq conninfo ecs (make_connection m) = (Connected Success, c') \<longleftrightarrow>
    (\<exists>p n. PQconnectStart pq conninfo = Some p \<and> PQstatus pq p \<noteq> CONNECTION_BAD \<and> PQsocket pq p \<noteq> - 1
       \<and> polls_until_ok pq ecs p n
       \<and> c' = (make_connection m)\<lparr>conn_socket := Some (PQsocket pq p), conn_handle := Some (polled pq (Suc n) p)\<rparr>)"
proof (cases "PQconnectStart pq conninfo")
  case None
  then show ?thesis by (simp add: async_connect_def connect_perform_def)
next
  case (Some p)
  let ?c = "(make_connection m)\<lparr>conn_socket := Some (PQsocket pq p), conn_handle := Some p\<rparr>"
  have run: "connect_run pq ecs (Wait_write, ?c) = (Connected Success, c') \<longleftrightarrow>
      (\<exists>n. polls_until_ok pq ecs p n \<and> c' = ?c\<lparr>conn_handle := Some (polled pq (Suc n) p)\<rparr>)"
    by (rule connect_run_success) simp_all
  have c: "release_socket (make_connection m) = make_connection m"
    by (simp add: release_socket_def make_connection_def)
  show ?thesis using run by (auto simp: async_connect_def connect_perform_def Some connection_status_bad_def
      assign_def Let_def c split: if_splits)
qed

text \<open>An error of a wait is reported as it is, and the connection then has an error context.\<close>

lemma connect_resume_error:
  "failed ec \<Longrightarrow> connect_resume pq ec c = (a, c') \<Longrightarrow> a = Connected ec \<and> error_context c' \<noteq> []"
  by (auto simp: connect_resume_def set_error_context_def split: if_splits)

section \<open>A sample of libpq\<close>

text \<open>A libpq for which a query blocks when it is flushed and which has the complete
  response after the first read.\<close>

definition sample_libpq :: "(nat, exec_status) libpq" where
  "sample_libpq = \<lparr>PQconnectStart = (\<lambda>_. Some 0), PQconnectPoll = (\<lambda>p. (PGRES_POLLING_OK, p)),
     PQstatus = (\<lambda>_. CONNECTION_OK), PQsocket = (\<lambda>_. 5), PQerrorMessage = (\<lambda>_. []),
     PQtransactionStatus = (\<lambda>_. PQTRANS_IDLE), PQsetnonblocking = (\<lambda>p. (0, p)),
     PQsendQueryParams = (\<lambda>q p. (1, p)), PQflush = (\<lambda>p. (1, p)), PQisBusy = (\<lambda>p. p = 0),
     PQconsumeInput = (\<lambda>p. (1, 1)), PQgetResult = (\<lambda>p. if p = 1 then (Some PGRES_COMMAND_OK, 2) else (None, p)),
     PQresultStatus = (\<lambda>r. r), PQresultSqlstate = (\<lambda>_. None)\<rparr>"

end
