(* ===== verification/Pool_Handle.thy ===== *)
theory Pool_Handle
  imports Async_Pool
begin

text \<open>
  The handle through which a client owns a cell (\<open>handle.hpp\<close>), the asynchronous pool's
  conversion of a completion into a handle (\<open>async/pool.hpp\<close>) and the synchronous pool
  (\<open>sync/pool.hpp\<close>, \<open>sync/detail/pool_impl.hpp\<close>).
\<close>

section \<open>Handles\<close>

datatype use_strategy = Use_recycle | Use_waste

text \<open>The outer None of \<open>hd_resource\<close> is an unusable handle; the inner None a default
  constructed list iterator, which refers to no cell.\<close>

record handle =
  hd_strategy :: use_strategy
  hd_resource :: "nat option option"

datatype handle_error = Empty_handle | Unusable_handle | Invalid_iterator

text \<open>The interface \<open>pool_returns\<close> a handle has of its pool.\<close>

record 's pool_returns =
  returns_recycle :: "nat \<Rightarrow> 's \<Rightarrow> 's"
  returns_waste :: "nat \<Rightarrow> 's \<Rightarrow> 's"

definition make_handle :: "use_strategy \<Rightarrow> nat option \<Rightarrow> handle" where
  "make_handle how it = \<lparr>hd_strategy = how, hd_resource = Some it\<rparr>"

definition null_handle :: handle where
  "null_handle = \<lparr>hd_strategy = Use_recycle, hd_resource = None\<rparr>"

definition unusable :: "handle \<Rightarrow> bool" where
  "unusable h \<longleftrightarrow> hd_resource h = None"

definition handle_empty :: "(nat \<Rightarrow> 'v idle) \<Rightarrow> handle \<Rightarrow> handle_error + bool" where
  "handle_empty cells h = (case hd_resource h of
     None \<Rightarrow> Inr True
   | Some None \<Rightarrow> Inl Invalid_iterator
   | Some (Some c) \<Rightarrow> Inr (idle_value (cells c) = None))"

definition handle_get :: "(nat \<Rightarrow> 'v idle) \<Rightarrow> handle \<Rightarrow> handle_error + 'v" where
  "handle_get cells h = (case hd_resource h of
     None \<Rightarrow> Inl Empty_handle
   | Some None \<Rightarrow> Inl Invalid_iterator
   | Some (Some c) \<Rightarrow> (case idle_value (cells c) of None \<Rightarrow> Inl Empty_handle | Some v \<Rightarrow> Inr v))"

fun return_cell :: "'s pool_returns \<Rightarrow> use_strategy \<Rightarrow> nat \<Rightarrow> 's \<Rightarrow> 's" where
  "return_cell pool Use_recycle c s = returns_recycle pool c s"
| "return_cell pool Use_waste c s = returns_waste pool c s"

text \<open>\<open>recycle\<close> and \<open>waste\<close>.\<close>

definition handle_return :: "'s pool_returns \<Rightarrow> use_strategy \<Rightarrow> handle \<Rightarrow> 's \<Rightarrow> handle_error + (handle \<times> 's)" where
  "handle_return pool how h s = (case hd_resource h of
     None \<Rightarrow> Inl Unusable_handle
   | Some None \<Rightarrow> Inl Invalid_iterator
   | Some (Some c) \<Rightarrow> Inr (h\<lparr>hd_resource := None\<rparr>, return_cell pool how c s))"

definition handle_reset :: "time \<Rightarrow> 'v \<Rightarrow> handle \<Rightarrow> (nat \<Rightarrow> 'v idle) \<Rightarrow> handle_error + (nat \<Rightarrow> 'v idle)" where
  "handle_reset now v h cells = (case hd_resource h of
     None \<Rightarrow> Inl Unusable_handle
   | Some None \<Rightarrow> Inl Invalid_iterator
   | Some (Some c) \<Rightarrow> Inr (cells(c := (cells c)\<lparr>idle_value := Some v, reset_time := now\<rparr>)))"

definition handle_destroy :: "'s pool_returns \<Rightarrow> handle \<Rightarrow> 's \<Rightarrow> handle_error + 's" where
  "handle_destroy pool h s =
    (if unusable h then Inr s else map_sum id snd (handle_return pool (hd_strategy h) h s))"

text \<open>The moved-from handle is the second component.\<close>

definition handle_move :: "handle \<Rightarrow> handle \<times> handle" where
  "handle_move other = (other, other\<lparr>hd_resource := None\<rparr>)"

definition handle_assign :: "'s pool_returns \<Rightarrow> handle \<Rightarrow> handle \<Rightarrow> 's \<Rightarrow> handle_error + (handle \<times> handle \<times> 's)" where
  "handle_assign pool h other s = bindR (handle_destroy pool h s) (\<lambda>s'. Inr (other, other\<lparr>hd_resource := None\<rparr>, s'))"

text \<open>\<open>on_get_handler\<close>: an error comes with a handle that owns nothing.\<close>

definition on_get_handler :: "use_strategy \<Rightarrow> 'h completion \<Rightarrow> error_code \<times> handle" where
  "on_get_handler how = (\<lambda>(h, ec, cell). (ec, if failed ec then null_handle else make_handle how cell))"

section \<open>The life of a handle\<close>

datatype handle_call = Call_recycle | Call_waste | Call_move

text \<open>Calls on a handle, after which it is destroyed. A call that throws changes nothing;
  a moved handle is destroyed too.\<close>

fun handle_life :: "'s pool_returns \<Rightarrow> handle_call list \<Rightarrow> handle \<Rightarrow> 's \<Rightarrow> handle_error + 's" where
  "handle_life pool [] h s = handle_destroy pool h s"
| "handle_life pool (Call_recycle # cs) h s = (case handle_return pool Use_recycle h s of
     Inr (h', s') \<Rightarrow> handle_life pool cs h' s'
   | Inl Invalid_iterator \<Rightarrow> Inl Invalid_iterator
   | Inl _ \<Rightarrow> handle_life pool cs h s)"
| "handle_life pool (Call_waste # cs) h s = (case handle_return pool Use_waste h s of
     Inr (h', s') \<Rightarrow> handle_life pool cs h' s'
   | Inl Invalid_iterator \<Rightarrow> Inl Invalid_iterator
   | Inl _ \<Rightarrow> handle_life pool cs h s)"
| "handle_life pool (Call_move # cs) h s = (case handle_move h of
     (h', old) \<Rightarrow> bindR (handle_destroy pool old s) (handle_life pool cs h'))"

text \<open>How the cell goes back: by the first explicit call, else by the strategy.\<close>

fun first_return :: "use_strategy \<Rightarrow> handle_call list \<Rightarrow> use_strategy" where
  "first_return how [] = how"
| "first_return how (Call_recycle # cs) = Use_recycle"
| "first_return how (Call_waste # cs) = Use_waste"
| "first_return how (Call_move # cs) = first_return how cs"

lemma handle_life_unusable: "unusable h \<Longrightarrow> handle_life pool cs h s = Inr s"
  by (induction pool cs h s rule: handle_life.induct)
    (auto simp: unusable_def handle_destroy_def handle_return_def handle_move_def)

text \<open>C10: a handle gives its cell back exactly once, whatever is called on it before it is
  destroyed and however often it is moved: by the first explicit call, or else as its
  strategy says.\<close>

theorem handle_returns_once:
  assumes "hd_resource h = Some (Some c)"
  shows "handle_life pool cs h s = Inr (return_cell pool (first_return (hd_strategy h) cs) c s)"
  using assms
proof (induction pool cs h s rule: handle_life.induct)
  case (4 pool cs h s)
  have "unusable (h\<lparr>hd_resource := None\<rparr>)" by (simp add: unusable_def)
  then have "handle_life pool (Call_move # cs) h s = handle_life pool cs h s"
    by (simp add: handle_move_def handle_destroy_def)
  then show ?case using "4.IH" "4.prems" by (simp add: handle_move_def handle_destroy_def unusable_def)
qed (simp_all add: handle_destroy_def handle_return_def unusable_def handle_life_unusable)

theorem handle_returns_once_witness:
  "handle_life \<lparr>returns_recycle = (\<lambda>c l. c # l), returns_waste = (\<lambda>c l. l)\<rparr> [Call_move, Call_recycle, Call_waste]
     (make_handle Use_waste (Some 3)) [] = Inr [3]"
  by (subst handle_returns_once [of _ 3]) (simp_all add: make_handle_def)

section \<open>The synchronous pool\<close>

record 'v sync_pool =
  sp_storage :: "'v storage"
  sp_capacity :: nat
  sp_disabled :: bool
  sp_notified :: nat

definition make_sync_pool :: "nat \<Rightarrow> int \<Rightarrow> int \<Rightarrow> 'v sync_pool option" where
  "make_sync_pool capacity timeout span = map_option (\<lambda>capacity.
     \<lparr>sp_storage = make_storage capacity timeout span, sp_capacity = capacity, sp_disabled = False, sp_notified = 0\<rparr>)
     (assert_capacity capacity)"

definition sync_recycle :: "time \<Rightarrow> nat \<Rightarrow> 'v sync_pool \<Rightarrow> 'v sync_pool" where
  "sync_recycle now c p = p\<lparr>sp_storage := storage_recycle now c (sp_storage p), sp_notified := Suc (sp_notified p)\<rparr>"

definition sync_waste :: "nat \<Rightarrow> 'v sync_pool \<Rightarrow> 'v sync_pool" where
  "sync_waste c p = p\<lparr>sp_storage := storage_waste c (sp_storage p), sp_notified := Suc (sp_notified p)\<rparr>"

definition sync_disable :: "'v sync_pool \<Rightarrow> 'v sync_pool" where
  "sync_disable p = p\<lparr>sp_disabled := True, sp_notified := Suc (sp_notified p)\<rparr>"

definition sync_invalidate :: "'v sync_pool \<Rightarrow> 'v sync_pool" where
  "sync_invalidate p = p\<lparr>sp_storage := storage_invalidate (sp_storage p)\<rparr>"

text \<open>What each wait of \<open>get\<close> on the condition variable ends with: None is a time-out, Some
  the clock and the pool at the time the lock is held again. The result is None while
  the call waits.\<close>

fun sync_get :: "(time \<times> 'v sync_pool) option list \<Rightarrow> time \<Rightarrow> 'v sync_pool \<Rightarrow> (error_code \<times> nat option \<times> 'v sync_pool) option" where
  "sync_get ws now p =
    (if sp_disabled p then Some (Pool_error pool_disabled, None, p)
     else (case lease now (sp_storage p) of
       (Some c, st) \<Rightarrow> Some (Success, Some c, p\<lparr>sp_storage := st\<rparr>)
     | (None, st) \<Rightarrow> (case ws of
         [] \<Rightarrow> None
       | None # _ \<Rightarrow> Some (Pool_error get_resource_timeout, None, p\<lparr>sp_storage := st\<rparr>)
       | Some (now', p') # ws' \<Rightarrow> sync_get ws' now' p')))"

declare sync_get.simps [simp del]

definition sync_get_handle ::
  "use_strategy \<Rightarrow> (time \<times> 'v sync_pool) option list \<Rightarrow> time \<Rightarrow> 'v sync_pool \<Rightarrow> (error_code \<times> handle \<times> 'v sync_pool) option" where
  "sync_get_handle how ws now p = map_option (\<lambda>(ec, it, p'). (ec, make_handle how it, p')) (sync_get ws now p)"

definition sync_returns :: "time \<Rightarrow> 'v sync_pool pool_returns" where
  "sync_returns now = \<lparr>returns_recycle = sync_recycle now, returns_waste = sync_waste\<rparr>"

text \<open>A call of \<open>get\<close> ends with a cell exactly when it ends without an error, and the cell was free.\<close>

lemma sync_get_outcome:
  "sync_get ws now p = Some (ec, it, p') \<Longrightarrow> (failed ec \<longleftrightarrow> it = None) \<and> (it = None \<longrightarrow> ec \<in> {Pool_error pool_disabled, Pool_error get_resource_timeout})"
  by (induction ws now p rule: sync_get.induct)
    (subst (asm) sync_get.simps, auto split: if_splits prod.splits option.splits list.splits)

text \<open>C39: the handle the synchronous pool returns with an error is not unusable: it holds a
  default constructed list iterator, and destroying it passes that iterator to the pool.\<close>

theorem sync_error_handle_invalid:
  assumes "sync_get_handle how ws now p = Some (ec, h, p')" "failed ec"
  shows "\<not> unusable h \<and> handle_destroy (sync_returns now') h p' = Inl Invalid_iterator"
proof -
  have "h = make_handle how None"
    using assms sync_get_outcome [of ws now p] by (auto simp: sync_get_handle_def)
  then show ?thesis by (simp add: make_handle_def unusable_def handle_destroy_def handle_return_def)
qed

theorem sync_error_handle_invalid_witness:
  "\<exists>h p'. sync_get_handle Use_waste [] 0 (sync_disable \<lparr>sp_storage = tiny_storage [0] [], sp_capacity = 1, sp_disabled = False, sp_notified = 0\<rparr>)
      = Some (Pool_error pool_disabled, h, p') \<and> handle_destroy (sync_returns 0) h p' = Inl Invalid_iterator"
  using sync_error_handle_invalid [of Use_waste "[]" 0 "sync_disable \<lparr>sp_storage = tiny_storage [0] [], sp_capacity = 1, sp_disabled = False, sp_notified = 0\<rparr>"
      "Pool_error pool_disabled"]
  by (simp add: sync_get_handle_def sync_get.simps sync_disable_def)

end
