(* ===== verification/Connection_Pool.thy ===== *)
theory Connection_Pool
  imports Connection Pool_Handle
begin

text \<open>
  The connection pool: \<open>connection_pool.h\<close>, \<open>impl/connection_pool.h\<close>, and the binding of a
  time-out to a provider in \<open>connector.h\<close>. The resource in a cell of the pool is a
  \<open>connection_rep\<close>. A connection source is asked for a connection when the cell has none
  that can be used.
\<close>

section \<open>Pooled connections\<close>

record 'p connection_rep =
  rep_handle :: "'p option"
  rep_oid_map :: oid_map
  rep_error_context :: string

record connection_pool_config =
  cfg_capacity :: nat
  cfg_queue_capacity :: nat
  cfg_idle_timeout :: int
  cfg_lifespan :: int

text \<open>Durations are in nanoseconds, the ticks of \<open>steady_clock\<close>.\<close>

definition default_config :: connection_pool_config where
  "default_config = \<lparr>cfg_capacity = 10, cfg_queue_capacity = 128,
     cfg_idle_timeout = 60 * 10 ^ 9, cfg_lifespan = 24 * 3600 * 10 ^ 9\<rparr>"

type_synonym ('p, 'h) conn_pool = "('p connection_rep, 'h) pool"

definition make_connection_pool :: "connection_pool_config \<Rightarrow> ('p, 'h) conn_pool option" where
  "make_connection_pool cfg = make_pool (cfg_capacity cfg) (cfg_queue_capacity cfg) (cfg_idle_timeout cfg) (cfg_lifespan cfg)"

text \<open>How long a request may wait in the queue.\<close>

fun queue_timeout :: "time_constraint \<Rightarrow> time \<Rightarrow> int" where
  "queue_timeout (Time_point at) now = time_left at now"
| "queue_timeout (Duration t) now = t"
| "queue_timeout No_constraint now = 0"

text \<open>What the pool's handler does with the cell it is given: report an error, hand out the
  connection in the cell, or ask the source for a new one.\<close>

datatype 'p pooled_action = Fail error_code | Reuse "'p connection_rep" | Ask_source

definition pooled_connection_wrapper ::
  "('p, 'r) libpq \<Rightarrow> error_code \<Rightarrow> 'p connection_rep option \<Rightarrow> 'p pooled_action" where
  "pooled_connection_wrapper pq ec value =
    (if failed ec then Fail ec
     else (case value of
        Some rep \<Rightarrow> if \<not> connection_status_bad pq (rep_handle rep) then Reuse rep else Ask_source
      | None \<Rightarrow> Ask_source))"

text \<open>The answer of the source: its connection is moved into the cell, a null connection
  leaves the cell as it is. The result is the code for the handler, whether it gets a
  connection, and the content of the cell.\<close>

definition wrapper_call ::
  "error_code \<Rightarrow> 'p connection option \<Rightarrow> 'p connection_rep option \<Rightarrow> error_code \<times> bool \<times> 'p connection_rep option" where
  "wrapper_call ec conn value = (case conn of
     Some target \<Rightarrow> (ec, True, Some \<lparr>rep_handle = fst (release target), rep_oid_map = conn_oid_map target,
        rep_error_context = error_context target\<rparr>)
   | None \<Rightarrow> (ec, False, value))"

definition pooled_native_handle :: "'p connection_rep option \<Rightarrow> 'p option" where
  "pooled_native_handle value = (case value of None \<Rightarrow> None | Some rep \<Rightarrow> rep_handle rep)"

definition pooled_is_bad :: "('p, 'r) libpq \<Rightarrow> 'p connection_rep option \<Rightarrow> bool" where
  "pooled_is_bad pq value \<longleftrightarrow> \<not> connection_status_ok pq (pooled_native_handle value)"

definition pooled_close :: "'p connection_rep \<Rightarrow> 'p connection_rep" where
  "pooled_close rep = rep\<lparr>rep_handle := None\<rparr>"

definition pooled_transaction_status :: "('p, 'r) libpq \<Rightarrow> 'p connection_rep \<Rightarrow> transaction_status result" where
  "pooled_transaction_status pq rep =
    get_transaction_status pq (Some ((make_connection (rep_oid_map rep))\<lparr>conn_handle := rep_handle rep\<rparr>))"

text \<open>The destructor of \<open>pooled_connection\<close>, followed by that of its handle: a connection
  that is bad or not idle is wasted, any other recycled.\<close>

definition pooled_destroy ::
  "('p, 'r) libpq \<Rightarrow> time \<Rightarrow> nat \<Rightarrow> ('p, 'h) conn_pool \<Rightarrow> 'h completion list \<times> ('p, 'h) conn_pool" where
  "pooled_destroy pq now c p = (case idle_value (st_cell (pl_storage p) c) of
     Some rep \<Rightarrow> if pooled_is_bad pq (Some rep) \<or> pooled_transaction_status pq rep \<noteq> Inr Trans_idle
                 then pool_waste c p else pool_recycle now c p
   | None \<Rightarrow> pool_recycle now c p)"

section \<open>Time-outs of providers\<close>

fun bind_timeout :: "int \<Rightarrow> time_constraint \<Rightarrow> time \<Rightarrow> int" where
  "bind_timeout limit No_constraint now = limit"
| "bind_timeout limit (Time_point t) now = min limit (time_left t now)"
| "bind_timeout limit (Duration t) now = min limit t"

text \<open>The latest times at which the pool may stop waiting for a cell, when the request comes
  at \<open>now\<close>, and at which the source may stop connecting, when the cell comes at \<open>now'\<close>.\<close>

definition queue_deadline :: "time_constraint \<Rightarrow> time \<Rightarrow> time" where
  "queue_deadline t now = add_time now (queue_timeout t now)"

definition source_deadline :: "time_constraint \<Rightarrow> time \<Rightarrow> time_constraint" where
  "source_deadline t now' = deadline t now'"

section \<open>Properties\<close>

text \<open>A connection that can be handed to the next client.\<close>

definition reusable :: "('p, 'r) libpq \<Rightarrow> 'p connection_rep \<Rightarrow> bool" where
  "reusable pq rep \<longleftrightarrow> (case rep_handle rep of None \<Rightarrow> False
     | Some h \<Rightarrow> PQstatus pq h = CONNECTION_OK \<and> PQtransactionStatus pq h = PQTRANS_IDLE)"

lemma reusable_iff:
  "reusable pq rep \<longleftrightarrow> \<not> pooled_is_bad pq (Some rep) \<and> pooled_transaction_status pq rep = Inr Trans_idle"
  by (auto simp: reusable_def pooled_is_bad_def pooled_native_handle_def connection_status_ok_def
      pooled_transaction_status_def get_transaction_status_def split: option.splits pq_transaction_status.splits)

lemma waste_value: "idle_value (st_cell (pl_storage (snd (pool_waste c p))) c) = None"
  by (simp add: pool_waste_def storage_waste_def Let_def split: prod.splits option.splits)

lemma recycle_value:
  "idle_value (st_cell (pl_storage (snd (pool_recycle now c p))) c) =
    (if is_valid now c (pl_storage p) then idle_value (st_cell (pl_storage p) c) else None)"
  by (auto simp: pool_recycle_def storage_recycle_def storage_waste_def is_valid_def Let_def
      split: prod.splits option.splits)

text \<open>C6: a connection given back to the pool is kept for the next client, or for the
  request at the head of the queue, exactly when libpq reports it established and idle,
  the pool was not invalidated since and the life span is not over; otherwise its cell is
  empty and the next client gets a new connection from the source.\<close>

theorem pooled_connection_kept:
  assumes "idle_value (st_cell (pl_storage p) c) = Some rep"
  shows "idle_value (st_cell (pl_storage (snd (pooled_destroy pq now c p))) c) =
      (if reusable pq rep \<and> is_valid now c (pl_storage p) then Some rep else None)
    \<and> (pooled_connection_wrapper pq Success (idle_value (st_cell (pl_storage (snd (pooled_destroy pq now c p))) c))
        = (if reusable pq rep \<and> is_valid now c (pl_storage p) then Reuse rep else Ask_source))"
proof -
  have v: "idle_value (st_cell (pl_storage (snd (pooled_destroy pq now c p))) c) =
      (if reusable pq rep \<and> is_valid now c (pl_storage p) then Some rep else None)"
    using assms by (simp add: pooled_destroy_def waste_value recycle_value reusable_iff)
  moreover have "reusable pq rep \<Longrightarrow> \<not> connection_status_bad pq (rep_handle rep)"
    by (simp add: reusable_def connection_status_bad_def split: option.splits)
  ultimately show ?thesis by (simp add: pooled_connection_wrapper_def)
qed

definition sample_rep :: "nat connection_rep" where
  "sample_rep = \<lparr>rep_handle = Some 0, rep_oid_map = [], rep_error_context = []\<rparr>"

definition sample_conn_pool :: "(nat, nat) conn_pool" where
  "sample_conn_pool = \<lparr>pl_storage = \<lparr>idle_timeout = 10, lifespan = 10, available = [], used = [0], wasted = [],
      st_cell = (\<lambda>_. \<lparr>idle_value = Some sample_rep, drop_time = 10, reset_time = 0, waste_on_recycle = False\<rparr>)\<rparr>,
     pl_capacity = 1, pl_queue = make_queue 1, pl_disabled = False\<rparr>"

theorem pooled_connection_kept_witness:
  "let pq = sample_libpq\<lparr>PQtransactionStatus := (\<lambda>p. PQTRANS_INTRANS)\<rparr> in
    idle_value (st_cell (pl_storage (snd (pooled_destroy pq 5 0 sample_conn_pool))) 0) = None
    \<and> idle_value (st_cell (pl_storage (snd (pooled_destroy sample_libpq 5 0 sample_conn_pool))) 0) = Some sample_rep"
proof -
  have v: "idle_value (st_cell (pl_storage sample_conn_pool) 0) = Some sample_rep" by (simp add: sample_conn_pool_def)
  have "is_valid 5 0 (pl_storage sample_conn_pool)"
    by (simp add: sample_conn_pool_def is_valid_def add_time_def int64_max_def)
  moreover have "reusable sample_libpq sample_rep"
    "\<not> reusable (sample_libpq\<lparr>PQtransactionStatus := (\<lambda>p. PQTRANS_INTRANS)\<rparr>) sample_rep"
    by (simp_all add: sample_libpq_def sample_rep_def reusable_def)
  ultimately show ?thesis
    using pooled_connection_kept [OF v, of sample_libpq 5]
      pooled_connection_kept [OF v, of "sample_libpq\<lparr>PQtransactionStatus := (\<lambda>p. PQTRANS_INTRANS)\<rparr>" 5]
    by simp
qed



end
