(* ===== verification/Query_Conf.thy ===== *)
theory Query_Conf
  imports Base36 Error_Codes
begin

text \<open>
  The query configuration: \<open>query_conf.h\<close>. A configuration is a text in which comment
  lines name queries and the lines after them are the text of the query, with
  parameters written \<open>:name\<close>. The grammars of Boost.Spirit are recursive functions here:
  alternatives are tried in order, and the skipper, which drops zero characters, runs before
  every primitive outside \<open>lexeme\<close> and once before a \<open>lexeme\<close>. A query declared
  by the program is its name and the description of its parameters type.
\<close>

section \<open>Lines\<close>

abbreviation nul :: char where "nul \<equiv> CHR 0x00"
abbreviation CR :: char where "CR \<equiv> CHR 0x0D"
abbreviation LF :: char where "LF \<equiv> CHR 0x0A"

datatype query_line = Line_comment string | Line_text string

definition skip_nul :: "string \<Rightarrow> string" where
  "skip_nul s = dropWhile (\<lambda>c. c = nul) s"

definition not_eol :: "char \<Rightarrow> bool" where
  "not_eol c \<longleftrightarrow> c \<noteq> CR \<and> c \<noteq> LF"

text \<open>The rule \<open>end\<close>: the line end and the rest.\<close>

definition parse_end :: "string \<Rightarrow> (string \<times> string) option" where
  "parse_end s = (case s of
     [] \<Rightarrow> None
   | c # r \<Rightarrow>
       if c = CR then (case r of
          [] \<Rightarrow> Some ([CR], r)
        | d # r' \<Rightarrow> if d = LF then Some ([CR, LF], r') else Some ([CR], r))
       else if c = LF then Some ([LF], r) else None)"

text \<open>The three alternatives of the rule \<open>line\<close>.\<close>

definition parse_comment :: "string \<Rightarrow> (query_line \<times> string) option" where
  "parse_comment s = (if take 2 s = ''--'' then
     let body = takeWhile not_eol (drop 2 s); rest = dropWhile not_eol (drop 2 s) in
     (case parse_end rest of
        Some (e, rest') \<Rightarrow> Some (Line_comment (''--'' @ body @ e), rest')
      | None \<Rightarrow> if rest = [] then Some (Line_comment (''--'' @ body), []) else None)
     else None)"

definition parse_text_line :: "string \<Rightarrow> (query_line \<times> string) option" where
  "parse_text_line s = (case parse_end (dropWhile not_eol s) of
     Some (e, rest) \<Rightarrow> Some (Line_text (takeWhile not_eol s @ e), rest)
   | None \<Rightarrow> None)"

definition parse_last_line :: "string \<Rightarrow> (query_line \<times> string) option" where
  "parse_last_line s = (if takeWhile not_eol s \<noteq> [] \<and> skip_nul (dropWhile not_eol s) = []
     then Some (Line_text (takeWhile not_eol s), []) else None)"

definition parse_line :: "string \<Rightarrow> (query_line \<times> string) option" where
  "parse_line s = (let s = skip_nul s in
     (case parse_comment s of
        Some r \<Rightarrow> Some r
      | None \<Rightarrow> (case parse_text_line s of Some r \<Rightarrow> Some r | None \<Rightarrow> parse_last_line s)))"

lemma length_skip_nul: "length (skip_nul s) \<le> length s"
  by (simp add: skip_nul_def length_dropWhile_le)

lemma parse_end_shorter: "parse_end s = Some (e, r) \<Longrightarrow> length r < length s \<and> s = e @ r"
  by (auto simp: parse_end_def split: list.splits if_splits)

lemma parse_comment_shorter:
  assumes "parse_comment t = Some (l, r)"
  shows "length r < length t"
proof -
  have "take 2 t = ''--''" using assms by (simp add: parse_comment_def split: if_splits)
  then have "length (take 2 t) = 2" by simp
  then have t: "length (drop 2 t) < length t" by simp
  show ?thesis
  proof (cases "parse_end (dropWhile not_eol (drop 2 t))")
    case None
    then show ?thesis using assms t by (cases t) (simp_all add: parse_comment_def split: if_splits)
  next
    case (Some er)
    then have "parse_end (dropWhile not_eol (drop 2 t)) = Some (fst er, r)"
      using assms by (cases er) (simp add: parse_comment_def split: if_splits)
    from parse_end_shorter [OF this] length_dropWhile_le [of not_eol "drop 2 t"] t show ?thesis by linarith
  qed
qed

lemma parse_text_line_shorter:
  assumes "parse_text_line t = Some (l, r)"
  shows "length r < length t"
proof -
  obtain e where "parse_end (dropWhile not_eol t) = Some (e, r)"
    using assms by (auto simp: parse_text_line_def split: option.splits)
  from parse_end_shorter [OF this] length_dropWhile_le [of not_eol t] show ?thesis by linarith
qed

lemma parse_line_shorter:
  assumes "parse_line s = Some (l, r)"
  shows "length r < length s"
proof -
  have "length r < length t" if "parse_last_line t = Some (l, r)" for t
    using that by (cases t) (simp_all add: parse_last_line_def split: if_splits)
  then have "length r < length (skip_nul s)"
    using assms parse_comment_shorter parse_text_line_shorter unfolding parse_line_def Let_def
    by (fastforce split: option.splits)
  then show ?thesis using length_skip_nul [of s] by linarith
qed

text \<open>The rule \<open>conf\<close>.\<close>

function parse_query_conf_lines :: "string \<Rightarrow> query_line list result" where
  "parse_query_conf_lines s = (case parse_line s of
     Some (l, r) \<Rightarrow> bindR (parse_query_conf_lines r) (\<lambda>ls. Inr (l # ls))
   | None \<Rightarrow> if skip_nul s = [] then Inr [] else Inl Invalid_Argument)"
  by pat_completeness auto
termination
  by (relation "measure length") (auto dest: parse_line_shorter)

declare parse_query_conf_lines.simps [simp del]

section \<open>Headers\<close>

definition skip_space :: "string \<Rightarrow> string" where
  "skip_space s = dropWhile (\<lambda>c. is_space c \<or> c = nul) s"

definition expect :: "string \<Rightarrow> string \<Rightarrow> string option" where
  "expect lit s = (let s = skip_nul s in if take (length lit) s = lit then Some (drop (length lit) s) else None)"

definition drop_eol :: "string \<Rightarrow> string" where
  "drop_eol s = (case parse_end (skip_nul s) of Some (e, r) \<Rightarrow> r | None \<Rightarrow> skip_nul s)"

definition parse_header :: "string \<Rightarrow> string option" where
  "parse_header s = Option.bind (expect ''--'' s) (\<lambda>s. Option.bind (expect ''name'' (skip_space s)) (\<lambda>s.
     Option.bind (expect '':'' (skip_space s)) (\<lambda>s.
       let s = skip_space s; name = takeWhile not_eol s in
       if name \<noteq> [] \<and> skip_nul (drop_eol (dropWhile not_eol s)) = [] then Some name else None)))"

section \<open>Text\<close>

datatype query_text_element = Text_part string | Parameter_name string

definition word_char :: "char \<Rightarrow> bool" where
  "word_char c = (let n = of_char c :: int in
     n = 95 \<or> 48 \<le> n \<and> n \<le> 57 \<or> 65 \<le> n \<and> n \<le> 90 \<or> 97 \<le> n \<and> n \<le> 122)"

fun text_part :: "string \<Rightarrow> string \<times> string" where
  "text_part [] = ([], [])"
| "text_part (c # r) =
    (if c = nul then text_part r
     else if c \<noteq> CHR '':'' then apfst ((#) c) (text_part r)
     else (case r of
        [] \<Rightarrow> ([], c # r)
      | d # r' \<Rightarrow> if d = CHR '':'' \<or> d = CHR ''='' then apfst (\<lambda>w. c # d # w) (text_part r') else ([], c # r)))"

definition parameter_name :: "string \<Rightarrow> (string \<times> string) option" where
  "parameter_name s = (case s of
     [] \<Rightarrow> None
   | c # r \<Rightarrow> let r = skip_nul r; name = takeWhile word_char r in
       if c = CHR '':'' \<and> name \<noteq> [] then Some (name, dropWhile word_char r) else None)"

lemma text_part_length: "length (fst (text_part s)) + length (snd (text_part s)) \<le> length s"
proof (induction s rule: text_part.induct)
  case (2 c r)
  consider "c = nul" | "c \<noteq> nul" "c \<noteq> CHR '':''" | "c = CHR '':''" by blast
  then show ?case
  proof cases
    case 1
    then show ?thesis using 2(1) by simp
  next
    case 2
    then show ?thesis using "2.IH"(2) by simp
  next
    case 3
    then show ?thesis
    proof (cases r)
      case (Cons d r')
      then show ?thesis using 3 "2.IH"(3) [of d r'] by simp
    qed simp
  qed
qed simp

lemma text_part_shorter:
  assumes "(w, r) = text_part (skip_nul s)" "w \<noteq> []"
  shows "length r < length s"
proof -
  have "length w + length r \<le> length (skip_nul s)" using text_part_length [of "skip_nul s"] assms(1) by (metis fst_conv snd_conv)
  then show ?thesis using assms(2) length_skip_nul [of s] by (cases w) simp_all
qed

lemma parameter_name_shorter:
  assumes "parameter_name (skip_nul s) = Some p" "(w, r) = p"
  shows "length r < length s"
proof -
  obtain c u where u: "skip_nul s = c # u" using assms(1) by (cases "skip_nul s") (auto simp: parameter_name_def)
  then have "r = dropWhile word_char (skip_nul u)"
    using assms by (auto simp: parameter_name_def Let_def split: if_splits)
  then have "length r \<le> length u" using le_trans [OF length_dropWhile_le length_skip_nul] by blast
  then show ?thesis using u length_skip_nul [of s] by simp
qed

function parse_text :: "string \<Rightarrow> query_text_element list option" where
  "parse_text s = (let s = skip_nul s in
     if s = [] then Some []
     else (case parameter_name s of
        Some (name, r) \<Rightarrow> map_option ((#) (Parameter_name name)) (parse_text r)
      | None \<Rightarrow> (case text_part s of
          (w, r) \<Rightarrow> if w = [] then None else map_option ((#) (Text_part w)) (parse_text r))))"
  by pat_completeness auto
termination
  by (relation "measure length") (auto dest: text_part_shorter parameter_name_shorter)

declare parse_text.simps [simp del]

section \<open>Queries\<close>

record parsed_query =
  pq_name :: string
  pq_text :: "query_text_element list"

datatype state_type = State_initial | State_header_parsed

record line_visitor =
  lv_state :: state_type
  lv_queries :: "parsed_query list"

text \<open>A comment that is not a header is ignored.\<close>

definition visit_comment :: "string \<Rightarrow> line_visitor \<Rightarrow> line_visitor" where
  "visit_comment comment v = (case parse_header comment of
     Some name \<Rightarrow> v\<lparr>lv_state := State_header_parsed, lv_queries := lv_queries v @ [\<lparr>pq_name = name, pq_text = []\<rparr>]\<rparr>
   | None \<Rightarrow> v)"

definition append_text :: "query_text_element list \<Rightarrow> parsed_query list \<Rightarrow> parsed_query list" where
  "append_text es qs = butlast qs @ [(last qs)\<lparr>pq_text := pq_text (last qs) @ es\<rparr>]"

definition visit_text :: "string \<Rightarrow> line_visitor \<Rightarrow> line_visitor result" where
  "visit_text t v = (case lv_state v of
     State_initial \<Rightarrow> Inl Invalid_Argument
   | State_header_parsed \<Rightarrow> (case parse_text t of
       None \<Rightarrow> Inl Invalid_Argument
     | Some es \<Rightarrow> Inr (v\<lparr>lv_queries := append_text es (lv_queries v)\<rparr>)))"

fun visit_lines :: "query_line list \<Rightarrow> line_visitor \<Rightarrow> line_visitor result" where
  "visit_lines [] v = Inr v"
| "visit_lines (Line_comment c # ls) v = visit_lines ls (visit_comment c v)"
| "visit_lines (Line_text t # ls) v = bindR (visit_text t v) (visit_lines ls)"

definition parse_query_conf_elements :: "query_line list \<Rightarrow> parsed_query list result" where
  "parse_query_conf_elements ls =
    bindR (visit_lines ls \<lparr>lv_state = State_initial, lv_queries = []\<rparr>) (\<lambda>v. Inr (lv_queries v))"

definition parse_query_conf :: "string \<Rightarrow> parsed_query list result" where
  "parse_query_conf s = bindR (parse_query_conf_lines s) parse_query_conf_elements"

section \<open>The repository\<close>

text \<open>A parameters type: the member names of an adapted structure, or the size of a tuple.\<close>

datatype parameters_type = Members "string list" | Tuple_of nat

record query_declaration =
  qd_name :: string
  qd_parameters :: parameters_type

record query_description =
  qs_name :: string
  qs_text :: string

fun digits_of :: "nat \<Rightarrow> string" where
  "digits_of n = (if n < 10 then [char_of (48 + n)] else digits_of (n div 10) @ [char_of (48 + n mod 10)])"

declare digits_of.simps [simp del]

definition is_digit :: "char \<Rightarrow> bool" where
  "is_digit c = (let n = of_char c :: int in 48 \<le> n \<and> n \<le> 57)"

definition digits_value :: "string \<Rightarrow> nat" where
  "digits_value s = foldl (\<lambda>a c. 10 * a + (of_char c - 48)) 0 s"

text \<open>\<open>try_lexical_convert\<close> to \<open>std::size_t\<close>.\<close>

definition lexical_size :: "string \<Rightarrow> nat option" where
  "lexical_size s = (if s \<noteq> [] \<and> list_all is_digit s \<and> digits_value s < 2 ^ 64 then Some (digits_value s) else None)"

fun member_index :: "string list \<Rightarrow> string \<Rightarrow> nat option" where
  "member_index [] name = None"
| "member_index (m # ms) name = (if m = name then Some 0 else map_option Suc (member_index ms name))"

fun parameter_number :: "parameters_type \<Rightarrow> string \<Rightarrow> nat result" where
  "parameter_number (Members ms) name = (case member_index ms name of
     Some n \<Rightarrow> Inr n | None \<Rightarrow> Inl Invalid_Argument)"
| "parameter_number (Tuple_of k) name = (case lexical_size name of
     None \<Rightarrow> Inl Invalid_Argument
   | Some n \<Rightarrow> if n \<ge> k then Inl Out_Of_Range else Inr n)"

fun query_part_visitor :: "parameters_type \<Rightarrow> query_text_element \<Rightarrow> string result" where
  "query_part_visitor t (Text_part w) = Inr w"
| "query_part_visitor t (Parameter_name name) =
     bindR (parameter_number t name) (\<lambda>number. Inr (CHR ''$'' # digits_of (number + 1)))"

fun description_text :: "parameters_type \<Rightarrow> query_text_element list \<Rightarrow> string result" where
  "description_text t [] = Inr []"
| "description_text t (e # es) = bindR (query_part_visitor t e) (\<lambda>w. bindR (description_text t es) (\<lambda>r. Inr (w @ r)))"

definition trim_text :: "string \<Rightarrow> string" where
  "trim_text s = rev (dropWhile is_space (rev (dropWhile is_space s)))"

definition describe_query :: "query_declaration \<Rightarrow> parsed_query \<Rightarrow> query_description result" where
  "describe_query q p = bindR (description_text (qd_parameters q) (pq_text p))
     (\<lambda>t. Inr \<lparr>qs_name = pq_name p, qs_text = trim_text t\<rparr>)"

text \<open>The loop over the declared queries: the last one of the name counts, and an exception
  ends the loop.\<close>

fun find_description ::
  "query_declaration list \<Rightarrow> parsed_query \<Rightarrow> query_description option \<Rightarrow> query_description option result" where
  "find_description [] p found = Inr found"
| "find_description (q # qs) p found = (if qd_name q = pq_name p
     then bindR (describe_query q p) (\<lambda>d. find_description qs p (Some d))
     else find_description qs p found)"

definition make_query_description :: "query_declaration list \<Rightarrow> parsed_query \<Rightarrow> query_description result" where
  "make_query_description qs p = bindR (find_description qs p None)
     (\<lambda>found. case found of Some d \<Rightarrow> Inr d | None \<Rightarrow> Inl Invalid_Argument)"

fun make_query_descriptions :: "query_declaration list \<Rightarrow> parsed_query list \<Rightarrow> query_description list result" where
  "make_query_descriptions qs [] = Inr []"
| "make_query_descriptions qs (p # ps) = bindR (make_query_description qs p)
     (\<lambda>d. bindR (make_query_descriptions qs ps) (\<lambda>ds. Inr (d # ds)))"

text \<open>Inserting names into a set, with an exception for a name that is already there.\<close>

fun check_for_duplicates :: "string list \<Rightarrow> string set \<Rightarrow> string set result" where
  "check_for_duplicates [] names = Inr names"
| "check_for_duplicates (n # ns) names = (if n \<in> names then Inl Invalid_Argument
     else check_for_duplicates ns (insert n names))"

fun check_for_undefined :: "query_declaration list \<Rightarrow> string set \<Rightarrow> unit result" where
  "check_for_undefined [] definitions = Inr ()"
| "check_for_undefined (q # qs) definitions = (if qd_name q \<notin> definitions then Inl Invalid_Argument
     else check_for_undefined qs definitions)"

text \<open>The map of \<open>make_query_conf\<close>; an inserted key is not replaced.\<close>

definition make_query_conf :: "query_description list \<Rightarrow> string \<rightharpoonup> string" where
  "make_query_conf ds = foldl (\<lambda>m d. if m (qs_name d) = None then m(qs_name d \<mapsto> qs_text d) else m) Map.empty ds"

definition make_query_repository :: "string \<Rightarrow> query_declaration list \<Rightarrow> (string \<rightharpoonup> string) result" where
  "make_query_repository s qs = bindR (check_for_duplicates (map qd_name qs) {}) (\<lambda>_.
     bindR (parse_query_conf s) (\<lambda>parsed.
       bindR (check_for_duplicates (map pq_name parsed) {}) (\<lambda>definitions.
         bindR (check_for_undefined qs definitions) (\<lambda>_.
           bindR (make_query_descriptions qs parsed) (\<lambda>ds. Inr (make_query_conf ds))))))"

definition get_description :: "(string \<rightharpoonup> string) \<Rightarrow> string \<Rightarrow> string result" where
  "get_description m name = (case m name of Some t \<Rightarrow> Inr t | None \<Rightarrow> Inl Out_Of_Range)"

end
