(* ===== verification/Query_Builder.thy ===== *)
theory Query_Builder
  imports Binary_Query Query_Conf
begin

text \<open>
  Query objects (\<open>query.h\<close>, \<open>impl/query.h\<close>) and the query builder (\<open>query_builder.h\<close>): a
  builder is the list of its elements, texts and parameters, and its text has the
  placeholders of its parameters in the place of the parameters.
\<close>

section \<open>Query texts\<close>

text \<open>The kinds of text a query may have. A string view is the memory its pointer leads to and
  its length, a pointer to characters the memory it leads to; the other texts own their
  characters and are followed by a zero character.\<close>

datatype query_text =
    Hana_string string
  | Std_string string
  | String_view string nat
  | C_string string

fun to_const_char :: "query_text \<Rightarrow> string" where
  "to_const_char (Hana_string s) = s @ [nul]"
| "to_const_char (Std_string s) = s @ [nul]"
| "to_const_char (String_view mem n) = mem"
| "to_const_char (C_string mem) = mem"

text \<open>The text libpq sends: the characters from the address to the first zero.\<close>

definition sent_text :: "query_text \<Rightarrow> string" where
  "sent_text t = takeWhile (\<lambda>c. c \<noteq> nul) (to_const_char t)"

fun text_characters :: "query_text \<Rightarrow> string" where
  "text_characters (Hana_string s) = s"
| "text_characters (Std_string s) = s"
| "text_characters (String_view mem n) = take n mem"
| "text_characters (C_string mem) = takeWhile (\<lambda>c. c \<noteq> nul) mem"

text \<open>The text that is sent is the text of the query, except for a view that is not followed by a
  zero character: then the memory behind it is sent as well.\<close>

lemma sent_text_owned:
  assumes "nul \<notin> set (text_characters t)"
    and "\<And>mem n. t = String_view mem n \<Longrightarrow> n < length mem \<and> mem ! n = nul"
  shows "sent_text t = text_characters t"
proof (cases t)
  case (String_view mem n)
  then have n: "n < length mem" "mem ! n = nul" using assms(2) by simp_all
  have "takeWhile (\<lambda>c. c \<noteq> nul) (take n mem @ nul # drop (Suc n) mem) = take n mem"
    using assms(1) String_view by (subst takeWhile_append2) auto
  then show ?thesis using String_view id_take_nth_drop [OF n(1)] n(2) by (simp add: sent_text_def)
next
  case (C_string mem)
  then show ?thesis by (simp add: sent_text_def)
qed (use assms(1) in \<open>simp_all add: sent_text_def takeWhile_tail takeWhile_eq_all_conv [THEN iffD2] takeWhile_append\<close>)

lemma sent_text_view_overrun: "sent_text (String_view ''SELECT 1; DROP'' 8) = ''SELECT 1; DROP''"
  by (simp add: sent_text_def)

section \<open>The builder\<close>

datatype 'v query_element = Query_text string | Query_param 'v

definition digit_to_string :: "nat \<Rightarrow> string" where
  "digit_to_string d = [char_of (48 + d)]"

text \<open>\<open>to_string\<close> with \<open>to_string_head\<close>, which is empty for zero.\<close>

function to_string :: "nat \<Rightarrow> string" where
  "to_string v = (let divident = v mod 10; head = (v - divident) div 10 in
     (if head = 0 then [] else to_string head) @ digit_to_string divident)"
  by pat_completeness auto
termination
  by (relation "measure id") (auto simp: Let_def)

declare to_string.simps [simp del]

text \<open>The step of the fold of \<open>text()\<close>: the number of the next parameter and the text.\<close>

fun text_step :: "'v query_element \<Rightarrow> nat \<times> string \<Rightarrow> nat \<times> string" where
  "text_step (Query_text v) (n, t) = (n, t @ v)"
| "text_step (Query_param v) (n, t) = (Suc n, t @ ''$'' @ to_string n)"

definition builder_text :: "'v query_element list \<Rightarrow> string" where
  "builder_text es = snd (fold text_step es (1, []))"

fun params_step :: "'v query_element \<Rightarrow> 'v list \<Rightarrow> 'v list" where
  "params_step (Query_text v) r = r"
| "params_step (Query_param v) r = r @ [v]"

definition builder_params :: "'v query_element list \<Rightarrow> 'v list" where
  "builder_params es = fold params_step es []"

definition make_query :: "string \<Rightarrow> (ctype \<times> cval) list \<Rightarrow> query_source" where
  "make_query t params = Plain_query t params"

definition build :: "(ctype \<times> cval) query_element list \<Rightarrow> query_source" where
  "build es = make_query (builder_text es) (builder_params es)"

text \<open>The operators that put builders, elements and values together.\<close>

definition sql :: "string \<Rightarrow> 'v query_element list" where
  "sql s = [Query_text s]"

definition add_builder :: "'v query_element list \<Rightarrow> 'v query_element list \<Rightarrow> 'v query_element list" where
  "add_builder lhs rhs = lhs @ rhs"

definition add_element :: "'v query_element list \<Rightarrow> 'v query_element \<Rightarrow> 'v query_element list" where
  "add_element lhs e = lhs @ [e]"

definition add_param :: "'v query_element list \<Rightarrow> 'v \<Rightarrow> 'v query_element list" where
  "add_param lhs v = add_element lhs (Query_param v)"

section \<open>Lemmas\<close>

lemma to_string_digits: "to_string n = digits_of n"
proof (induction n rule: less_induct)
  case (less n)
  have "n - n mod 10 = n div 10 * 10" by (simp add: minus_mod_eq_div_mult)
  then show ?case
    using less [of "n div 10"] to_string.simps [of n] digits_of.simps [of n]
    by (auto simp: digit_to_string_def Let_def)
qed

lemma of_char_digit: "d < 10 \<Longrightarrow> (of_char (char_of (48 + d :: nat)) :: nat) = 48 + d"
  by (simp add: of_char_of)

lemma digits_value_snoc: "digits_value (s @ [c]) = 10 * digits_value s + (of_char c - 48)"
  by (simp add: digits_value_def)

lemma digits_of_value: "digits_value (digits_of n) = n \<and> list_all is_digit (digits_of n) \<and> digits_of n \<noteq> []"
proof (induction n rule: less_induct)
  case (less n)
  have d: "is_digit (char_of (48 + k :: nat))" if "k < 10" for k
  proof -
    have "of_char (char_of (48 + k)) = (48 + int k)"
      using of_char_digit [OF that] of_nat_of_char [of "char_of (48 + k)", where 'a = int] by simp
    then show ?thesis using that by (simp add: is_digit_def Let_def)
  qed
  show ?case
  proof (cases "n < 10")
    case True
    then show ?thesis using digits_of.simps [of n] of_char_digit [of n] d [of n] by (simp add: digits_value_def)
  next
    case False
    then show ?thesis using digits_of.simps [of n] less [of "n div 10"] of_char_digit [of "n mod 10"] d [of "n mod 10"]
      by (simp add: digits_value_snoc)
  qed
qed

lemma lexical_digits: "n < 2 ^ 64 \<Longrightarrow> lexical_size (digits_of n) = Some n"
  using digits_of_value [of n] by (simp add: lexical_size_def)

text \<open>The elements of a configured query with numbered parameters.\<close>

fun conf_elements :: "nat \<Rightarrow> 'v query_element list \<Rightarrow> query_text_element list" where
  "conf_elements n [] = []"
| "conf_elements n (Query_text t # es) = Text_part t # conf_elements n es"
| "conf_elements n (Query_param v # es) = Parameter_name (digits_of n) # conf_elements (Suc n) es"

lemma fold_params: "fold params_step es r = r @ builder_params es"
proof (induction es arbitrary: r)
  case (Cons e es)
  have "builder_params (e # es) = fold params_step es (params_step e [])" by (simp add: builder_params_def)
  also have "\<dots> = params_step e [] @ builder_params es" by (rule Cons.IH)
  finally show ?case using Cons.IH [of "params_step e r"] by (cases e) simp_all
qed (simp add: builder_params_def)

lemma builder_params_Cons [simp]:
  "builder_params [] = []"
  "builder_params (Query_text t # es) = builder_params es"
  "builder_params (Query_param v # es) = v # builder_params es"
  using fold_params [of es "[v]"] by (simp_all add: builder_params_def)

text \<open>The text of the elements when the next parameter has the given number.\<close>

fun text_from :: "nat \<Rightarrow> 'v query_element list \<Rightarrow> string" where
  "text_from n [] = []"
| "text_from n (Query_text v # es) = v @ text_from n es"
| "text_from n (Query_param v # es) = CHR ''$'' # digits_of n @ text_from (Suc n) es"

lemma fold_text: "snd (fold text_step es (n, t)) = t @ text_from n es"
proof (induction es arbitrary: n t)
  case (Cons e es)
  then show ?case by (cases e) (simp_all add: to_string_digits)
qed simp

lemma description_text_from:
  assumes "n + length (builder_params es) \<le> k" "k < 2 ^ 64"
  shows "description_text (Tuple_of k) (conf_elements n es) = Inr (text_from (Suc n) es)"
  using assms(1)
proof (induction es arbitrary: n)
  case (Cons e es)
  show ?case
  proof (cases e)
    case (Query_text x)
    then show ?thesis using Cons by simp
  next
    case (Query_param v)
    then have "lexical_size (digits_of n) = Some n" using Cons.prems assms(2) by (intro lexical_digits) simp
    then show ?thesis using Query_param Cons.IH [of "Suc n"] Cons.prems by simp
  qed
qed simp

text \<open>A query made with the builder has the text of the query that is configured with the same texts
  and with its parameters numbered from zero, in the order in which they were added; the query carries the values
  of the parameters in that order.\<close>

lemma builder_agrees_with_conf:
  assumes "length (builder_params es) < 2 ^ 64"
  shows "description_text (Tuple_of (length (builder_params es))) (conf_elements 0 es) = Inr (builder_text es)
    \<and> build es = Plain_query (builder_text es) (builder_params es)
    \<and> builder_params (add_builder es fs) = builder_params es @ builder_params fs"
  using description_text_from [of 0 es, OF _ assms] fold_text [of es 1 "[]"]
  by (simp add: builder_text_def build_def make_query_def add_builder_def builder_params_def [of "es @ fs"] fold_params)

end
