(* ===== verification/Request.thy ===== *)
theory Request
  imports Connection Errors
begin

text \<open>
  A query on a connection: \<open>impl/async_request.h\<close>, \<open>impl/io.h\<close>, \<open>impl/result_status.h\<close>. Two
  operations share a context, one sends the query and one receives the result. Each
  suspends itself on the socket and is invoked again when the wait completes. The
  state has the shared context, the two pending waits and the calls made to the
  handler. The result processor is a parameter: it is given the result and the
  output and answers with the text of an exception, if any, and the new output.
\<close>

section \<open>State\<close>

datatype query_state = Query_error | Send_finish | Send_in_progress

text \<open>The suspension points of the receiving coroutine: before the first result, and while
  the results after the one it keeps are dropped.\<close>

datatype 'r read_point = First_result | Drain 'r

record ('p, 'r, 'o) request =
  rq_conn :: "'p connection"
  rq_state :: query_state
  rq_calls :: "error_code list"
  rq_write_wait :: bool
  rq_read_wait :: "'r read_point option"
  rq_out :: 'o

type_synonym ('r, 'o) processor = "'r \<Rightarrow> oid_map \<Rightarrow> 'o \<Rightarrow> string option \<times> 'o"

definition make_request_operation_context :: "'p connection \<Rightarrow> 'o \<Rightarrow> ('p, 'r, 'o) request" where
  "make_request_operation_context c out = \<lparr>rq_conn = c, rq_state = Send_in_progress, rq_calls = [],
     rq_write_wait = False, rq_read_wait = None, rq_out = out\<rparr>"

definition done_error :: "error_code \<Rightarrow> ('p, 'r, 'o) request \<Rightarrow> ('p, 'r, 'o) request" where
  "done_error ec s = s\<lparr>rq_state := Query_error, rq_conn := cancel_io (rq_conn s), rq_calls := rq_calls s @ [ec]\<rparr>"

definition done_success :: "('p, 'r, 'o) request \<Rightarrow> ('p, 'r, 'o) request" where
  "done_success s = s\<lparr>rq_calls := rq_calls s @ [Success]\<rparr>"

section \<open>The libpq calls\<close>

definition set_nonblocking :: "('p, 'r) libpq \<Rightarrow> 'p connection \<Rightarrow> error_code \<times> 'p connection" where
  "set_nonblocking pq c = (case on_handle (- 1) (PQsetnonblocking pq) c of
     (v, c') \<Rightarrow> (if v \<noteq> 0 then Ozo_error pg_set_nonblocking_failed else Success, c'))"

definition send_query_params :: "('p, 'r) libpq \<Rightarrow> binary_query \<Rightarrow> 'p connection \<Rightarrow> int \<times> 'p connection" where
  "send_query_params pq q c = on_handle 0 (PQsendQueryParams pq q) c"

definition consume_input :: "('p, 'r) libpq \<Rightarrow> 'p connection \<Rightarrow> error_code \<times> 'p connection" where
  "consume_input pq c = (case on_handle 0 (PQconsumeInput pq) c of
     (v, c') \<Rightarrow> (if v = 0 then Ozo_error pg_consume_input_failed else Success, c'))"

definition is_busy :: "('p, 'r) libpq \<Rightarrow> 'p connection \<Rightarrow> bool" where
  "is_busy pq c \<longleftrightarrow> (case conn_handle c of None \<Rightarrow> False | Some p \<Rightarrow> PQisBusy pq p)"

definition flush_output :: "('p, 'r) libpq \<Rightarrow> 'p connection \<Rightarrow> int \<times> 'p connection" where
  "flush_output pq c = on_handle (- 1) (PQflush pq) c"

definition get_result :: "('p, 'r) libpq \<Rightarrow> 'p connection \<Rightarrow> 'r option \<times> 'p connection" where
  "get_result pq c = on_handle None (PQgetResult pq) c"

definition result_error :: "('p, 'r) libpq \<Rightarrow> 'r \<Rightarrow> error_code" where
  "result_error pq r = (case PQresultSqlstate pq r of
     Some s \<Rightarrow> Sqlstate (b36tol s)
   | None \<Rightarrow> Ozo_error no_sql_state_found)"

fun get_result_status_name :: "exec_status \<Rightarrow> string" where
  "get_result_status_name PGRES_SINGLE_TUPLE = ''PGRES_SINGLE_TUPLE''"
| "get_result_status_name PGRES_TUPLES_OK = ''PGRES_TUPLES_OK''"
| "get_result_status_name PGRES_COMMAND_OK = ''PGRES_COMMAND_OK''"
| "get_result_status_name PGRES_COPY_OUT = ''PGRES_COPY_OUT''"
| "get_result_status_name PGRES_COPY_IN = ''PGRES_COPY_IN''"
| "get_result_status_name PGRES_COPY_BOTH = ''PGRES_COPY_BOTH''"
| "get_result_status_name PGRES_NONFATAL_ERROR = ''PGRES_NONFATAL_ERROR''"
| "get_result_status_name PGRES_BAD_RESPONSE = ''PGRES_BAD_RESPONSE''"
| "get_result_status_name PGRES_EMPTY_QUERY = ''PGRES_EMPTY_QUERY''"
| "get_result_status_name PGRES_FATAL_ERROR = ''PGRES_FATAL_ERROR''"
| "get_result_status_name PGRES_PIPELINE_SYNC = ''PGRES_PIPELINE_SYNC''"
| "get_result_status_name PGRES_PIPELINE_ABORTED = ''PGRES_PIPELINE_ABORTED''"
| "get_result_status_name PGRES_TUPLES_CHUNK = ''PGRES_TUPLES_CHUNK''"

section \<open>Sending\<close>

definition send_resume :: "('p, 'r) libpq \<Rightarrow> error_code \<Rightarrow> ('p, 'r, 'o) request \<Rightarrow> ('p, 'r, 'o) request" where
  "send_resume pq ec s =
    (if rq_state s \<noteq> Send_in_progress then s
     else if failed ec then done_error ec s
     else (case flush_output pq (rq_conn s) of (v, c) \<Rightarrow>
       let s = s\<lparr>rq_conn := c\<rparr> in
       if v = - 1 then done_error (Ozo_error pg_flush_failed) s
       else if v = 1 then s\<lparr>rq_write_wait := True\<rparr>
       else if v = 0 then s\<lparr>rq_state := Send_finish\<rparr>
       else s))"

definition send_perform :: "('p, 'r) libpq \<Rightarrow> binary_query \<Rightarrow> ('p, 'r, 'o) request \<Rightarrow> ('p, 'r, 'o) request" where
  "send_perform pq q s = (case set_nonblocking pq (rq_conn s) of (ec, c) \<Rightarrow>
     let s = s\<lparr>rq_conn := c\<rparr> in
     if failed ec then done_error ec s
     else (case send_query_params pq q (rq_conn s) of (v, c) \<Rightarrow>
       let s = s\<lparr>rq_conn := c\<rparr> in
       if v = 0 then done_error (Ozo_error pg_send_query_params_failed) s
       else send_resume pq Success s))"

section \<open>Receiving\<close>

definition read_done :: "error_code \<Rightarrow> ('p, 'r, 'o) request \<Rightarrow> ('p, 'r, 'o) request" where
  "read_done ec s = done_error ec (if error_context (rq_conn s) = []
     then s\<lparr>rq_conn := set_error_context ''error while get request result'' (rq_conn s)\<rparr> else s)"

definition process_and_done ::
  "('r, 'o) processor \<Rightarrow> 'r \<Rightarrow> ('p, 'r, 'o) request \<Rightarrow> ('p, 'r, 'o) request" where
  "process_and_done process r s = (case process r (conn_oid_map (rq_conn s)) (rq_out s) of
     (None, out) \<Rightarrow> done_success (s\<lparr>rq_out := out\<rparr>)
   | (Some what, out) \<Rightarrow> read_done (Ozo_error bad_result_process)
       (s\<lparr>rq_out := out, rq_conn := set_error_context what (rq_conn s)\<rparr>))"

definition handle_result ::
  "('p, 'r) libpq \<Rightarrow> ('r, 'o) processor \<Rightarrow> 'r \<Rightarrow> ('p, 'r, 'o) request \<Rightarrow> ('p, 'r, 'o) request" where
  "handle_result pq process r s =
    (let status = PQresultStatus pq r in
     if status \<in> {PGRES_SINGLE_TUPLE, PGRES_TUPLES_OK, PGRES_COMMAND_OK} then process_and_done process r s
     else if status = PGRES_BAD_RESPONSE then read_done (Ozo_error result_status_bad_response) s
     else if status = PGRES_EMPTY_QUERY then read_done (Ozo_error result_status_empty_query) s
     else if status = PGRES_FATAL_ERROR then read_done (result_error pq r) s
     else read_done (Ozo_error result_status_unexpected)
            (s\<lparr>rq_conn := set_error_context (get_result_status_name status) (rq_conn s)\<rparr>))"

text \<open>The loop that drops results until there is none: it ends with a wait, when libpq is
  busy, or with all results dropped.\<close>

partial_function (option) drain :: "('p, 'r) libpq \<Rightarrow> 'p connection \<Rightarrow> (bool \<times> 'p connection) option" where
  "drain pq c =
    (if is_busy pq c then Some (True, c)
     else (case get_result pq c of (r, c') \<Rightarrow>
       (case r of None \<Rightarrow> Some (False, c') | Some _ \<Rightarrow> drain pq c')))"

definition read_drain ::
  "('p, 'r) libpq \<Rightarrow> ('r, 'o) processor \<Rightarrow> 'r \<Rightarrow> ('p, 'r, 'o) request \<Rightarrow> ('p, 'r, 'o) request option" where
  "read_drain pq process r s = (case drain pq (rq_conn s) of
     None \<Rightarrow> None
   | Some (wait, c) \<Rightarrow>
       let s = s\<lparr>rq_conn := c\<rparr> in
       Some (if wait then s\<lparr>rq_read_wait := Some (Drain r)\<rparr> else handle_result pq process r s))"

definition read_first ::
  "('p, 'r) libpq \<Rightarrow> ('r, 'o) processor \<Rightarrow> ('p, 'r, 'o) request \<Rightarrow> ('p, 'r, 'o) request option" where
  "read_first pq process s =
    (if is_busy pq (rq_conn s) then Some (s\<lparr>rq_read_wait := Some First_result\<rparr>)
     else (case get_result pq (rq_conn s) of (res, c) \<Rightarrow>
       let s = s\<lparr>rq_conn := c\<rparr> in
       (case res of
          None \<Rightarrow> Some (done_success s)
        | Some r \<Rightarrow> if PQresultStatus pq r \<noteq> PGRES_SINGLE_TUPLE then read_drain pq process r s
                    else Some (handle_result pq process r s))))"

definition read_resume ::
  "('p, 'r) libpq \<Rightarrow> ('r, 'o) processor \<Rightarrow> error_code \<Rightarrow> 'r read_point \<Rightarrow> ('p, 'r, 'o) request
    \<Rightarrow> ('p, 'r, 'o) request option" where
  "read_resume pq process ec point s =
    (if rq_state s = Query_error then Some s
     else if failed ec
     then Some (read_done (if ec = Asio_error bad_descriptor then Asio_error operation_aborted else ec) s)
     else (case consume_input pq (rq_conn s) of (err, c) \<Rightarrow>
       let s = s\<lparr>rq_conn := c\<rparr> in
       (case point of
          First_result \<Rightarrow> if failed err then Some (read_done err s) else read_first pq process s
        | Drain r \<Rightarrow> if failed err then Some (handle_result pq process r s) else read_drain pq process r s)))"

definition read_perform ::
  "('p, 'r) libpq \<Rightarrow> ('r, 'o) processor \<Rightarrow> ('p, 'r, 'o) request \<Rightarrow> ('p, 'r, 'o) request option" where
  "read_perform pq process s = (if rq_state s = Query_error then Some s else read_first pq process s)"

section \<open>The request\<close>

text \<open>\<open>async_request_op\<close> once a connection is there.\<close>

definition start_request ::
  "('p, 'r) libpq \<Rightarrow> ('r, 'o) processor \<Rightarrow> query_source \<Rightarrow> 'p connection \<Rightarrow> 'o \<Rightarrow> ('p, 'r, 'o) request option" where
  "start_request pq process q c out =
    (let s = make_request_operation_context c out;
         s = send_perform pq (to_binary_query q (conn_oid_map c)) s
     in read_perform pq process s)"

text \<open>The answer of the connection provider comes first: an error goes to the handler.\<close>

definition async_request_op ::
  "('p, 'r) libpq \<Rightarrow> ('r, 'o) processor \<Rightarrow> query_source \<Rightarrow> 'o \<Rightarrow> error_code \<times> 'p connection
    \<Rightarrow> (error_code + ('p, 'r, 'o) request) option" where
  "async_request_op pq process q out answer =
    (if failed (fst answer) then Some (Inl (fst answer))
     else map_option Inr (start_request pq process q (snd answer) out))"

text \<open>What happens next: the wait of one of the two operations completes, or the
  connection is used, cancelled or closed by something else.\<close>

inductive request_step ::
  "('p, 'r) libpq \<Rightarrow> ('r, 'o) processor \<Rightarrow> ('p, 'r, 'o) request \<Rightarrow> ('p, 'r, 'o) request \<Rightarrow> bool"
  for pq process where
  write_ready: "rq_write_wait s \<Longrightarrow> request_step pq process s (send_resume pq ec (s\<lparr>rq_write_wait := False\<rparr>))"
| read_ready: "rq_read_wait s = Some point \<Longrightarrow>
    read_resume pq process ec point (s\<lparr>rq_read_wait := None\<rparr>) = Some s' \<Longrightarrow> request_step pq process s s'"
| connection_used: "request_step pq process s (s\<lparr>rq_conn := c\<rparr>)"

definition request_reachable ::
  "('p, 'r) libpq \<Rightarrow> ('r, 'o) processor \<Rightarrow> ('p, 'r, 'o) request \<Rightarrow> bool" where
  "request_reachable pq process s \<longleftrightarrow> (\<exists>q c out s0. start_request pq process q c out = Some s0
     \<and> (request_step pq process)\<^sup>*\<^sup>* s0 s)"

inductive_cases request_stepE: "request_step pq process s s'"

section \<open>How often the handler is called\<close>

definition request_open :: "('p, 'r, 'o) request \<Rightarrow> bool" where
  "request_open s \<longleftrightarrow> rq_calls s = [] \<and> rq_state s \<noteq> Query_error"

definition request_inv :: "('p, 'r, 'o) request \<Rightarrow> bool" where
  "request_inv s \<longleftrightarrow> (if rq_state s = Query_error
     then (\<exists>ec. rq_calls s = [ec] \<or> rq_calls s = [Success, ec])
     else rq_calls s = [] \<and> rq_read_wait s \<noteq> None \<or> rq_calls s = [Success] \<and> rq_read_wait s = None)"

lemmas request_defs = request_inv_def request_open_def done_error_def done_success_def read_done_def Let_def

lemma done_error_inv: "request_open s \<Longrightarrow> request_inv (done_error ec s)"
  by (simp add: request_defs)

lemma read_done_inv: "request_open s \<Longrightarrow> request_inv (read_done ec s)"
  by (simp add: request_defs)

lemma request_open_conn [simp]:
  "request_open (s\<lparr>rq_conn := c\<rparr>) = request_open s" "request_open (s\<lparr>rq_read_wait := w\<rparr>) = request_open s"
  by (simp_all add: request_open_def)

lemma request_wait_inv: "request_open s \<Longrightarrow> request_inv (s\<lparr>rq_read_wait := Some w\<rparr>)"
  by (simp add: request_inv_def request_open_def)

lemma handle_result_inv:
  assumes "request_open s" "rq_read_wait s = None"
  shows "request_inv (handle_result pq process r s)"
proof -
  have "request_inv (process_and_done process r s)"
    using assms by (auto simp: process_and_done_def request_defs split: prod.splits option.splits)
  then show ?thesis using assms by (auto simp: handle_result_def Let_def intro!: read_done_inv)
qed

lemma read_drain_inv:
  assumes "request_open s" "rq_read_wait s = None" "read_drain pq process r s = Some s'"
  shows "request_inv s'"
  using assms handle_result_inv [of "s\<lparr>rq_conn := c\<rparr>" pq process r for c]
  by (auto simp: read_drain_def Let_def request_wait_inv split: option.splits if_splits)

lemma read_first_inv:
  assumes "request_open s" "rq_read_wait s = None" "read_first pq process s = Some s'"
  shows "request_inv s'"
proof (cases "is_busy pq (rq_conn s)")
  case True
  then show ?thesis using assms by (auto simp: read_first_def request_defs)
next
  case False
  obtain res c where g: "get_result pq (rq_conn s) = (res, c)" by force
  let ?s = "s\<lparr>rq_conn := c\<rparr>"
  have o: "request_open ?s" "rq_read_wait ?s = None" using assms by (simp_all add: request_open_def)
  show ?thesis
  proof (cases res)
    case None
    then show ?thesis using assms False g by (auto simp: read_first_def request_defs)
  next
    case (Some r)
    then show ?thesis
      using assms False g read_drain_inv [OF o, of pq process r s'] handle_result_inv [OF o, of pq process r]
      by (auto simp: read_first_def Let_def split: if_splits)
  qed
qed

lemma read_resume_inv:
  assumes "request_inv s" "rq_read_wait s = Some point"
    "read_resume pq process ec point (s\<lparr>rq_read_wait := None\<rparr>) = Some s'"
  shows "request_inv s'"
proof (cases "rq_state s = Query_error")
  case True
  then show ?thesis using assms by (auto simp: read_resume_def request_inv_def)
next
  case False
  obtain err c where g: "consume_input pq (rq_conn s) = (err, c)" by force
  let ?s = "s\<lparr>rq_read_wait := None, rq_conn := c\<rparr>"
  have "request_open s" using assms(1,2) False by (simp add: request_inv_def request_open_def)
  then have o: "request_open ?s" "rq_read_wait ?s = None" "request_open (s\<lparr>rq_read_wait := None\<rparr>)"
    by simp_all
  show ?thesis
    using assms(3) False g read_done_inv [OF o(1)] read_done_inv [OF o(3)] read_first_inv [OF o(1,2), of pq process s']
      read_drain_inv [OF o(1,2), of pq process _ s'] handle_result_inv [OF o(1,2)]
    by (auto simp: read_resume_def Let_def split: if_splits read_point.splits)
qed

lemma send_resume_inv: "request_inv s \<Longrightarrow> request_inv (send_resume pq ec (s\<lparr>rq_write_wait := w\<rparr>))"
  by (auto simp: send_resume_def request_defs split: prod.splits if_splits)

lemma request_step_inv:
  assumes "request_step pq process s s'" "request_inv s"
  shows "request_inv s'"
  using assms
proof (cases rule: request_step.cases)
  case (connection_used c)
  then show ?thesis using assms(2) by (auto simp: request_inv_def)
qed (auto intro: send_resume_inv read_resume_inv)

lemma send_perform_open:
  assumes "request_open s" "rq_read_wait s = None"
  shows "let s' = send_perform pq q s in rq_read_wait s' = None \<and> (request_open s' \<or> request_inv s' \<and> rq_state s' = Query_error)"
  using assms by (auto simp: send_perform_def send_resume_def request_defs split: prod.splits if_splits)

lemma start_request_inv:
  assumes "start_request pq process q c out = Some s"
  shows "request_inv s"
proof -
  let ?s = "send_perform pq (to_binary_query q (conn_oid_map c)) (make_request_operation_context c out)"
  have "request_open (make_request_operation_context c out)"
    "rq_read_wait (make_request_operation_context c out) = None"
    by (simp_all add: make_request_operation_context_def request_open_def)
  from send_perform_open [OF this, of pq "to_binary_query q (conn_oid_map c)"] have "rq_read_wait ?s = None"
    "request_open ?s \<or> request_inv ?s \<and> rq_state ?s = Query_error" by (simp_all add: Let_def)
  with assms read_first_inv [of ?s pq process s] show ?thesis
    by (auto simp: start_request_def read_perform_def request_open_def Let_def split: if_splits)
qed

lemma request_reachable_inv: "request_reachable pq process s \<Longrightarrow> request_inv s"
proof -
  have "(request_step pq process)\<^sup>*\<^sup>* s0 s \<Longrightarrow> request_inv s0 \<Longrightarrow> request_inv s" for s0
    by (induction rule: rtranclp_induct) (auto intro: request_step_inv)
  then show "request_reachable pq process s \<Longrightarrow> request_inv s"
    unfolding request_reachable_def by (blast intro: start_request_inv)
qed

text \<open>The receiving operation calls the handler at most once per invocation and does not
  set back the state of the query.\<close>

definition advances :: "('p, 'r, 'o) request \<Rightarrow> ('p, 'r, 'o) request \<Rightarrow> bool" where
  "advances s s' \<longleftrightarrow> rq_state s' \<in> {rq_state s, Query_error} \<and> length (rq_calls s') \<le> Suc (length (rq_calls s))"

lemma advances_conn [simp]:
  "advances (s\<lparr>rq_conn := c\<rparr>) s' = advances s s'" "advances (s\<lparr>rq_read_wait := w\<rparr>) s' = advances s s'"
  "advances s (s'\<lparr>rq_read_wait := w\<rparr>) = advances s s'" "advances s (s'\<lparr>rq_conn := c\<rparr>) = advances s s'" "advances s s"
  by (simp_all add: advances_def)

lemma read_done_advances [simp]: "advances s (read_done ec s)" "advances s (read_done ec (s\<lparr>rq_conn := c\<rparr>))"
  by (simp_all add: advances_def request_defs)

lemma handle_result_advances [simp]: "advances s (handle_result pq process r s)"
  by (auto simp: handle_result_def process_and_done_def done_success_def read_done_def done_error_def Let_def advances_def
      split: prod.splits option.splits)

lemma handle_result_conn_advances [simp]: "advances s (handle_result pq process r (s\<lparr>rq_conn := c\<rparr>))"
  by (metis handle_result_advances advances_conn(1))

lemma read_drain_advances: "read_drain pq process r s = Some s' \<Longrightarrow> advances s s'"
  by (auto simp: read_drain_def Let_def split: option.splits if_splits)

lemma read_first_advances: "read_first pq process s = Some s' \<Longrightarrow> advances s s'"
  using read_drain_advances [of pq process _ "s\<lparr>rq_conn := c\<rparr>" s' for c]
  by (auto simp: read_first_def Let_def split: prod.splits option.splits if_splits)
    (simp add: advances_def done_success_def)

lemma read_resume_advances: "read_resume pq process ec point s = Some s' \<Longrightarrow> advances s s'"
  using read_drain_advances [of pq process _ "s\<lparr>rq_conn := c\<rparr>" s' for c]
    read_first_advances [of pq process "s\<lparr>rq_conn := c\<rparr>" s' for c]
  by (auto simp: read_resume_def Let_def split: prod.splits read_point.splits if_splits)

lemma request_sent_step:
  assumes "request_step pq process s s'" "request_inv s" "length (rq_calls s) \<le> 1" "rq_state s \<noteq> Send_in_progress"
  shows "length (rq_calls s') \<le> 1 \<and> rq_state s' \<noteq> Send_in_progress"
  using assms(1)
proof (cases rule: request_step.cases)
  case (read_ready point ec)
  let ?s = "s\<lparr>rq_read_wait := None\<rparr>"
  show ?thesis
  proof (cases "rq_state s = Query_error")
    case True
    then show ?thesis using read_ready assms(3) by (auto simp: read_resume_def)
  next
    case False
    then have "rq_calls s = []" using read_ready(1) assms(2) by (simp add: request_inv_def)
    with read_resume_advances [OF read_ready(2)] assms(4) show ?thesis by (auto simp: advances_def)
  qed
qed (use assms(3,4) in \<open>auto simp: send_resume_def\<close>)

lemma request_sent_run:
  assumes "(request_step pq process)\<^sup>*\<^sup>* s s'" "request_inv s" "length (rq_calls s) \<le> 1" "rq_state s \<noteq> Send_in_progress"
  shows "request_inv s' \<and> length (rq_calls s') \<le> 1 \<and> rq_state s' \<noteq> Send_in_progress"
  using assms by (induction rule: rtranclp_induct) (auto dest: request_step_inv request_sent_step)

section \<open>Dropping the remaining results\<close>

text \<open>libpq hands out \<open>n\<close> more results, none of which it has to wait for, and then none.\<close>

fun drained :: "('p, 'r) libpq \<Rightarrow> nat \<Rightarrow> 'p \<Rightarrow> 'p option" where
  "drained pq 0 p = (if PQisBusy pq p then None
     else (case PQgetResult pq p of (None, p') \<Rightarrow> Some p' | (Some _, p') \<Rightarrow> None))"
| "drained pq (Suc n) p = (if PQisBusy pq p then None
     else (case PQgetResult pq p of (None, p') \<Rightarrow> None | (Some _, p') \<Rightarrow> drained pq n p'))"

lemma drain_drained:
  assumes "drained pq n p = Some p'" "conn_handle c = Some p"
  shows "drain pq c = Some (False, c\<lparr>conn_handle := Some p'\<rparr>)"
  using assms
proof (induction n arbitrary: p c)
  case 0
  then show ?case
    by (subst drain.simps) (auto simp: is_busy_def get_result_def on_handle_def split: if_splits prod.splits option.splits)
next
  case (Suc n)
  obtain r p1 where g: "PQgetResult pq p = (Some r, p1)" "\<not> PQisBusy pq p" "drained pq n p1 = Some p'"
    using Suc.prems(1) by (auto split: if_splits prod.splits option.splits)
  then show ?case using Suc.IH [OF g(3), of "c\<lparr>conn_handle := Some p1\<rparr>"] Suc.prems(2)
    by (subst drain.simps) (simp add: is_busy_def get_result_def on_handle_def)
qed

section \<open>Properties\<close>

definition sample_processor :: "('r, unit) processor" where
  "sample_processor r m out = (None, out)"

definition sample_connection :: "nat connection" where
  "sample_connection = (make_connection [])\<lparr>conn_handle := Some 0, conn_socket := Some 5\<rparr>"

definition sample_query :: query_source where
  "sample_query = Plain_query ''SELECT 1'' []"

definition sample_started :: "(nat, exec_status, unit) request" where
  "sample_started = (make_request_operation_context sample_connection ())
     \<lparr>rq_write_wait := True, rq_read_wait := Some First_result\<rparr>"

lemmas sample_defs = sample_libpq_def sample_processor_def sample_connection_def sample_query_def
  sample_started_def make_connection_def make_request_operation_context_def on_handle_def Let_def

lemma sample_start:
  "start_request sample_libpq sample_processor sample_query sample_connection () = Some sample_started"
  by (simp add: start_request_def sample_defs send_perform_def set_nonblocking_def
      send_query_params_def send_resume_def flush_output_def read_perform_def read_first_def is_busy_def)

lemma sample_reachable: "request_reachable sample_libpq sample_processor sample_started"
  unfolding request_reachable_def using sample_start by blast

text \<open>C2: a request is never lost and never reports twice after an error. In every state
  of every request either the handler has been called or the receiving operation waits
  for the socket; an error is the last thing the handler gets; and when the query has been
  sent, or the request has failed, with at most one call made, no second call ever follows.\<close>

theorem request_handler_calls:
  assumes "request_reachable pq process s"
  shows "(rq_calls s = [] \<longrightarrow> rq_read_wait s \<noteq> None)
    \<and> (length (rq_calls s) \<le> 1 \<or> (\<exists>ec. rq_calls s = [Success, ec]))
    \<and> (length (rq_calls s) \<le> 1 \<and> rq_state s \<noteq> Send_in_progress
        \<longrightarrow> (\<forall>s'. (request_step pq process)\<^sup>*\<^sup>* s s' \<longrightarrow> length (rq_calls s') \<le> 1))"
proof -
  have inv: "request_inv s" by (rule request_reachable_inv [OF assms])
  then have "rq_calls s = [] \<longrightarrow> rq_read_wait s \<noteq> None"
    "length (rq_calls s) \<le> 1 \<or> (\<exists>ec. rq_calls s = [Success, ec])"
    by (auto simp: request_inv_def split: if_splits)
  then show ?thesis using request_sent_run [OF _ inv] by blast
qed

theorem request_handler_calls_witness:
  "rq_calls sample_started = [] \<and> rq_read_wait sample_started \<noteq> None"
  using request_handler_calls [OF sample_reachable] by (simp add: sample_defs)

text \<open>C37: the handler of a request can be called twice. The receiving operation reports
  success without changing the state of the query, so when the query was flushed by the
  read side and the sending operation still waits for the socket, closing the connection
  completes that wait with an error and the sending operation calls the handler again.\<close>

theorem request_double_completion:
  "\<exists>s. request_reachable sample_libpq sample_processor s
     \<and> rq_calls s = [Success, Asio_error operation_aborted]"
proof -
  let ?step = "request_step sample_libpq sample_processor"
  let ?c = "sample_connection\<lparr>conn_handle := Some 2\<rparr>"
  let ?s1 = "sample_started\<lparr>rq_read_wait := None, rq_conn := ?c, rq_calls := [Success]\<rparr>"
  let ?s2 = "?s1\<lparr>rq_conn := snd (close_connection ?c)\<rparr>"
  let ?s3 = "send_resume sample_libpq (Asio_error operation_aborted) (?s2\<lparr>rq_write_wait := False\<rparr>)"
  have d: "drained sample_libpq 0 2 = Some 2" by (simp add: sample_libpq_def)
  have "read_resume sample_libpq sample_processor Success First_result (sample_started\<lparr>rq_read_wait := None\<rparr>) = Some ?s1"
    using drain_drained [OF d, of ?c]
    by (simp add: sample_defs read_resume_def consume_input_def read_first_def is_busy_def get_result_def
        read_drain_def handle_result_def process_and_done_def done_success_def)
  then have "?step sample_started ?s1" by (rule request_step.read_ready [rotated]) (simp add: sample_started_def)
  moreover have "?step ?s1 ?s2" by (rule request_step.connection_used)
  moreover have "?step ?s2 ?s3" by (rule request_step.write_ready) (simp add: sample_started_def)
  ultimately have "?step\<^sup>*\<^sup>* sample_started ?s3" by (blast intro: converse_rtranclp_into_rtranclp)
  then have "request_reachable sample_libpq sample_processor ?s3"
    unfolding request_reachable_def using sample_start by blast
  moreover have "rq_calls ?s3 = [Success, Asio_error operation_aborted]"
    by (simp add: sample_defs send_resume_def done_error_def)
  ultimately show ?thesis by blast
qed

text \<open>What a result means for the request: the code for the handler and the new output.\<close>

definition response :: "('p, 'r) libpq \<Rightarrow> ('r, 'o) processor \<Rightarrow> oid_map \<Rightarrow> 'r \<Rightarrow> 'o \<Rightarrow> error_code \<times> 'o" where
  "response pq process m r out = (case PQresultStatus pq r of
     PGRES_FATAL_ERROR \<Rightarrow> (case PQresultSqlstate pq r of
        None \<Rightarrow> (Ozo_error no_sql_state_found, out) | Some st \<Rightarrow> (Sqlstate (b36tol st), out))
   | PGRES_BAD_RESPONSE \<Rightarrow> (Ozo_error result_status_bad_response, out)
   | PGRES_EMPTY_QUERY \<Rightarrow> (Ozo_error result_status_empty_query, out)
   | st \<Rightarrow> if st \<in> {PGRES_TUPLES_OK, PGRES_COMMAND_OK, PGRES_SINGLE_TUPLE}
           then (case process r m out of (None, out') \<Rightarrow> (Success, out')
                 | (Some _, out') \<Rightarrow> (Ozo_error bad_result_process, out'))
           else (Ozo_error result_status_unexpected, out))"

lemma handle_result_response:
  "(rq_calls (handle_result pq process r s), rq_out (handle_result pq process r s)) =
    apfst (\<lambda>ec. rq_calls s @ [ec]) (response pq process (conn_oid_map (rq_conn s)) r (rq_out s))"
  by (cases "PQresultStatus pq r") (simp_all add: handle_result_def response_def process_and_done_def result_error_def
      request_defs split: prod.splits option.splits)

lemma request_response:
  assumes "conn_handle c = Some p0"
    and "PQsetnonblocking pq p0 = (0, p1)" "PQsendQueryParams pq (to_binary_query q (conn_oid_map c)) p1 = (1, p2)"
    and "PQflush pq p2 = (0, p3)" "PQisBusy pq p3" "PQconsumeInput pq p3 = (1, p4)" "\<not> PQisBusy pq p4"
    and "PQgetResult pq p4 = (Some r, p5)" "PQresultStatus pq r \<noteq> PGRES_SINGLE_TUPLE" "drained pq n p5 = Some p6"
  shows "\<exists>s s'. start_request pq process q c out = Some s \<and> rq_calls s = []
    \<and> request_step pq process s s' \<and> rq_state s = Send_finish
    \<and> (case response pq process (conn_oid_map c) r out of (ec, out') \<Rightarrow> rq_calls s' = [ec] \<and> rq_out s' = out')
    \<and> \<not> rq_write_wait s' \<and> rq_read_wait s' = None \<and> conn_oid_map (rq_conn s') = conn_oid_map c
    \<and> (PQresultStatus pq r \<in> {PGRES_TUPLES_OK, PGRES_COMMAND_OK} \<and> fst (process r (conn_oid_map c) out) = None
       \<longrightarrow> rq_conn s' = c\<lparr>conn_handle := Some p6\<rparr>)"
proof -
  let ?s = "(make_request_operation_context c out)\<lparr>rq_conn := c\<lparr>conn_handle := Some p3\<rparr>,
     rq_state := Send_finish, rq_read_wait := Some First_result\<rparr>"
  let ?c = "c\<lparr>conn_handle := Some p6\<rparr>"
  let ?s' = "handle_result pq process r (?s\<lparr>rq_read_wait := None, rq_conn := ?c\<rparr>)"
  have start: "start_request pq process q c out = Some ?s"
    using assms by (simp add: start_request_def make_request_operation_context_def send_perform_def set_nonblocking_def
      send_query_params_def send_resume_def flush_output_def read_perform_def read_first_def is_busy_def on_handle_def)
  have "read_resume pq process Success First_result (?s\<lparr>rq_read_wait := None\<rparr>) = Some ?s'"
    using assms drain_drained [OF assms(10), of "c\<lparr>conn_handle := Some p5\<rparr>"]
    by (simp add: make_request_operation_context_def read_resume_def consume_input_def read_first_def
        is_busy_def get_result_def on_handle_def read_drain_def Let_def)
  then have step: "request_step pq process ?s ?s'" by (rule request_step.read_ready [rotated]) simp
  have first: "rq_calls ?s = []" "rq_state ?s = Send_finish" by (simp_all add: make_request_operation_context_def)
  have last: "\<not> rq_write_wait ?s'" "rq_read_wait ?s' = None" "conn_oid_map (rq_conn ?s') = conn_oid_map c"
    by (auto simp: handle_result_def process_and_done_def make_request_operation_context_def request_defs
        set_error_context_def cancel_io_def split: prod.splits option.splits)
  have conn: "PQresultStatus pq r \<in> {PGRES_TUPLES_OK, PGRES_COMMAND_OK} \<and> fst (process r (conn_oid_map c) out) = None
      \<longrightarrow> rq_conn ?s' = ?c"
  proof
    assume *: "PQresultStatus pq r \<in> {PGRES_TUPLES_OK, PGRES_COMMAND_OK} \<and> fst (process r (conn_oid_map c) out) = None"
    then obtain out' where "process r (conn_oid_map c) out = (None, out')" by (cases "process r (conn_oid_map c) out") simp
    moreover have "PQresultStatus pq r \<in> {PGRES_SINGLE_TUPLE, PGRES_TUPLES_OK, PGRES_COMMAND_OK}" using * by blast
    ultimately show "rq_conn ?s' = ?c"
      by (simp add: handle_result_def process_and_done_def make_request_operation_context_def done_success_def Let_def)
  qed
  have "case response pq process (conn_oid_map c) r out of (ec, out') \<Rightarrow> rq_calls ?s' = [ec] \<and> rq_out ?s' = out'"
    using handle_result_response [of pq process r "?s\<lparr>rq_read_wait := None, rq_conn := ?c\<rparr>"]
    by (cases "response pq process (conn_oid_map c) r out") (simp add: make_request_operation_context_def)
  then show ?thesis
    by (intro exI [of _ ?s] exI [of _ ?s'] conjI start first step last conn)
qed



end
