(* ===== verification/Result.thy ===== *)
theory Result
  imports Binary_Typing
begin

text \<open>
  Query results (\<open>result.h\<close>, \<open>impl/result.h\<close>) and how rows become objects (\<open>recv_row\<close> and
  \<open>recv_result\<close> of \<open>io/recv.h\<close>). The functions of libpq that read a \<open>PGresult\<close> are the fields
  of a record; \<open>PQgetvalue\<close> is the memory the returned pointer leads to. Iterators are
  the row and column numbers they hold.
\<close>

section \<open>Results\<close>

datatype result_format = Text_format | Binary_format | Other_format int

record 'r pq_result =
  PQntuples :: "'r \<Rightarrow> int"
  PQnfields :: "'r \<Rightarrow> int"
  PQftype :: "'r \<Rightarrow> int \<Rightarrow> oid_t"
  PQfformat :: "'r \<Rightarrow> int \<Rightarrow> int"
  PQgetvalue :: "'r \<Rightarrow> int \<Rightarrow> int \<Rightarrow> bytes"
  PQgetlength :: "'r \<Rightarrow> int \<Rightarrow> int \<Rightarrow> int"
  PQgetisnull :: "'r \<Rightarrow> int \<Rightarrow> int \<Rightarrow> bool"
  PQfnumber :: "'r \<Rightarrow> string \<Rightarrow> int"

definition pq_field_format :: "'r pq_result \<Rightarrow> 'r \<Rightarrow> int \<Rightarrow> result_format" where
  "pq_field_format pq r column = (let f = PQfformat pq r column in
     if f = 0 then Text_format else if f = 1 then Binary_format else Other_format f)"

text \<open>\<open>value\<close> and \<open>row\<close> are coordinates of a result.\<close>

record coordinates =
  coord_row :: int
  coord_col :: int

definition value_oid :: "'r pq_result \<Rightarrow> 'r \<Rightarrow> coordinates \<Rightarrow> oid_t" where
  "value_oid pq r v = PQftype pq r (coord_col v)"

definition is_text :: "'r pq_result \<Rightarrow> 'r \<Rightarrow> coordinates \<Rightarrow> bool" where
  "is_text pq r v \<longleftrightarrow> pq_field_format pq r (coord_col v) = Text_format"

definition is_binary :: "'r pq_result \<Rightarrow> 'r \<Rightarrow> coordinates \<Rightarrow> bool" where
  "is_binary pq r v \<longleftrightarrow> pq_field_format pq r (coord_col v) = Binary_format"

definition value_data :: "'r pq_result \<Rightarrow> 'r \<Rightarrow> coordinates \<Rightarrow> bytes" where
  "value_data pq r v = PQgetvalue pq r (coord_row v) (coord_col v)"

definition value_size :: "'r pq_result \<Rightarrow> 'r \<Rightarrow> coordinates \<Rightarrow> int" where
  "value_size pq r v = PQgetlength pq r (coord_row v) (coord_col v)"

definition value_is_null :: "'r pq_result \<Rightarrow> 'r \<Rightarrow> coordinates \<Rightarrow> bool" where
  "value_is_null pq r v = PQgetisnull pq r (coord_row v) (coord_col v)"

definition advance_col :: "int \<Rightarrow> coordinates \<Rightarrow> coordinates" where
  "advance_col n v = v\<lparr>coord_col := coord_col v + n\<rparr>"

definition advance_row :: "int \<Rightarrow> coordinates \<Rightarrow> coordinates" where
  "advance_row n v = v\<lparr>coord_row := coord_row v + n\<rparr>"

definition row_size :: "'r pq_result \<Rightarrow> 'r \<Rightarrow> int" where
  "row_size pq r = PQnfields pq r"

definition row_end :: "'r pq_result \<Rightarrow> 'r \<Rightarrow> coordinates \<Rightarrow> coordinates" where
  "row_end pq r first = advance_col (row_size pq r) first"

definition row_find :: "'r pq_result \<Rightarrow> 'r \<Rightarrow> string \<Rightarrow> coordinates \<Rightarrow> coordinates" where
  "row_find pq r name first = (let i = PQfnumber pq r name in
     if i = - 1 then row_end pq r first else advance_col i first)"

definition row_at :: "'r pq_result \<Rightarrow> 'r \<Rightarrow> int \<Rightarrow> coordinates \<Rightarrow> coordinates result" where
  "row_at pq r index first = (if index < 0 \<or> index \<ge> row_size pq r then Inl Out_Of_Range
     else Inr (advance_col index first))"

definition row_at_name :: "'r pq_result \<Rightarrow> 'r \<Rightarrow> string \<Rightarrow> coordinates \<Rightarrow> coordinates result" where
  "row_at_name pq r name first = (let i = row_find pq r name first in
     if i = row_end pq r first then Inl Out_Of_Range else Inr i)"

definition result_begin :: coordinates where
  "result_begin = \<lparr>coord_row = 0, coord_col = 0\<rparr>"

definition result_size :: "'r pq_result \<Rightarrow> 'r \<Rightarrow> int" where
  "result_size pq r = PQntuples pq r"

definition result_at :: "'r pq_result \<Rightarrow> 'r \<Rightarrow> int \<Rightarrow> coordinates result" where
  "result_at pq r i = (if i < 0 \<or> i \<ge> result_size pq r then Inl Out_Of_Range
     else Inr (advance_row i result_begin))"

text \<open>The rows the range-based loop over a result visits.\<close>

definition result_rows :: "'r pq_result \<Rightarrow> 'r \<Rightarrow> coordinates list" where
  "result_rows pq r = map (\<lambda>i. advance_row (int i) result_begin) [0..<nat (result_size pq r)]"

section \<open>Receiving\<close>

text \<open>The size passes through \<open>std::size_t\<close> and comes back as the same 32-bit value.\<close>

definition recv_value :: "'r pq_result \<Rightarrow> 'r \<Rightarrow> oid_map \<Rightarrow> ctype \<Rightarrow> coordinates \<Rightarrow> cval \<Rightarrow> cval result" where
  "recv_value pq r m t v out = map_sum id fst
     (recv m t (value_oid pq r v) (if value_is_null pq r v then null_state_size else value_size pq r v) out
       (mk_istream (take (nat (value_size pq r v)) (value_data pq r v))))"

text \<open>What a row is received into: an object that is not a sequence, a sequence, or a
  structure with named members (adapted by Fusion or by Hana).\<close>

datatype row_type = Single ctype | Sequence "ctype list" | Structure "(string \<times> ctype) list"

fun row_types :: "row_type \<Rightarrow> ctype list" where
  "row_types (Single t) = [t]"
| "row_types (Sequence ts) = ts"
| "row_types (Structure ms) = map snd ms"

fun recv_columns :: "'r pq_result \<Rightarrow> 'r \<Rightarrow> oid_map \<Rightarrow> ctype list \<Rightarrow> coordinates \<Rightarrow> cval list \<Rightarrow> cval list result" where
  "recv_columns pq r m (t # ts) i (out # outs) =
     bindR (recv_value pq r m t i out) (\<lambda>v.
       bindR (recv_columns pq r m ts (advance_col 1 i) outs) (\<lambda>vs. Inr (v # vs)))"
| "recv_columns pq r m ts i outs = Inr []"

fun recv_members :: "'r pq_result \<Rightarrow> 'r \<Rightarrow> oid_map \<Rightarrow> (string \<times> ctype) list \<Rightarrow> coordinates \<Rightarrow> cval list \<Rightarrow> cval list result" where
  "recv_members pq r m ((name, t) # ms) first (out # outs) =
    (let i = row_find pq r name first in
     if i = row_end pq r first then Inl Range_Error
     else bindR (recv_value pq r m t i out) (\<lambda>v.
       bindR (recv_members pq r m ms first outs) (\<lambda>vs. Inr (v # vs))))"
| "recv_members pq r m ms first outs = Inr []"

text \<open>The columns of the object are its members, one for a single object.\<close>

definition recv_row :: "'r pq_result \<Rightarrow> 'r \<Rightarrow> oid_map \<Rightarrow> row_type \<Rightarrow> coordinates \<Rightarrow> cval list \<Rightarrow> cval list result" where
  "recv_row pq r m T row out =
    (if row_size pq r \<noteq> int (length (row_types T)) then Inl Range_Error
     else case T of
       Single t \<Rightarrow> recv_columns pq r m [t] row out
     | Sequence ts \<Rightarrow> recv_columns pq r m ts row out
     | Structure ms \<Rightarrow> recv_members pq r m ms row out)"

text \<open>\<open>recv_result\<close> with an insert iterator: each row is received into a value-initialised
  object, and an exception leaves the rows inserted before it.\<close>

fun recv_rows :: "'r pq_result \<Rightarrow> 'r \<Rightarrow> oid_map \<Rightarrow> row_type \<Rightarrow> coordinates list \<Rightarrow> cval list list \<Rightarrow> exn option \<times> cval list list" where
  "recv_rows pq r m T [] out = (None, out)"
| "recv_rows pq r m T (row # rows) out =
    (case recv_row pq r m T row (map default_value (row_types T)) of
       Inl e \<Rightarrow> (Some e, out)
     | Inr v \<Rightarrow> recv_rows pq r m T rows (out @ [v]))"

definition recv_result :: "'r pq_result \<Rightarrow> 'r \<Rightarrow> oid_map \<Rightarrow> row_type \<Rightarrow> cval list list \<Rightarrow> exn option \<times> cval list list" where
  "recv_result pq r m T out = recv_rows pq r m T (result_rows pq r) out"

text \<open>\<open>recv_result\<close> with a forward iterator, over the objects from the iterator on: a row
  without an object is undefined behaviour.\<close>

fun recv_rows_forward :: "'r pq_result \<Rightarrow> 'r \<Rightarrow> oid_map \<Rightarrow> row_type \<Rightarrow> coordinates list \<Rightarrow> cval list list \<Rightarrow> cval list list result option" where
  "recv_rows_forward pq r m T [] outs = Some (Inr outs)"
| "recv_rows_forward pq r m T (row # rows) [] = None"
| "recv_rows_forward pq r m T (row # rows) (out # outs) =
    (case recv_row pq r m T row out of
       Inl e \<Rightarrow> Some (Inl e)
     | Inr v \<Rightarrow> map_option (map_sum id (\<lambda>vs. v # vs)) (recv_rows_forward pq r m T rows outs))"

section \<open>Lookup\<close>

text \<open>What libpq documents of \<open>PQfnumber\<close>: a column number of the result or -1.\<close>

definition fnumber_ok :: "'r pq_result \<Rightarrow> 'r \<Rightarrow> bool" where
  "fnumber_ok pq r \<longleftrightarrow> (\<forall>name. PQfnumber pq r name = - 1 \<or> 0 \<le> PQfnumber pq r name \<and> PQfnumber pq r name < PQnfields pq r)"

lemma row_find_end:
  assumes "fnumber_ok pq r"
  shows "row_find pq r name first = row_end pq r first \<longleftrightarrow> PQfnumber pq r name = - 1"
  using assms by (cases first) (fastforce simp: row_find_def row_end_def fnumber_ok_def row_size_def advance_col_def Let_def)

section \<open>Rows that hold values\<close>

text \<open>A cell with the binary form of a value, as \<open>send\<close> writes it.\<close>

definition cell_holds :: "'r pq_result \<Rightarrow> 'r \<Rightarrow> oid_map \<Rightarrow> ctype \<Rightarrow> cval \<Rightarrow> coordinates \<Rightarrow> bool" where
  "cell_holds pq r m t v c \<longleftrightarrow> value_oid pq r c = type_oid m t \<and> (value_is_null pq r c \<longleftrightarrow> is_null v)
     \<and> (is_null v \<or> value_size pq r c = size_of t v \<and> take (nat (size_of t v)) (value_data pq r c) = send m t v)"

text \<open>The column a member is received from.\<close>

fun column_of :: "'r pq_result \<Rightarrow> 'r \<Rightarrow> row_type \<Rightarrow> nat \<Rightarrow> int" where
  "column_of pq r (Structure ms) j = PQfnumber pq r (fst (ms ! j))"
| "column_of pq r _ j = int j"

definition row_holds :: "'r pq_result \<Rightarrow> 'r \<Rightarrow> oid_map \<Rightarrow> row_type \<Rightarrow> coordinates \<Rightarrow> cval list \<Rightarrow> bool" where
  "row_holds pq r m T row vs \<longleftrightarrow> length vs = length (row_types T) \<and> (\<forall>j<length vs.
     column_of pq r T j \<noteq> - 1 \<and> item_ok m (row_types T ! j) (vs ! j)
     \<and> cell_holds pq r m (row_types T ! j) (vs ! j) (advance_col (column_of pq r T j) row))"

lemma recv_value_cell:
  assumes "item_ok m t v" "cell_holds pq r m t v c"
  shows "recv_value pq r m t c (default_value t) = Inr v"
proof (cases "is_null v")
  case True
  then have "v = VNull" "is_nullable t"
    using assms(1) has_type_not_nullable(1) by (auto simp: item_ok_def is_null_def)
  then show ?thesis using assms(2) True
    by (simp add: recv_value_def cell_holds_def recv_def detail_recv_def)
next
  case False
  have "recv_exact m t" using assms(1) by (intro recv_exact_all) (simp add: item_ok_def)
  then show ?thesis
    using assms False detail_recv_send [of m t v "Some (type_oid m t)" "[]"]
    by (simp add: recv_value_def cell_holds_def recv_def)
qed

lemma advance_col_add [simp]: "advance_col i (advance_col j c) = advance_col (i + j) c"
  by (simp add: advance_col_def)

lemma advance_col_0 [simp]: "advance_col 0 c = c"
  by (simp add: advance_col_def)

lemma recv_columns_cells:
  assumes "length vs = length ts"
    "\<And>j. j < length vs \<Longrightarrow> item_ok m (ts ! j) (vs ! j) \<and> cell_holds pq r m (ts ! j) (vs ! j) (advance_col (int j) c)"
  shows "recv_columns pq r m ts c (map default_value ts) = Inr vs"
  using assms
proof (induction vs ts arbitrary: c rule: list_induct2)
  case (Cons v vs t ts)
  have "recv_value pq r m t c (default_value t) = Inr v" using Cons.prems [of 0] by (intro recv_value_cell) simp_all
  moreover have "recv_columns pq r m ts (advance_col 1 c) (map default_value ts) = Inr vs"
    using Cons.prems [of "Suc _"] by (intro Cons.IH) (simp add: algebra_simps)
  ultimately show ?case by simp
qed simp

lemma recv_members_cells:
  assumes "fnumber_ok pq r" "length vs = length ms"
    "\<And>j. j < length vs \<Longrightarrow> PQfnumber pq r (fst (ms ! j)) \<noteq> - 1 \<and> item_ok m (snd (ms ! j)) (vs ! j)
      \<and> cell_holds pq r m (snd (ms ! j)) (vs ! j) (advance_col (PQfnumber pq r (fst (ms ! j))) c)"
  shows "recv_members pq r m ms c (map (\<lambda>x. default_value (snd x)) ms) = Inr vs"
  using assms(2,3)
proof (induction vs ms rule: list_induct2)
  case (Cons v vs x ms)
  obtain name t where x: "x = (name, t)" by (cases x)
  have found: "PQfnumber pq r name \<noteq> - 1" using Cons.prems [of 0] by (simp add: x)
  then have "row_find pq r name c = advance_col (PQfnumber pq r name) c" by (simp add: row_find_def Let_def)
  moreover have "recv_value pq r m t (advance_col (PQfnumber pq r name) c) (default_value t) = Inr v"
    using Cons.prems [of 0] by (intro recv_value_cell) (simp_all add: x)
  moreover have "recv_members pq r m ms c (map (\<lambda>x. default_value (snd x)) ms) = Inr vs"
    using Cons.prems [of "Suc _"] by (intro Cons.IH) simp
  ultimately show ?case using found row_find_end [OF assms(1), of name c] by (simp add: x Let_def)
qed simp

lemma recv_row_cells:
  assumes "fnumber_ok pq r" "row_size pq r = int (length (row_types T))" "row_holds pq r m T row vs"
  shows "recv_row pq r m T row (map default_value (row_types T)) = Inr vs"
proof (cases T)
  case (Single t)
  then obtain v where "vs = [v]" using assms(3) by (auto simp: row_holds_def length_Suc_conv)
  then show ?thesis using assms Single by (auto simp: recv_row_def row_holds_def intro: recv_value_cell)
next
  case (Sequence ts)
  then show ?thesis using assms recv_columns_cells [of vs ts m pq r row] by (simp add: recv_row_def row_holds_def)
next
  case (Structure ms)
  then have "recv_members pq r m ms row (map (\<lambda>x. default_value (snd x)) ms) = Inr vs"
    using assms by (intro recv_members_cells) (auto simp: row_holds_def)
  then show ?thesis using assms(2) Structure by (simp add: recv_row_def comp_def)
qed

lemma recv_rows_cells:
  assumes "fnumber_ok pq r" "row_size pq r = int (length (row_types T))" "list_all2 (row_holds pq r m T) rows vss"
  shows "recv_rows pq r m T rows out = (None, out @ vss)"
  using assms(3)
  by (induction rows vss arbitrary: out rule: list_all2_induct) (simp_all add: recv_row_cells [OF assms(1,2)])

lemma result_rows_holds:
  assumes "PQntuples pq r = int (length vss)"
    "\<And>i. i < length vss \<Longrightarrow> row_holds pq r m T (advance_row (int i) result_begin) (vss ! i)"
  shows "list_all2 (row_holds pq r m T) (result_rows pq r) vss"
  using assms by (simp add: list_all2_conv_all_nth result_rows_def result_size_def)

text \<open>C14: rows are received as they are. When the cells of a result hold the binary forms of
  values, one column for each member of the object a row is received into, \<open>recv_result\<close>
  appends exactly the rows of values to its output, in order; the columns of a
  structure are found by name, whatever their order, and null cells become null values.\<close>

theorem recv_result_roundtrip:
  assumes "fnumber_ok pq r" "PQnfields pq r = int (length (row_types T))" "PQntuples pq r = int (length vss)"
    "\<And>i. i < length vss \<Longrightarrow> row_holds pq r m T (advance_row (int i) result_begin) (vss ! i)"
  shows "recv_result pq r m T out = (None, out @ vss)"
  using assms(2) recv_rows_cells [OF assms(1) _ result_rows_holds [OF assms(3,4)]]
  by (simp add: recv_result_def row_size_def)

text \<open>A result with one row, whose columns are a truth value named \<open>b\<close> and a null text
  named \<open>a\<close>.\<close>

definition sample_result :: "unit pq_result" where
  "sample_result = \<lparr>PQntuples = (\<lambda>r. 1), PQnfields = (\<lambda>r. 2),
     PQftype = (\<lambda>r c. if c = 0 then type_oid [] TBool else type_oid [] (TNullable TText)),
     PQfformat = (\<lambda>r c. 1), PQgetvalue = (\<lambda>r i c. if c = 0 then [1] else []),
     PQgetlength = (\<lambda>r i c. if c = 0 then 1 else 0), PQgetisnull = (\<lambda>r i c. c \<noteq> 0),
     PQfnumber = (\<lambda>r name. if name = ''b'' then 0 else if name = ''a'' then 1 else - 1)\<rparr>"

lemma sample_result_row:
  "row_holds sample_result () [] (Structure [(''a'', TNullable TText), (''b'', TBool)])
     (advance_row 0 result_begin) [VNull, VBool True]"
proof -
  have "item_ok [] (TNullable TText) VNull"
    by (simp add: item_ok_def sent_length_def send_def send_value_def is_null_def)
  moreover have "item_ok [] TBool (VBool True)"
    by (simp add: item_ok_def sent_length_def send_def send_value_def is_null_def codec_simps write_bool_def write_char_def)
  moreover have "cell_holds sample_result () [] TBool (VBool True) \<lparr>coord_row = 0, coord_col = 0\<rparr>"
    by (simp add: cell_holds_def sample_result_def value_oid_def value_is_null_def value_size_def value_data_def is_null_def
        size_of_def size_of_value_def static_size_def is_dynamic_size_def send_def send_value_def codec_simps write_bool_def write_char_def)
  moreover have "cell_holds sample_result () [] (TNullable TText) VNull \<lparr>coord_row = 0, coord_col = 1\<rparr>"
    by (simp add: cell_holds_def sample_result_def value_oid_def value_is_null_def is_null_def)
  ultimately show ?thesis
    by (simp add: row_holds_def less_Suc_eq advance_col_def advance_row_def result_begin_def sample_result_def)
qed

theorem recv_result_roundtrip_witness:
  "recv_result sample_result () [] (Structure [(''a'', TNullable TText), (''b'', TBool)]) [] = (None, [[VNull, VBool True]])"
proof -
  have "fnumber_ok sample_result ()" by (simp add: fnumber_ok_def sample_result_def)
  then show ?thesis
    using recv_result_roundtrip [of sample_result "()" "Structure [(''a'', TNullable TText), (''b'', TBool)]" "[[VNull, VBool True]]" "[]" "[]"]
      sample_result_row by (simp add: sample_result_def)
qed

section \<open>Outcomes\<close>

definition row_typed :: "row_type \<Rightarrow> cval list \<Rightarrow> bool" where
  "row_typed T vs \<longleftrightarrow> list_all2 has_type (row_types T) vs"

lemma map_sum_fst_Inr: "map_sum id fst x = Inr v \<longleftrightarrow> (\<exists>s. x = Inr (v, s))"
  by (cases x) auto

lemma recv_value_typed:
  assumes "wf_type t" "has_type t cur" "recv_value pq r m t c cur = Inr v"
  shows "has_type t v"
proof -
  obtain s' where "detail_recv m t (recv_impl m t) (Some (value_oid pq r c))
      (if value_is_null pq r c then null_state_size else value_size pq r c) cur
      (mk_istream (take (nat (value_size pq r c)) (value_data pq r c))) = Inr (v, s')"
    using assms(3) unfolding recv_value_def recv_def by (simp only: map_sum_fst_Inr) blast
  then show ?thesis by (rule detail_recv_typed [OF recv_typed_all [OF assms(1)] assms(1,2)])
qed

lemma recv_columns_typed:
  assumes "list_all wf_type ts" "list_all2 has_type ts cur" "recv_columns pq r m ts c cur = Inr vs"
  shows "list_all2 has_type ts vs"
  using assms(2,1,3)
  by (induction ts cur arbitrary: c vs rule: list_all2_induct) (auto intro: recv_value_typed)

lemma recv_members_typed:
  assumes "list_all wf_type (map snd ms)" "list_all2 has_type (map snd ms) cur" "recv_members pq r m ms c cur = Inr vs"
  shows "list_all2 has_type (map snd ms) vs"
  using assms
proof (induction ms arbitrary: cur vs)
  case (Cons x ms)
  obtain name t where x: "x = (name, t)" by (cases x)
  obtain y ys where "cur = y # ys" "has_type t y" "list_all2 has_type (map snd ms) ys"
    using Cons.prems(2) by (auto simp: x list_all2_Cons1)
  then show ?case using Cons.prems(1,3) Cons.IH [of ys]
    by (auto simp: x Let_def split: if_splits intro: recv_value_typed)
qed simp

lemma recv_row_typed:
  assumes "list_all wf_type (row_types T)" "row_typed T cur" "recv_row pq r m T row cur = Inr vs"
  shows "row_typed T vs"
proof (cases T)
  case (Single t)
  then show ?thesis using assms recv_columns_typed [of "[t]" cur pq r m row vs]
    by (simp add: recv_row_def row_typed_def del: recv_columns.simps split: if_splits)
qed (use assms in \<open>auto simp: recv_row_def row_typed_def dest: recv_columns_typed recv_members_typed split: if_splits\<close>)

lemma defaults_typed: "list_all wf_type (row_types T) \<Longrightarrow> row_typed T (map default_value (row_types T))"
  by (auto simp: row_typed_def list_all_iff list_all2_map_same intro: has_type_default)

lemma recv_rows_outcome:
  assumes "list_all wf_type (row_types T)" "recv_rows pq r m T rows out = (e, out')"
  shows "\<exists>vss. out' = out @ vss \<and> list_all (row_typed T) vss
    \<and> list_all2 (\<lambda>row vs. recv_row pq r m T row (map default_value (row_types T)) = Inr vs) (take (length vss) rows) vss
    \<and> (case e of None \<Rightarrow> length vss = length rows
       | Some x \<Rightarrow> length vss < length rows \<and> recv_row pq r m T (rows ! length vss) (map default_value (row_types T)) = Inl x)"
  using assms(2)
proof (induction rows arbitrary: out)
  case (Cons row rows)
  show ?case
  proof (cases "recv_row pq r m T row (map default_value (row_types T))")
    case (Inl x)
    then show ?thesis using Cons.prems by (intro exI [of _ "[]"]) auto
  next
    case (Inr v)
    then obtain vss where "out' = (out @ [v]) @ vss" "list_all (row_typed T) vss"
      "list_all2 (\<lambda>row vs. recv_row pq r m T row (map default_value (row_types T)) = Inr vs) (take (length vss) rows) vss"
      "case e of None \<Rightarrow> length vss = length rows
       | Some x \<Rightarrow> length vss < length rows \<and> recv_row pq r m T (rows ! length vss) (map default_value (row_types T)) = Inl x"
      using Cons.IH [of "out @ [v]"] Cons.prems by auto
    then show ?thesis using Inr recv_row_typed [OF assms(1) defaults_typed [OF assms(1)] Inr]
      by (intro exI [of _ "v # vss"]) (auto split: option.splits)
  qed
qed simp



end
