(* ===== verification/Oid_Map.thy ===== *)
theory Oid_Map
  imports Query_Builder Request Result
begin

text \<open>
  How the output of a request is received (\<open>async_request_out_handler\<close> of
  \<open>impl/async_request.h\<close>) and how a new connection learns the OIDs of the registered types
  (\<open>impl/request_oid_map.h\<close> and the handlers of \<open>impl/async_connect.h\<close>): a query with the
  names of the types, whose result fills the map of the connection. The messages of the
  exceptions are a parameter.
\<close>

section \<open>Receiving the output of a request\<close>

definition async_request_out_handler ::
    "(exn \<Rightarrow> string) \<Rightarrow> 'r pq_result \<Rightarrow> row_type \<Rightarrow> ('r, cval list list) processor" where
  "async_request_out_handler what pr T r m out =
    (case recv_result pr r m T out of (e, out') \<Rightarrow> (map_option what e, out'))"

section \<open>The query\<close>

text \<open>\<open>type_name\<close>, None for a type without definition.\<close>

definition type_name :: "ctype \<Rightarrow> string option" where
  "type_name t = (case unwrap_type t of
     TArray c v \<Rightarrow> map_option (\<lambda>n. n @ ''[]'') (bound_name (unwrap_type v))
   | u \<Rightarrow> bound_name u)"

definition get_types_names :: "oid_map \<Rightarrow> string list option" where
  "get_types_names m = those (map (\<lambda>(t, oid). type_name t) m)"

definition text_value :: "string \<Rightarrow> cval" where
  "text_value s = VBytes (map of_char s)"

definition make_oids_query :: "oid_map \<Rightarrow> query_source option" where
  "make_oids_query m = map_option (\<lambda>names.
     build (add_builder (add_param (sql ''SELECT COALESCE(to_regtype(f)::oid, 0) AS oid FROM UNNEST('')
         (TArray (Static_array (length names)) TText, VArray (map text_value names)))
       (sql '') AS f''))) (get_types_names m)"

section \<open>Filling the map\<close>

text \<open>The loop over the keys, which leaves the entries it has set when it throws.\<close>

fun set_oids :: "oid_map \<Rightarrow> oid_t list \<Rightarrow> exn option \<times> oid_map" where
  "set_oids ((t, old) # m) (oid # res) =
    (if oid = null_oid then (Some Invalid_Argument, (t, old) # m)
     else case set_oids m res of (e, m') \<Rightarrow> (e, (t, oid) # m'))"
| "set_oids m res = (None, m)"

definition set_oid_map :: "oid_map \<Rightarrow> oid_t list \<Rightarrow> exn option \<times> oid_map" where
  "set_oid_map m res = (if length m \<noteq> length res then (Some Length_Error, m) else set_oids m res)"

text \<open>The vector of OIDs the rows are received into.\<close>

fun oids_result :: "cval list list \<Rightarrow> oid_t list" where
  "oids_result [] = []"
| "oids_result ([VOid oid] # rows) = oid # oids_result rows"
| "oids_result (row # rows) = oids_result rows"

text \<open>\<open>request_oid_map_op\<close>: the request, None when a type has no name, and its completion.\<close>

definition oid_map_perform ::
    "('p, 'r) libpq \<Rightarrow> 'r pq_result \<Rightarrow> (exn \<Rightarrow> string) \<Rightarrow> 'p connection \<Rightarrow> ('p, 'r, cval list list) request option" where
  "oid_map_perform pq pr what conn = Option.bind (make_oids_query (conn_oid_map conn))
     (\<lambda>q. start_request pq (async_request_out_handler what pr (Single TOid)) q conn [])"

definition oid_map_call ::
    "(exn \<Rightarrow> string) \<Rightarrow> error_code \<Rightarrow> cval list list \<Rightarrow> 'p connection \<Rightarrow> error_code \<times> 'p connection" where
  "oid_map_call what ec res conn =
    (if failed ec then (ec, conn)
     else case set_oid_map (conn_oid_map conn) (oids_result res) of
       (None, m) \<Rightarrow> (ec, conn\<lparr>conn_oid_map := m\<rparr>)
     | (Some e, m) \<Rightarrow> (Ozo_error oid_request_failed, set_error_context (what e) (conn\<lparr>conn_oid_map := m\<rparr>)))"

text \<open>What follows a completed connect operation: the handler, or the request for the OIDs
  when the connection is established and types are registered.\<close>

datatype ('p, 'r) after_connect =
    Call_handler error_code "'p connection"
  | Request_oids "('p, 'r, cval list list) request option"

definition request_oid_map_handler ::
    "('p, 'r) libpq \<Rightarrow> 'r pq_result \<Rightarrow> (exn \<Rightarrow> string) \<Rightarrow> error_code \<Rightarrow> 'p connection \<Rightarrow> ('p, 'r) after_connect" where
  "request_oid_map_handler pq pr what ec conn =
    (if failed ec then Call_handler ec conn else Request_oids (oid_map_perform pq pr what conn))"

definition apply_oid_map_request ::
    "('p, 'r) libpq \<Rightarrow> 'r pq_result \<Rightarrow> (exn \<Rightarrow> string) \<Rightarrow> error_code \<Rightarrow> 'p connection \<Rightarrow> ('p, 'r) after_connect" where
  "apply_oid_map_request pq pr what ec conn =
    (if oid_map_empty (conn_oid_map conn) then Call_handler ec conn
     else request_oid_map_handler pq pr what ec conn)"

section \<open>Lemmas\<close>

lemma set_oids_correct:
  assumes "length m = length res"
  shows "set_oids m res = (None, m') \<longleftrightarrow> null_oid \<notin> set res \<and> m' = zip (map fst m) res"
  using assms
proof (induction m res arbitrary: m' rule: set_oids.induct)
  case (1 t old m oid res)
  then show ?case by (cases "set_oids m res") auto
qed auto

text \<open>An exception leaves the types and keeps every entry that is not replaced by an OID of the
  answer.\<close>

lemma set_oids_keys: "map fst (snd (set_oids m res)) = map fst m"
  by (induction m res rule: set_oids.induct) (auto split: prod.split)

lemma set_oid_map_correct:
  "set_oid_map m res = (None, m') \<longleftrightarrow> length m = length res \<and> null_oid \<notin> set res \<and> m' = zip (map fst m) res"
  using set_oids_correct [of m res m'] by (simp add: set_oid_map_def)

lemma oids_result_rows [simp]: "oids_result (map (\<lambda>oid. [VOid oid]) oids) = oids"
  by (induction oids) simp_all

lemma oid_map_call_success:
  "oid_map_call what Success (map (\<lambda>oid. [VOid oid]) oids) conn = (Success, conn') \<longleftrightarrow>
     length (conn_oid_map conn) = length oids \<and> null_oid \<notin> set oids
     \<and> conn' = conn\<lparr>conn_oid_map := zip (map fst (conn_oid_map conn)) oids\<rparr>"
proof (cases "set_oid_map (conn_oid_map conn) oids")
  case (Pair e m)
  show ?thesis
  proof (cases e)
    case None
    then show ?thesis using set_oid_map_correct [of "conn_oid_map conn" oids m] Pair
      by (auto simp: oid_map_call_def)
  next
    case (Some x)
    then have "\<not> (length (conn_oid_map conn) = length oids \<and> null_oid \<notin> set oids)"
      using set_oid_map_correct [of "conn_oid_map conn" oids "zip (map fst (conn_oid_map conn)) oids"] Pair by simp
    then show ?thesis using Pair Some by (simp add: oid_map_call_def)
  qed
qed

lemma oid_map_call_outcome:
  "if length oids = length (conn_oid_map conn) \<and> null_oid \<notin> set oids
   then oid_map_call what Success (map (\<lambda>oid. [VOid oid]) oids) conn =
     (Success, conn\<lparr>conn_oid_map := zip (map fst (conn_oid_map conn)) oids\<rparr>)
   else fst (oid_map_call what Success (map (\<lambda>oid. [VOid oid]) oids) conn) = Ozo_error oid_request_failed"
proof (cases "length oids = length (conn_oid_map conn) \<and> null_oid \<notin> set oids")
  case True
  then show ?thesis using oid_map_call_success [of what oids conn] by auto
next
  case False
  let ?r = "oid_map_call what Success (map (\<lambda>oid. [VOid oid]) oids) conn"
  have "fst ?r \<noteq> Success"
    using False oid_map_call_success [of what oids conn "snd ?r"] by (metis prod.collapse)
  moreover have "fst ?r \<in> {Success, Ozo_error oid_request_failed}"
    by (simp add: oid_map_call_def split: prod.split option.split)
  ultimately have "fst ?r = Ozo_error oid_request_failed" by simp
  then show ?thesis unfolding if_not_P [OF False] .
qed

text \<open>The rows of a response with one result that holds them.\<close>

lemma response_rows:
  assumes "PQresultStatus pq r = PGRES_TUPLES_OK"
    and "fnumber_ok pr r" "PQnfields pr r = int (length (row_types T))" "PQntuples pr r = int (length vss)"
    and "\<And>i. i < length vss \<Longrightarrow> row_holds pr r m T (advance_row (int i) result_begin) (vss ! i)"
  shows "response pq (async_request_out_handler what pr T) m r out = (Success, out @ vss)"
proof -
  have "recv_result pr r m T out = (None, out @ vss)"
    using assms(3) recv_rows_cells [OF assms(2) _ result_rows_holds [OF assms(4,5)]]
    by (simp add: recv_result_def row_size_def)
  then show ?thesis using assms(1) by (simp add: response_def async_request_out_handler_def)
qed

lemma zip_type_oid:
  assumes "length m = length oids" "distinct (map fst m)" "i < length m"
    and "traits_oid (fst (m ! i)) = None" "unwrap_type (fst (m ! i)) = fst (m ! i)"
  shows "type_oid (zip (map fst m) oids) (fst (m ! i)) = oids ! i"
proof -
  have "map_of (zip (map fst m) oids) (map fst m ! i) = Some (oids ! i)"
    using assms(1-3) by (intro map_of_zip_nth) simp_all
  then show ?thesis using assms(3-5) by (simp add: type_oid_def)
qed

text \<open>C16: loading the OIDs. When the server answers the request with one row for each registered
  type, whose only column is the OID of a type that exists, the request completes and the handler is called with
  success and a connection whose map gives each registered type its OID. When the answer
  has another number of rows or a null OID, the handler is called with
  \<open>oid_request_failed\<close>.\<close>

theorem oid_map_loaded:
  assumes "conn_handle c = Some p0" "make_oids_query (conn_oid_map c) = Some q"
    and "PQsetnonblocking pq p0 = (0, p1)" "PQsendQueryParams pq (to_binary_query q (conn_oid_map c)) p1 = (1, p2)"
    and "PQflush pq p2 = (0, p3)" "PQisBusy pq p3" "PQconsumeInput pq p3 = (1, p4)" "\<not> PQisBusy pq p4"
    and "PQgetResult pq p4 = (Some r, p5)" "drained pq n p5 = Some p6"
    and "PQresultStatus pq r = PGRES_TUPLES_OK" "fnumber_ok pr r" "PQnfields pr r = 1" "PQntuples pr r = int (length oids)"
    and rows: "\<And>i. i < length oids \<Longrightarrow>
      row_holds pr r (conn_oid_map c) (Single TOid) (advance_row (int i) result_begin) [VOid (oids ! i)]"
  shows "\<exists>s s'. oid_map_perform pq pr what c = Some s
    \<and> request_step pq (async_request_out_handler what pr (Single TOid)) s s' \<and> rq_calls s' = [Success]
    \<and> (if length oids = length (conn_oid_map c) \<and> null_oid \<notin> set oids
       then oid_map_call what Success (rq_out s') (rq_conn s') =
         (Success, (rq_conn s')\<lparr>conn_oid_map := zip (map fst (conn_oid_map c)) oids\<rparr>)
       else fst (oid_map_call what Success (rq_out s') (rq_conn s')) = Ozo_error oid_request_failed)"
proof -
  have "response pq (async_request_out_handler what pr (Single TOid)) (conn_oid_map c) r [] =
      (Success, [] @ map (\<lambda>oid. [VOid oid]) oids)"
    using assms(11-14) rows by (intro response_rows) simp_all
  moreover have "PQresultStatus pq r \<noteq> PGRES_SINGLE_TUPLE" using assms(11) by simp
  ultimately obtain s s' where s: "start_request pq (async_request_out_handler what pr (Single TOid)) q c [] = Some s"
      "request_step pq (async_request_out_handler what pr (Single TOid)) s s'" "rq_calls s' = [Success]"
      "rq_out s' = map (\<lambda>oid. [VOid oid]) oids" "conn_oid_map (rq_conn s') = conn_oid_map c"
    using request_response [of c p0 pq p1 q p2 p3 p4 r p5 n p6 "async_request_out_handler what pr (Single TOid)" "[]"] assms
    by fastforce
  have "oid_map_perform pq pr what c = Some s" using s(1) assms(2) by (simp add: oid_map_perform_def)
  then show ?thesis using s oid_map_call_outcome [of oids "rq_conn s'" what]
    by (intro exI [of _ s] exI [of _ s']) simp
qed

text \<open>A server that answers with the OID 77 for the only registered type.\<close>

definition sample_server :: "(nat, exec_status) libpq" where
  "sample_server = sample_libpq\<lparr>PQflush := (\<lambda>p. (0, p)),
     PQgetResult := (\<lambda>p. if p = 1 then (Some PGRES_TUPLES_OK, 2) else (None, p))\<rparr>"

definition sample_oids :: "exec_status pq_result" where
  "sample_oids = \<lparr>PQntuples = (\<lambda>r. 1), PQnfields = (\<lambda>r. 1), PQftype = (\<lambda>r c. type_oid [] TOid), PQfformat = (\<lambda>r c. 1),
     PQgetvalue = (\<lambda>r i c. send [] TOid (VOid 77)), PQgetlength = (\<lambda>r i c. 4), PQgetisnull = (\<lambda>r i c. False),
     PQfnumber = (\<lambda>r name. if name = ''oid'' then 0 else - 1)\<rparr>"

definition sample_types :: "nat connection" where
  "sample_types = (make_connection [(TStruct ''t'' [], null_oid)])\<lparr>conn_handle := Some 0\<rparr>"

lemma type_oid_TOid: "type_oid m TOid = type_oid [] TOid"
  by (simp add: type_oid_def traits_oid_def is_custom_def type_definition_rows)

lemma send_TOid: "send m TOid (VOid w) = send [] TOid (VOid w)"
  by (simp add: send_def send_value_def)

lemma length_send_oid: "length (send m TOid (VOid w)) = 4"
  by (simp add: send_def send_value_def is_null_def length_write_int)

lemma sample_oids_row:
  "row_holds sample_oids r m (Single TOid) (advance_row 0 result_begin) [VOid 77]"
proof -
  have "item_ok m TOid (VOid 77)" by (simp add: item_ok_def sent_length_def length_send_oid)
  moreover have "size_of TOid (VOid 77) = 4"
    by (simp add: size_of_def size_of_value_def is_null_def static_size_def is_dynamic_size_def)
  ultimately show ?thesis
    using length_send_oid [of "[]" 77]
    by (simp add: row_holds_def cell_holds_def value_oid_def value_is_null_def value_size_def value_data_def is_null_def
        sample_oids_def type_oid_TOid [of m] send_TOid [of m])
qed

theorem oid_map_loaded_witness:
  "\<exists>s s'. oid_map_perform sample_server sample_oids (\<lambda>e. ''error'') sample_types = Some s
    \<and> request_step sample_server (async_request_out_handler (\<lambda>e. ''error'') sample_oids (Single TOid)) s s'
    \<and> oid_map_call (\<lambda>e. ''error'') Success (rq_out s') (rq_conn s') =
        (Success, (rq_conn s')\<lparr>conn_oid_map := [(TStruct ''t'' [], 77)]\<rparr>)"
proof -
  obtain q where q: "make_oids_query (conn_oid_map sample_types) = Some q"
    by (simp add: make_oids_query_def get_types_names_def sample_types_def make_connection_def type_name_def)
  have pq: "PQsetnonblocking sample_server 0 = (0, 0)"
    "PQsendQueryParams sample_server (to_binary_query q (conn_oid_map sample_types)) 0 = (1, 0)"
    "PQflush sample_server 0 = (0, 0)" "PQisBusy sample_server 0" "PQconsumeInput sample_server 0 = (1, 1)"
    "\<not> PQisBusy sample_server 1" "PQgetResult sample_server 1 = (Some PGRES_TUPLES_OK, 2)"
    "drained sample_server 0 2 = Some 2" "PQresultStatus sample_server PGRES_TUPLES_OK = PGRES_TUPLES_OK"
    by (simp_all add: sample_server_def sample_libpq_def)
  have pr: "fnumber_ok sample_oids PGRES_TUPLES_OK" "PQnfields sample_oids PGRES_TUPLES_OK = 1"
    "PQntuples sample_oids PGRES_TUPLES_OK = int (length [77 :: oid_t])"
    by (simp_all add: fnumber_ok_def sample_oids_def)
  have c: "conn_handle sample_types = Some 0" "conn_oid_map sample_types = [(TStruct ''t'' [], null_oid)]"
    by (simp_all add: sample_types_def make_connection_def)
  show ?thesis
    using oid_map_loaded [OF c(1) q pq pr, of "\<lambda>e. ''error''"] sample_oids_row
    by (simp add: c(2) null_oid_def) blast
qed

end
