(* ===== verification/Connection_Source.thy ===== *)
theory Connection_Source
  imports Oid_Map Connection_Pool
begin

text \<open>
  Connection sources and providers: \<open>connection_info\<close> (\<open>connection_info.h\<close>), the providers of
  \<open>connector.h\<close>, the dispatch of \<open>async_get_connection\<close> (\<open>connection.h\<close>) and the accessors of a
  connection (\<open>impl/connection.h\<close>). Executors and statistics are left out; the deadline of a connect
  operation is that of theory \<open>Deadline\<close>.
\<close>

section \<open>Accessors\<close>

text \<open>The functions of libpq that describe a connection; each of them may give a null
  pointer.\<close>

record 'p libpq_info =
  PQdb :: "'p option \<Rightarrow> string option"
  PQhost :: "'p option \<Rightarrow> string option"
  PQport :: "'p option \<Rightarrow> string option"
  PQuser :: "'p option \<Rightarrow> string option"
  PQpass :: "'p option \<Rightarrow> string option"

definition make_string_view :: "string option \<Rightarrow> string" where
  "make_string_view src = (case src of None \<Rightarrow> [] | Some s \<Rightarrow> s)"

definition get_native_handle :: "'p connection \<Rightarrow> 'p option" where
  "get_native_handle c = conn_handle c"

definition get_database :: "'p libpq_info \<Rightarrow> 'p connection \<Rightarrow> string" where
  "get_database pq c = make_string_view (PQdb pq (get_native_handle c))"

definition get_host :: "'p libpq_info \<Rightarrow> 'p connection \<Rightarrow> string" where
  "get_host pq c = make_string_view (PQhost pq (get_native_handle c))"

definition get_port :: "'p libpq_info \<Rightarrow> 'p connection \<Rightarrow> string" where
  "get_port pq c = make_string_view (PQport pq (get_native_handle c))"

definition get_user :: "'p libpq_info \<Rightarrow> 'p connection \<Rightarrow> string" where
  "get_user pq c = make_string_view (PQuser pq (get_native_handle c))"

definition get_password :: "'p libpq_info \<Rightarrow> 'p connection \<Rightarrow> string" where
  "get_password pq c = make_string_view (PQpass pq (get_native_handle c))"

text \<open>A null connection has no message; what libpq says of a connection without a handle is
  None.\<close>

definition pq_error_message :: "('p, 'r) libpq \<Rightarrow> 'p connection option \<Rightarrow> string option" where
  "pq_error_message pq c = (case c of
     None \<Rightarrow> Some []
   | Some c \<Rightarrow> map_option (connection_error_message pq) (conn_handle c))"

definition connection_good :: "('p, 'r) libpq \<Rightarrow> 'p connection option \<Rightarrow> bool" where
  "connection_good pq c \<longleftrightarrow> \<not> connection_bad pq c"

text \<open>The destructor closes the connection.\<close>

definition connection_destroy :: "'p connection \<Rightarrow> 'p connection" where
  "connection_destroy c = snd (close_connection c)"

section \<open>Sources\<close>

record connection_info =
  ci_conn_str :: string
  ci_types :: "ctype list"

definition make_connection_info :: "string \<Rightarrow> ctype list \<Rightarrow> connection_info" where
  "make_connection_info s ts = \<lparr>ci_conn_str = s, ci_types = ts\<rparr>"

text \<open>The call operator: a new connection with the registered types is connected; the
  completions of the waits are given.\<close>

definition connection_info_call ::
    "('p, 'r) libpq \<Rightarrow> connection_info \<Rightarrow> error_code list \<Rightarrow> connect_action \<times> 'p connection" where
  "connection_info_call pq info ecs = async_connect pq (ci_conn_str info) ecs (make_connection (register_types (ci_types info)))"

text \<open>What follows when the connect operation has completed, None while it waits.\<close>

definition connection_info_done ::
    "('p, 'r) libpq \<Rightarrow> 'r pq_result \<Rightarrow> (exn \<Rightarrow> string) \<Rightarrow> connection_info \<Rightarrow> error_code list \<Rightarrow> ('p, 'r) after_connect option" where
  "connection_info_done pq pr what info ecs = (case connection_info_call pq info ecs of
     (Connected ec, c) \<Rightarrow> Some (apply_oid_map_request pq pr what ec c)
   | _ \<Rightarrow> None)"

section \<open>Providers\<close>

datatype 'p provider =
    Connection_provider connection_info
  | Bind_timeout "'p provider" int
  | Connection_itself "'p connection"

datatype 'p acquisition =
    Forwarded error_code "'p connection"
  | Connecting connection_info time_constraint

fun async_get_connection :: "'p provider \<Rightarrow> time_constraint \<Rightarrow> time \<Rightarrow> 'p acquisition" where
  "async_get_connection (Connection_provider info) t now = Connecting info t"
| "async_get_connection (Bind_timeout target limit) t now =
     async_get_connection target (Duration (bind_timeout limit t now)) now"
| "async_get_connection (Connection_itself c) t now = (case forward_connection c of (ec, c') \<Rightarrow> Forwarded ec c')"

text \<open>The deprecated \<open>make_connector\<close>, with a time-out and without.\<close>

definition make_connector :: "connection_info \<Rightarrow> int option \<Rightarrow> 'p provider" where
  "make_connector info timeout = (case timeout of
     None \<Rightarrow> Connection_provider info | Some d \<Rightarrow> Bind_timeout (Connection_provider info) d)"

section \<open>Lemmas\<close>

text \<open>The time a constraint leaves, None for no limit.\<close>

fun constraint_left :: "time_constraint \<Rightarrow> time \<Rightarrow> int option" where
  "constraint_left No_constraint now = None"
| "constraint_left (Time_point t) now = Some (time_left t now)"
| "constraint_left (Duration d) now = Some d"

fun provider_limits :: "'p provider \<Rightarrow> int list" where
  "provider_limits (Bind_timeout target limit) = limit # provider_limits target"
| "provider_limits _ = []"

lemma constraint_left_bind:
  "constraint_left (Duration (bind_timeout limit t now)) now =
    Some (case constraint_left t now of None \<Rightarrow> limit | Some d \<Rightarrow> min limit d)"
  by (cases t) simp_all

text \<open>Connecting through bound time-outs takes at most the time the constraint leaves and at most
  each of the limits; without limits the constraint is handed on unchanged.\<close>

lemma get_connection_limit:
  assumes "async_get_connection p t now = Connecting info t'"
  shows "(\<forall>d. constraint_left t now = Some d \<longrightarrow> (\<exists>d'. constraint_left t' now = Some d' \<and> d' \<le> d))
    \<and> (\<forall>limit\<in>set (provider_limits p). \<exists>d'. constraint_left t' now = Some d' \<and> d' \<le> limit)
    \<and> (provider_limits p = [] \<longrightarrow> t' = t)"
  using assms
proof (induction p arbitrary: t)
  case (Bind_timeout p limit)
  let ?t = "Duration (bind_timeout limit t now)"
  have IH: "\<forall>d. constraint_left ?t now = Some d \<longrightarrow> (\<exists>d'. constraint_left t' now = Some d' \<and> d' \<le> d)"
    "\<forall>limit\<in>set (provider_limits p). \<exists>d'. constraint_left t' now = Some d' \<and> d' \<le> limit"
    using Bind_timeout.IH [of ?t] Bind_timeout.prems by simp_all
  obtain d' where d': "constraint_left t' now = Some d'"
      "d' \<le> (case constraint_left t now of None \<Rightarrow> limit | Some d \<Rightarrow> min limit d)"
    using IH(1) constraint_left_bind [of limit t now] by blast
  then show ?case using IH(2) by (auto split: option.splits)
qed (simp_all split: prod.splits)

text \<open>A connection that is a provider itself is handed on with an empty error context.\<close>

lemma get_connection_itself:
  "async_get_connection (Connection_itself c) t now = Forwarded Success (c\<lparr>error_context := []\<rparr>)"
  by (simp add: forward_connection_def set_error_context_def)

text \<open>Connecting keeps the registered types.\<close>

lemma connect_resume_oid_map: "conn_oid_map (snd (connect_resume pq ec c)) = conn_oid_map c"
proof (cases "failed ec")
  case False
  have "conn_oid_map (snd (connect_poll pq c)) = conn_oid_map c"
    by (simp add: connect_poll_def on_handle_def split: option.split prod.split)
  then show ?thesis using False
    by (cases "connect_poll pq c"; cases "fst (connect_poll pq c)") (simp_all add: connect_resume_def)
qed (simp add: connect_resume_def set_error_context_def)

lemma connect_run_oid_map: "conn_oid_map (snd (connect_run pq ecs ac)) = conn_oid_map (snd ac)"
proof (induction ecs arbitrary: ac)
  case Nil
  then show ?case by (cases ac; cases "fst ac") simp_all
next
  case (Cons ec ecs)
  obtain a c where ac: "ac = (a, c)" by (cases ac)
  then show ?case using Cons.IH [of "connect_resume pq ec c"] connect_resume_oid_map [of pq ec c] by (cases a) simp_all
qed

lemma connect_perform_oid_map: "conn_oid_map (snd (connect_perform pq s c)) = conn_oid_map c"
  by (auto simp: connect_perform_def assign_def release_socket_def Let_def split: option.split prod.split)

text \<open>What follows a completed connect operation: the handler is called when it failed or no
  types are registered, and otherwise the OIDs of the registered types are requested.\<close>

lemma connection_info_done_cases:
  assumes "connection_info_call pq info ecs = (Connected ec, c)"
  shows "map fst (conn_oid_map c) = ci_types info
    \<and> connection_info_done pq pr what info ecs = Some (if ci_types info = [] \<or> failed ec then Call_handler ec c
        else Request_oids (oid_map_perform pq pr what c))"
proof -
  have m: "conn_oid_map c = register_types (ci_types info)"
    using connect_run_oid_map [of pq ecs "connect_perform pq (ci_conn_str info) (make_connection (register_types (ci_types info)))"]
      connect_perform_oid_map [of pq "ci_conn_str info" "make_connection (register_types (ci_types info))"] assms
    by (simp add: connection_info_call_def async_connect_def make_connection_def)
  then show ?thesis using assms
    by (simp add: connection_info_done_def apply_oid_map_request_def request_oid_map_handler_def oid_map_empty_def
        register_types_def comp_def)
qed

end
