(* ===== verification/Failover.thy ===== *)
theory Failover
  imports Connection Errors
begin

text \<open>
  The failover mechanism: the interface of a strategy and the continuation that drives it
  (\<open>failover/strategy.h\<close>), and the two strategies of the library, \<open>retry\<close>
  (\<open>failover/retry.h\<close>) and \<open>role_based\<close> (\<open>failover/role_based.h\<close>). An operation is a
  sequence of completions, each with the time, the error code and the connection the
  continuation is called with. What the continuation does is a list of events in the
  order of the code.
\<close>

section \<open>Error conditions\<close>

text \<open>What a user of the library lists as a condition: a condition of \<open>errc\<close>, a
  \<open>sqlstate\<close> condition or a plain error code.\<close>

datatype error_condition = Cond_errc errc_code | Cond_sqlstate int | Cond_code error_code

fun condition_matches :: "error_code \<Rightarrow> error_condition \<Rightarrow> bool" where
  "condition_matches ec (Cond_errc c) = errc_equivalent ec c"
| "condition_matches ec (Cond_sqlstate c) = sqlstate_equivalent ec c"
| "condition_matches ec (Cond_code c) = (ec = c)"

definition match_conditions :: "error_condition list \<Rightarrow> error_code \<Rightarrow> bool" where
  "match_conditions conditions ec = list_ex (condition_matches ec) conditions"

section \<open>The interface of a strategy\<close>

record ('v, 'a) basic_context =
  ctx_provider :: 'v
  ctx_time_constraint :: time_constraint
  ctx_args :: 'a

text \<open>What \<open>initiate_next_try\<close> does with the connection and the initiator: the user's event
  handler, the call of the initiator with the next try, and closing the connection.\<close>

datatype 't next_effect = Notify error_code | Init 't | Close_conn

text \<open>The guard closes the connection when it goes out of scope, unless the connection
  is a null pointer.\<close>

definition defer_close_connection :: "bool \<Rightarrow> 'p connection option \<Rightarrow> 't next_effect list" where
  "defer_close_connection should_close conn = (if should_close \<and> conn \<noteq> None then [Close_conn] else [])"

definition initiate_next_try ::
    "(error_code \<Rightarrow> 'p connection option \<Rightarrow> 't \<Rightarrow> 't option \<times> 't next_effect list) \<Rightarrow>
     error_code \<Rightarrow> 'p connection option \<Rightarrow> 't \<Rightarrow> 't next_effect list" where
  "initiate_next_try get_next_try ec conn t = (case get_next_try ec conn t of
     (Some n, es) \<Rightarrow> es @ [Init n] | (None, es) \<Rightarrow> es)"

datatype ('x, 'p) failover_event =
    Started 'x
  | Notified error_code
  | Closed
  | Handler_called error_code "'p connection option"

fun initiated :: "'t next_effect list \<Rightarrow> 't option" where
  "initiated [] = None"
| "initiated (Init t # es) = Some t"
| "initiated (e # es) = initiated es"

definition initiate_operation :: "(time \<Rightarrow> 't \<Rightarrow> 'x) \<Rightarrow> time \<Rightarrow> 't \<Rightarrow> ('x, 'p) failover_event" where
  "initiate_operation get_try_context now t = Started (get_try_context now t)"

fun perform_effect :: "(time \<Rightarrow> 't \<Rightarrow> 'x) \<Rightarrow> time \<Rightarrow> 't next_effect \<Rightarrow> ('x, 'p) failover_event" where
  "perform_effect get_try_context now (Notify ec) = Notified ec"
| "perform_effect get_try_context now (Init t) = initiate_operation get_try_context now t"
| "perform_effect get_try_context now Close_conn = Closed"

definition connection_after :: "'t next_effect list \<Rightarrow> 'p connection option \<Rightarrow> 'p connection option" where
  "connection_after es conn = (if Close_conn \<in> set es then map_option (\<lambda>c. snd (close_connection c)) conn else conn)"

text \<open>The call operator of \<open>detail::continuation\<close>: the next try, if one was initiated,
  and the events.\<close>

definition continuation ::
    "(time \<Rightarrow> 't \<Rightarrow> 'x) \<Rightarrow> (error_code \<Rightarrow> 'p connection option \<Rightarrow> 't \<Rightarrow> 't next_effect list) \<Rightarrow>
     't \<Rightarrow> time \<Rightarrow> error_code \<Rightarrow> 'p connection option \<Rightarrow> 't option \<times> ('x, 'p) failover_event list" where
  "continuation get_try_context next_try t now ec conn =
    (if failed ec
     then let es = next_try ec conn t; log = map (perform_effect get_try_context now) es in
       case initiated es of
         Some t' \<Rightarrow> (Some t', log)
       | None \<Rightarrow> (None, log @ [Handler_called ec (connection_after es conn)])
     else (None, [Handler_called ec conn]))"

text \<open>The completions of the operations that are started, one after the other.\<close>

fun failover_run ::
    "(time \<Rightarrow> 't \<Rightarrow> 'x) \<Rightarrow> (error_code \<Rightarrow> 'p connection option \<Rightarrow> 't \<Rightarrow> 't next_effect list) \<Rightarrow>
     't \<Rightarrow> (time \<times> error_code \<times> 'p connection option) list \<Rightarrow> 't option \<times> ('x, 'p) failover_event list" where
  "failover_run get_try_context next_try t [] = (Some t, [])"
| "failover_run get_try_context next_try t ((now, ec, conn) # cs) =
    (case continuation get_try_context next_try t now ec conn of
       (None, es) \<Rightarrow> (None, es)
     | (Some t', es) \<Rightarrow> (case failover_run get_try_context next_try t' cs of (r, es') \<Rightarrow> (r, es @ es')))"

text \<open>\<open>detail::operation_initiator\<close>: the first try at the time of the call, then the
  continuations.\<close>

definition operation_initiator ::
    "(time \<Rightarrow> 't \<Rightarrow> 'x) \<Rightarrow> (error_code \<Rightarrow> 'p connection option \<Rightarrow> 't \<Rightarrow> 't next_effect list) \<Rightarrow>
     (time \<Rightarrow> 't) \<Rightarrow> time \<Rightarrow> (time \<times> error_code \<times> 'p connection option) list \<Rightarrow>
     't option \<times> ('x, 'p) failover_event list" where
  "operation_initiator get_try_context next_try get_first_try now cs =
    (let t = get_first_try now; (r, es) = failover_run get_try_context next_try t cs in
     (r, initiate_operation get_try_context now t # es))"

section \<open>Retry\<close>

definition get_try_time_constraint :: "time_constraint \<Rightarrow> int \<Rightarrow> time \<Rightarrow> time_constraint" where
  "get_try_time_constraint t n_tries now = (case t of
     No_constraint \<Rightarrow> No_constraint
   | Time_point p \<Rightarrow> Duration (if n_tries > 0 then cdiv (time_left p now) n_tries else 0)
   | Duration d \<Rightarrow> Duration (if n_tries > 0 then cdiv d n_tries else 0))"

text \<open>The options that are not in the map are \<open>None\<close>; the number of tries has to be
  there.\<close>

record retry_options =
  ro_close_connection :: "bool option"
  ro_tries :: int
  ro_conditions :: "error_condition list option"

definition get_option :: "'o option \<Rightarrow> 'o \<Rightarrow> 'o" where
  "get_option opt d = (case opt of None \<Rightarrow> d | Some v \<Rightarrow> v)"

record ('v, 'a) basic_try =
  try_ctx :: "('v, 'a) basic_context"
  try_options :: retry_options

definition tries_remain :: "('v, 'a) basic_try \<Rightarrow> int" where
  "tries_remain t = ro_tries (try_options t)"

definition get_conditions :: "('v, 'a) basic_try \<Rightarrow> error_condition list" where
  "get_conditions t = get_option (ro_conditions (try_options t)) []"

definition try_time_constraint :: "time \<Rightarrow> ('v, 'a) basic_try \<Rightarrow> time_constraint" where
  "try_time_constraint now t = get_try_time_constraint (ctx_time_constraint (try_ctx t)) (tries_remain t) now"

definition get_context :: "time \<Rightarrow> ('v, 'a) basic_try \<Rightarrow> 'v \<times> time_constraint \<times> 'a" where
  "get_context now t = (ctx_provider (try_ctx t), try_time_constraint now t, ctx_args (try_ctx t))"

definition adjust_tries_remain :: "('v, 'a) basic_try \<Rightarrow> ('v, 'a) basic_try" where
  "adjust_tries_remain t = t\<lparr>try_options := (try_options t)\<lparr>ro_tries := max 0 (tries_remain t - 1)\<rparr>\<rparr>"

definition can_retry :: "('v, 'a) basic_try \<Rightarrow> error_code \<Rightarrow> bool" where
  "can_retry t ec = (if tries_remain t < 1 then False
     else if get_conditions t = [] then True else match_conditions (get_conditions t) ec)"

definition get_next_try ::
    "error_code \<Rightarrow> 'p connection option \<Rightarrow> ('v, 'a) basic_try \<Rightarrow>
     ('v, 'a) basic_try option \<times> ('v, 'a) basic_try next_effect list" where
  "get_next_try ec conn t =
    (let guard = defer_close_connection (get_option (ro_close_connection (try_options t)) True) conn;
         t = adjust_tries_remain t in
     if can_retry t ec then (Some t, Notify ec # guard) else (None, guard))"

text \<open>\<open>retry_strategy::get_first_try\<close>.\<close>

definition retry_first_try ::
    "retry_options \<Rightarrow> 'v \<Rightarrow> time_constraint \<Rightarrow> 'a \<Rightarrow> time \<Rightarrow> ('v, 'a) basic_try" where
  "retry_first_try options provider t args now = \<lparr>try_ctx = \<lparr>ctx_provider = provider,
     ctx_time_constraint = deadline t now, ctx_args = args\<rparr>, try_options = options\<rparr>"

definition tries :: "int \<Rightarrow> retry_options \<Rightarrow> retry_options" where
  "tries n options = options\<lparr>ro_tries := n\<rparr>"

definition retry :: "error_condition list \<Rightarrow> int \<Rightarrow> retry_options" where
  "retry conditions n = tries n \<lparr>ro_close_connection = None, ro_tries = 0,
     ro_conditions = (if conditions \<noteq> [] then Some conditions else None)\<rparr>"

definition retry_operation ::
    "retry_options \<Rightarrow> 'v \<Rightarrow> time_constraint \<Rightarrow> 'a \<Rightarrow> time \<Rightarrow> (time \<times> error_code \<times> 'p connection option) list \<Rightarrow>
     ('v, 'a) basic_try option \<times> ('v \<times> time_constraint \<times> 'a, 'p) failover_event list" where
  "retry_operation options provider t args =
     operation_initiator get_context (initiate_next_try get_next_try) (retry_first_try options provider t args)"

section \<open>Roles\<close>

datatype role = master | replica

fun recover_conditions :: "role \<Rightarrow> error_condition list" where
  "recover_conditions master = map Cond_errc [connection_error, type_mismatch, protocol_error, database_readonly]"
| "recover_conditions replica = map Cond_errc [connection_error, type_mismatch, protocol_error]"

definition can_recover :: "role \<Rightarrow> error_code \<Rightarrow> bool" where
  "can_recover r ec = match_conditions (recover_conditions r) ec"

text \<open>A connection source with a source for every role; the provider binds it to an
  executor, which is left out. A role without a source is not accepted by the compiler and
  is \<open>None\<close> here.\<close>

record ('r, 's) role_based_connection_source =
  rb_sources :: "'r \<rightharpoonup> 's"
  rb_role :: 'r

definition make_role_based_connection_source :: "('r \<times> 's) \<Rightarrow> ('r \<times> 's) list \<Rightarrow> ('r, 's) role_based_connection_source" where
  "make_role_based_connection_source p1 ps = \<lparr>rb_sources = map_of (p1 # ps), rb_role = fst p1\<rparr>"

definition is_supported :: "('r, 's) role_based_connection_source \<Rightarrow> 'r \<Rightarrow> bool" where
  "is_supported src r \<longleftrightarrow> r \<in> dom (rb_sources src)"

definition rebind_role :: "'r \<Rightarrow> ('r, 's) role_based_connection_source \<Rightarrow> ('r, 's) role_based_connection_source" where
  "rebind_role r src = src\<lparr>rb_role := r\<rparr>"

definition source_of_role :: "('r, 's) role_based_connection_source \<Rightarrow> 's option" where
  "source_of_role src = rb_sources src (rb_role src)"

record 'r role_based_options =
  rb_close_connection :: "bool option"
  rb_roles :: "'r list"

record ('r, 's, 'a) role_based_try =
  rt_ctx :: "(('r, 's) role_based_connection_source, 'a) basic_context"
  rt_options :: "'r role_based_options"
  role_index :: nat

definition roles_seq :: "('r, 's, 'a) role_based_try \<Rightarrow> 'r list" where
  "roles_seq t = rb_roles (rt_options t)"

definition try_role :: "('r, 's, 'a) role_based_try \<Rightarrow> 'r" where
  "try_role t = roles_seq t ! role_index t"

definition tries_left :: "('r, 's, 'a) role_based_try \<Rightarrow> nat" where
  "tries_left t = length (roles_seq t) - role_index t"

definition role_time_constraint :: "time \<Rightarrow> ('r, 's, 'a) role_based_try \<Rightarrow> time_constraint" where
  "role_time_constraint now t = get_try_time_constraint (ctx_time_constraint (rt_ctx t)) (int (tries_left t)) now"

definition role_context :: "time \<Rightarrow> ('r, 's, 'a) role_based_try \<Rightarrow>
    ('r, 's) role_based_connection_source \<times> time_constraint \<times> 'a" where
  "role_context now t =
     (rebind_role (try_role t) (ctx_provider (rt_ctx t)), role_time_constraint now t, ctx_args (rt_ctx t))"

text \<open>The member \<open>initiate_next_try\<close>: a role that cannot recover the error is skipped,
  and the guard of its frame is released.\<close>

function initiate_next_role ::
    "('r \<Rightarrow> error_code \<Rightarrow> bool) \<Rightarrow> error_code \<Rightarrow> 'p connection option \<Rightarrow> ('r, 's, 'a) role_based_try \<Rightarrow>
     ('r, 's, 'a) role_based_try next_effect list" where
  "initiate_next_role recover ec conn t =
    (let guard = defer_close_connection (get_option (rb_close_connection (rt_options t)) True) conn in
     if tries_left t > 1
     then let fallback = t\<lparr>role_index := Suc (role_index t)\<rparr> in
       if recover (try_role fallback) ec
       then [Notify ec, Init fallback] @ guard
       else initiate_next_role recover ec conn fallback
     else guard)"
  by pat_completeness auto
termination
  by (relation "measure (\<lambda>(recover, ec, conn, t). tries_left t)") (auto simp: tries_left_def roles_seq_def)

declare initiate_next_role.simps [simp del]

definition role_first_try ::
    "'r role_based_options \<Rightarrow> ('r, 's) role_based_connection_source \<Rightarrow> time_constraint \<Rightarrow> 'a \<Rightarrow> time \<Rightarrow>
     ('r, 's, 'a) role_based_try" where
  "role_first_try options provider t args now = \<lparr>rt_ctx = \<lparr>ctx_provider = provider,
     ctx_time_constraint = deadline t now, ctx_args = args\<rparr>, rt_options = options, role_index = 0\<rparr>"

definition role_based :: "'r list \<Rightarrow> 'r role_based_options" where
  "role_based roles = \<lparr>rb_close_connection = None, rb_roles = roles\<rparr>"

definition role_operation ::
    "('r \<Rightarrow> error_code \<Rightarrow> bool) \<Rightarrow> 'r role_based_options \<Rightarrow> ('r, 's) role_based_connection_source \<Rightarrow>
     time_constraint \<Rightarrow> 'a \<Rightarrow> time \<Rightarrow> (time \<times> error_code \<times> 'p connection option) list \<Rightarrow>
     ('r, 's, 'a) role_based_try option \<times> (('r, 's) role_based_connection_source \<times> time_constraint \<times> 'a, 'p) failover_event list" where
  "role_operation recover options provider t args =
     operation_initiator role_context (initiate_next_role recover) (role_first_try options provider t args)"

section \<open>What a strategy promises\<close>

fun is_init :: "'t next_effect \<Rightarrow> bool" where
  "is_init (Init t) = True"
| "is_init _ = False"

fun is_started :: "('x, 'p) failover_event \<Rightarrow> bool" where
  "is_started (Started x) = True"
| "is_started _ = False"

fun is_handler_call :: "('x, 'p) failover_event \<Rightarrow> bool" where
  "is_handler_call (Handler_called ec conn) = True"
| "is_handler_call _ = False"

lemma initiated_None: "initiated es = None \<longleftrightarrow> filter is_init es = []"
  by (induction es rule: initiated.induct) simp_all

lemma initiated_Some: "initiated es = Some t \<Longrightarrow> Init t \<in> set es"
  by (induction es rule: initiated.induct) auto

lemma effects_handler [simp]: "filter is_handler_call (map (perform_effect f now) es) = []"
proof (induction es)
  case (Cons e es)
  then show ?case by (cases e) (simp_all add: initiate_operation_def)
qed simp

lemma effects_started [simp]: "filter is_started (map (perform_effect f now) es) = map (perform_effect f now) (filter is_init es)"
proof (induction es)
  case (Cons e es)
  then show ?case by (cases e) (simp_all add: initiate_operation_def)
qed simp

locale failover_strategy =
  fixes next_try :: "error_code \<Rightarrow> 'p connection option \<Rightarrow> 't \<Rightarrow> 't next_effect list"
    and left :: "'t \<Rightarrow> nat"
  assumes init_once: "length (filter is_init (next_try ec conn t)) \<le> 1"
    and init_less: "Init t' \<in> set (next_try ec conn t) \<Longrightarrow> left t' < left t"
begin

lemma continuation_cases:
  obtains (fin) es where "continuation f next_try t now ec conn = (None, es)"
      "length (filter is_handler_call es) = 1" "filter is_started es = []"
    | (again) t' es where "continuation f next_try t now ec conn = (Some t', es)"
      "filter is_handler_call es = []" "length (filter is_started es) = 1" "left t' < left t"
proof (cases "failed ec")
  case False
  then show ?thesis by (intro fin [of "[Handler_called ec conn]"]) (simp_all add: continuation_def)
next
  case True
  show ?thesis
  proof (cases "initiated (next_try ec conn t)")
    case None
    then show ?thesis using True
      by (intro fin [of "map (perform_effect f now) (next_try ec conn t) @ [Handler_called ec (connection_after (next_try ec conn t) conn)]"])
        (simp_all add: continuation_def initiated_None [symmetric] Let_def)
  next
    case (Some t')
    then have "filter is_init (next_try ec conn t) \<noteq> []" by (metis initiated_None option.distinct(1))
    then have "length (filter is_init (next_try ec conn t)) = 1"
      using init_once [of ec conn t] by (cases "filter is_init (next_try ec conn t)") auto
    moreover have "left t' < left t" using Some by (intro init_less initiated_Some)
    ultimately show ?thesis using True Some
      by (intro again [of t' "map (perform_effect f now) (next_try ec conn t)"])
        (simp_all add: continuation_def)
  qed
qed

lemma run_counts:
  "length (filter is_handler_call (snd (failover_run f next_try t cs))) =
     (if fst (failover_run f next_try t cs) = None then 1 else 0)
   \<and> length (filter is_started (snd (failover_run f next_try t cs))) \<le> left t"
proof (induction cs arbitrary: t)
  case (Cons c cs)
  obtain now ec conn where c: "c = (now, ec, conn)" by (cases c)
  show ?case
  proof (cases rule: continuation_cases [of f t now ec conn])
    case (fin es)
    then show ?thesis by (simp add: c)
  next
    case (again t' es)
    then show ?thesis using Cons.IH [of t'] by (simp add: c case_prod_beta)
  qed
qed simp

lemma run_completes: "left t < length cs \<Longrightarrow> fst (failover_run f next_try t cs) = None"
proof (induction cs arbitrary: t)
  case (Cons c cs)
  obtain now ec conn where c: "c = (now, ec, conn)" by (cases c)
  show ?case
  proof (cases rule: continuation_cases [of f t now ec conn])
    case (fin es)
    then show ?thesis by (simp add: c)
  next
    case (again t' es)
    then show ?thesis using Cons.IH [of t'] Cons.prems by (simp add: c case_prod_beta)
  qed
qed simp

lemma initiator_correct:
  assumes "left (first now) < length cs"
  shows "\<exists>es. operation_initiator f next_try first now cs = (None, es)
    \<and> length (filter is_handler_call es) = 1 \<and> length (filter is_started es) \<le> Suc (left (first now))"
  using run_completes [OF assms, of f] run_counts [of f "first now" cs]
  by (simp add: operation_initiator_def initiate_operation_def case_prod_beta Let_def)

end

lemma guard_no_init [simp]: "filter is_init (defer_close_connection b conn) = []"
  by (simp add: defer_close_connection_def)

lemma guard_not_Init [simp]: "Init t \<notin> set (defer_close_connection b conn)"
  by (simp add: defer_close_connection_def)

lemma tries_remain_adjust [simp]: "tries_remain (adjust_tries_remain t) = max 0 (tries_remain t - 1)"
  by (simp add: tries_remain_def adjust_tries_remain_def)

lemma get_conditions_adjust [simp]: "get_conditions (adjust_tries_remain t) = get_conditions t"
  by (simp add: get_conditions_def adjust_tries_remain_def)

interpretation rs: failover_strategy "initiate_next_try get_next_try" "\<lambda>t. nat (tries_remain t - 1)"
proof
  fix ec conn t t'
  show "length (filter is_init (initiate_next_try get_next_try ec conn t)) \<le> 1"
    by (simp add: initiate_next_try_def get_next_try_def Let_def)
  show "nat (tries_remain t' - 1) < nat (tries_remain t - 1)"
    if "Init t' \<in> set (initiate_next_try get_next_try ec conn t)"
    using that by (auto simp: initiate_next_try_def get_next_try_def Let_def can_retry_def split: if_splits)
qed

text \<open>The role the next try takes: the first one behind the present role that can recover
  the error.\<close>

definition next_role_index :: "('r \<Rightarrow> error_code \<Rightarrow> bool) \<Rightarrow> error_code \<Rightarrow> 'r list \<Rightarrow> nat \<Rightarrow> nat option" where
  "next_role_index recover ec roles i = find (\<lambda>j. recover (roles ! j) ec) [Suc i..<length roles]"

lemma next_role_index_step:
  "next_role_index recover ec roles i =
    (if Suc i < length roles
     then if recover (roles ! Suc i) ec then Some (Suc i) else next_role_index recover ec roles (Suc i)
     else None)"
  by (simp add: next_role_index_def upt_conv_Cons)

lemma next_role_index_Some:
  assumes "next_role_index recover ec roles i = Some j"
  shows "i < j" "j < length roles" "recover (roles ! j) ec" "\<forall>k. i < k \<and> k < j \<longrightarrow> \<not> recover (roles ! k) ec"
proof -
  obtain m where m: "m < length [Suc i..<length roles]" "recover (roles ! ([Suc i..<length roles] ! m)) ec"
      "j = [Suc i..<length roles] ! m" "\<forall>k<m. \<not> recover (roles ! ([Suc i..<length roles] ! k)) ec"
    using assms by (auto simp: next_role_index_def find_Some_iff)
  then show "i < j" "j < length roles" "recover (roles ! j) ec" by simp_all
  show "\<forall>k. i < k \<and> k < j \<longrightarrow> \<not> recover (roles ! k) ec"
  proof (intro allI impI)
    fix k assume k: "i < k \<and> k < j"
    then have "k - Suc i < m" using m(1,3) by (simp; arith)
    then show "\<not> recover (roles ! k) ec" using k m(1) m(4) [rule_format, of "k - Suc i"] by simp
  qed
qed

lemma next_role_index_None:
  "next_role_index recover ec roles i = None \<longleftrightarrow> (\<forall>k. i < k \<and> k < length roles \<longrightarrow> \<not> recover (roles ! k) ec)"
  by (auto simp: next_role_index_def find_None_iff)

lemma initiate_next_role_eq:
  "initiate_next_role recover ec conn t =
    (let guard = defer_close_connection (get_option (rb_close_connection (rt_options t)) True) conn in
     case next_role_index recover ec (roles_seq t) (role_index t) of
       None \<Rightarrow> guard
     | Some j \<Rightarrow> [Notify ec, Init (t\<lparr>role_index := j\<rparr>)] @ guard)"
proof (induction recover ec conn t rule: initiate_next_role.induct)
  case (1 recover ec conn t)
  let ?f = "t\<lparr>role_index := Suc (role_index t)\<rparr>"
  have IH: "Suc (role_index t) < length (roles_seq t) \<Longrightarrow> \<not> recover (try_role ?f) ec \<Longrightarrow>
      initiate_next_role recover ec conn ?f =
      (let guard = defer_close_connection (get_option (rb_close_connection (rt_options ?f)) True) conn in
       case next_role_index recover ec (roles_seq ?f) (role_index ?f) of
         None \<Rightarrow> guard | Some j \<Rightarrow> [Notify ec, Init (?f\<lparr>role_index := j\<rparr>)] @ guard)"
    using 1 by (simp add: tries_left_def roles_seq_def)
  show ?case
    by (subst initiate_next_role.simps)
      (use IH in \<open>auto simp: next_role_index_step [of _ _ _ "role_index t"] try_role_def roles_seq_def tries_left_def Let_def split: option.split\<close>)
qed

interpretation rb: failover_strategy "initiate_next_role recover" "\<lambda>t. tries_left t - 1" for recover
proof
  fix ec conn t t'
  show "length (filter is_init (initiate_next_role recover ec conn t)) \<le> 1"
    by (simp add: initiate_next_role_eq Let_def split: option.split)
  show "tries_left t' - 1 < tries_left t - 1" if "Init t' \<in> set (initiate_next_role recover ec conn t)"
  proof -
    from that obtain j where j: "next_role_index recover ec (roles_seq t) (role_index t) = Some j"
      and t': "t' = t\<lparr>role_index := j\<rparr>"
      by (auto simp: initiate_next_role_eq Let_def split: option.splits)
    then show ?thesis using next_role_index_Some(1,2) [OF j] by (simp add: tries_left_def roles_seq_def)
  qed
qed

end
