(* ===== verification/Failover_Correct.thy ===== *)
theory Failover_Correct
  imports Failover
begin

text \<open>
  What the two failover strategies do with a sequence of completions: the whole list of
  events of a retried operation, the roles a role-based operation goes through, and how the
  tries of an operation share its time.
\<close>

section \<open>Retry\<close>

definition retryable :: "retry_options \<Rightarrow> error_code \<Rightarrow> bool" where
  "retryable options ec \<longleftrightarrow> failed ec \<and>
     (get_option (ro_conditions options) [] = [] \<or> match_conditions (get_option (ro_conditions options) []) ec)"

definition closes :: "bool option \<Rightarrow> 'p connection option \<Rightarrow> ('x, 'p) failover_event list" where
  "closes policy conn = (if get_option policy True \<and> conn \<noteq> None then [Closed] else [])"

definition closed_conn :: "bool option \<Rightarrow> 'p connection option \<Rightarrow> 'p connection option" where
  "closed_conn policy conn = (if get_option policy True then map_option (\<lambda>c. snd (close_connection c)) conn else conn)"

text \<open>The events of the last completion.\<close>

fun last_events :: "bool option \<Rightarrow> time \<times> error_code \<times> 'p connection option \<Rightarrow> ('x, 'p) failover_event list" where
  "last_events policy (now, ec, conn) =
    (if failed ec then closes policy conn @ [Handler_called ec (closed_conn policy conn)]
     else [Handler_called ec conn])"

text \<open>The events of a completion that is followed by a try with \<open>k\<close> tries remaining.\<close>

fun retry_events :: "retry_options \<Rightarrow> 'v \<Rightarrow> time_constraint \<Rightarrow> 'a \<Rightarrow> int \<Rightarrow>
    time \<times> error_code \<times> 'p connection option \<Rightarrow> ('v \<times> time_constraint \<times> 'a, 'p) failover_event list" where
  "retry_events options provider d args k (now, ec, conn) =
     Notified ec # closes (ro_close_connection options) conn @
     [Started (provider, get_try_time_constraint d k now, args)]"

definition retries :: "retry_options \<Rightarrow> (time \<times> error_code \<times> 'p connection option) list \<Rightarrow> nat" where
  "retries options cs = min (length (takeWhile (\<lambda>(now, ec, conn). retryable options ec) cs)) (nat (ro_tries options - 1))"

lemma map_guard [simp]: "map (perform_effect f now) (defer_close_connection (get_option policy True) conn) = closes policy conn"
  by (simp add: defer_close_connection_def closes_def)

lemma connection_after_guard [simp]:
  "connection_after (defer_close_connection (get_option policy True) conn) conn = closed_conn policy conn"
  by (cases conn) (simp_all add: connection_after_def defer_close_connection_def closed_conn_def)

lemma initiated_guard [simp]:
  "initiated (defer_close_connection b conn @ es) = initiated es"
  "initiated (defer_close_connection b conn) = None"
  by (simp_all add: defer_close_connection_def)

lemma can_retry_adjust:
  "failed ec \<Longrightarrow> can_retry (adjust_tries_remain t) ec \<longleftrightarrow> 1 < tries_remain t \<and> retryable (try_options t) ec"
  by (auto simp: can_retry_def retryable_def get_conditions_def adjust_tries_remain_def tries_remain_def)

lemma retry_continuation:
  "continuation get_context (initiate_next_try get_next_try) t now ec conn =
    (if retryable (try_options t) ec \<and> 1 < tries_remain t
     then (Some (t\<lparr>try_options := (try_options t)\<lparr>ro_tries := tries_remain t - 1\<rparr>\<rparr>),
       retry_events (try_options t) (ctx_provider (try_ctx t)) (ctx_time_constraint (try_ctx t)) (ctx_args (try_ctx t))
         (tries_remain t - 1) (now, ec, conn))
     else (None, last_events (ro_close_connection (try_options t)) (now, ec, conn)))"
proof (cases "failed ec")
  case False
  then show ?thesis by (simp add: continuation_def retryable_def)
next
  case True
  note can = can_retry_adjust [OF True, of t]
  show ?thesis
  proof (cases "retryable (try_options t) ec \<and> 1 < tries_remain t")
    case True
    then have "adjust_tries_remain t = t\<lparr>try_options := (try_options t)\<lparr>ro_tries := tries_remain t - 1\<rparr>\<rparr>"
      by (simp add: adjust_tries_remain_def)
    then show ?thesis using True \<open>failed ec\<close> can
      by (simp add: continuation_def initiate_next_try_def get_next_try_def Let_def initiate_operation_def
        get_context_def try_time_constraint_def tries_remain_def)
  next
    case False
    then have "\<not> can_retry (adjust_tries_remain t) ec" using can by blast
    then have "initiate_next_try get_next_try ec conn t =
        defer_close_connection (get_option (ro_close_connection (try_options t)) True) conn"
      by (simp add: initiate_next_try_def get_next_try_def Let_def)
    then show ?thesis using False \<open>failed ec\<close> by (auto simp add: continuation_def Let_def)
  qed
qed

lemma retries_Cons:
  "retries options ((now, ec, conn) # cs) =
    (if retryable options ec \<and> 1 < ro_tries options then Suc (retries (options\<lparr>ro_tries := ro_tries options - 1\<rparr>) cs) else 0)"
proof -
  have "retryable (options\<lparr>ro_tries := ro_tries options - 1\<rparr>) = retryable options"
    by (simp add: retryable_def fun_eq_iff)
  moreover have "1 < ro_tries options \<Longrightarrow> nat (ro_tries options - 1) = Suc (nat (ro_tries options - 2))" by simp
  ultimately show ?thesis by (auto simp: retries_def)
qed

lemma retry_events_tries [simp]: "retry_events (options\<lparr>ro_tries := n\<rparr>) = retry_events options"
  by (simp add: fun_eq_iff)

lemma upt_Suc_map: "map g [0..<Suc m] = g 0 # map (\<lambda>i. g (Suc i)) [0..<m]"
  by (simp add: upt_conv_Cons map_Suc_upt [symmetric] comp_def del: upt_Suc)

lemma retry_run:
  assumes "retries (try_options t) cs < length cs"
  shows "failover_run get_context (initiate_next_try get_next_try) t cs =
    (None, concat (map (\<lambda>i. retry_events (try_options t) (ctx_provider (try_ctx t)) (ctx_time_constraint (try_ctx t))
        (ctx_args (try_ctx t)) (tries_remain t - 1 - int i) (cs ! i)) [0..<retries (try_options t) cs])
      @ last_events (ro_close_connection (try_options t)) (cs ! retries (try_options t) cs))"
  using assms
proof (induction cs arbitrary: t)
  case (Cons c cs)
  obtain now ec conn where c: "c = (now, ec, conn)" by (cases c)
  show ?case
  proof (cases "retryable (try_options t) ec \<and> 1 < tries_remain t")
    case True
    let ?t = "t\<lparr>try_options := (try_options t)\<lparr>ro_tries := tries_remain t - 1\<rparr>\<rparr>"
    have r: "retries (try_options t) (c # cs) = Suc (retries (try_options ?t) cs)"
      using True by (simp add: c retries_Cons tries_remain_def)
    then show ?thesis using True Cons.IH [of ?t] Cons.prems
      by (simp add: c retry_continuation r upt_Suc_map tries_remain_def algebra_simps del: upt_Suc)
  next
    case False
    then have "retries (try_options t) (c # cs) = 0" by (simp add: c retries_Cons tries_remain_def)
    then show ?thesis using False by (auto simp: c retry_continuation)
  qed
qed simp

text \<open>C22: a retried operation goes on exactly while a try fails with an error the strategy
  retries and a try is left, and then calls its handler, once, with the result of the last
  try; the events in between are, for each retry, the notification, the closing of the
  connection and the start of the next try with its share of the time that is left.\<close>

theorem retry_schedule:
  assumes "retries options cs < length cs"
  shows "retry_operation options provider tc args now cs =
    (None, Started (provider, get_try_time_constraint (deadline tc now) (ro_tries options) now, args)
      # concat (map (\<lambda>i. retry_events options provider (deadline tc now) args (ro_tries options - 1 - int i) (cs ! i))
          [0..<retries options cs])
      @ last_events (ro_close_connection options) (cs ! retries options cs))"
  using retry_run [of "retry_first_try options provider tc args now" cs] assms
  by (simp add: retry_operation_def operation_initiator_def retry_first_try_def initiate_operation_def
      get_context_def try_time_constraint_def tries_remain_def Let_def)

theorem retry_schedule_witness:
  "retry_operation (retry [Cond_errc connection_error] 3) () (Duration 900) () 0
     [(300, Asio_error timed_out, Some (make_connection [] :: unit connection)), (400, Success, None)] =
   (None, [Started ((), Duration 300, ()), Notified (Asio_error timed_out), Closed, Started ((), Duration 300, ()),
     Handler_called Success None])"
proof -
  let ?o = "retry [Cond_errc connection_error] 3"
  let ?cs = "[(300, Asio_error timed_out, Some (make_connection [] :: unit connection)), (400, Success, None)]"
  have r: "retryable ?o (Asio_error timed_out)" "\<not> retryable ?o Success"
    by (simp_all add: retryable_def retry_def tries_def get_option_def match_conditions_def errc_equivalent_def
        match_code_def)
  then have "retries ?o ?cs = 1" by (simp add: retries_def retry_def tries_def)
  then show ?thesis
    by (subst retry_schedule)
      (simp_all add: retry_def tries_def closes_def get_option_def get_try_time_constraint_def deadline_after_def
        time_left_def cdiv_def int64_max_def)
qed

section \<open>Sharing the time\<close>

text \<open>C24: the tries of an operation share the time to its deadline. If every try keeps to its
  time constraint, the last one ends before the deadline, no try gets less time than the
  one before it, and the last one gets all the time that is left.\<close>

theorem tries_share_deadline:
  assumes "0 < n" "s 0 \<le> d"
    and share: "\<And>i. i < n \<Longrightarrow> get_try_time_constraint (Time_point d) (int (n - i)) (s i) = Duration (b i)"
    and keeps: "\<And>i. i < n \<Longrightarrow> s i \<le> s (Suc i) \<and> s (Suc i) - s i \<le> b i"
  shows "s n \<le> d \<and> (\<forall>i. Suc i < n \<longrightarrow> b i \<le> b (Suc i)) \<and> b (n - 1) = d - s (n - 1)"
proof -
  have b: "b i = (d - s i) div int (n - i)" if "i < n" "s i \<le> d" for i
    using share [OF that(1)] that by (auto simp: get_try_time_constraint_def time_left_def cdiv_nonneg split: if_splits)
  have share_le: "b i * int (n - i) \<le> d - s i" if "i < n" "s i \<le> d" for i
    using b [OF that] by (simp add: mult.commute [of _ "int (n - i)"] minus_mod_eq_mult_div [symmetric] that)
  have in_time: "i \<le> n \<Longrightarrow> s i \<le> d" for i
  proof (induction i)
    case (Suc i)
    then have i: "i < n" "s i \<le> d" by simp_all
    have "0 \<le> b i" using b [OF i] i by (simp add: pos_imp_zdiv_nonneg_iff)
    then have "b i * 1 \<le> b i * int (n - i)" using i by (intro mult_left_mono) simp_all
    then show ?case using share_le [OF i] keeps [OF i(1)] by linarith
  qed (use assms in simp)
  have "b i \<le> b (Suc i)" if "Suc i < n" for i
  proof -
    have i: "i < n" "s i \<le> d" and i': "Suc i < n" "s (Suc i) \<le> d" using that in_time by simp_all
    have "b i * int (n - i) = b i * int (n - Suc i) + b i"
      using that by (simp add: of_nat_diff algebra_simps)
    then have "b i * int (n - Suc i) \<le> d - s (Suc i)" using share_le [OF i] keeps [OF i(1)] by linarith
    then have "b i * int (n - Suc i) div int (n - Suc i) \<le> (d - s (Suc i)) div int (n - Suc i)"
      using that by (intro zdiv_mono1) simp_all
    then show ?thesis using b [OF i'] that by simp
  qed
  moreover have "b (n - 1) = d - s (n - 1)" using b [of "n - 1"] in_time [of "n - 1"] assms(1) by simp
  ultimately show ?thesis using in_time [of n] by simp
qed

theorem tries_share_deadline_witness:
  "get_try_time_constraint (Time_point 10) 2 0 = Duration 5 \<and> get_try_time_constraint (Time_point 10) 1 5 = Duration 5
   \<and> int (5 * 2) \<le> 10 \<and> (5::int) = 10 - int (5 * (2 - 1))"
  using tries_share_deadline [of 2 "\<lambda>i. int (5 * i)" 10 "\<lambda>i. 5"]
  by (auto simp: less_2_cases_iff get_try_time_constraint_def time_left_def cdiv_def)

section \<open>Roles\<close>

text \<open>The indices of the roles the operation falls back to.\<close>

fun role_path :: "('r \<Rightarrow> error_code \<Rightarrow> bool) \<Rightarrow> 'r list \<Rightarrow> nat \<Rightarrow>
    (time \<times> error_code \<times> 'p connection option) list \<Rightarrow> nat list" where
  "role_path recover roles i [] = []"
| "role_path recover roles i ((now, ec, conn) # cs) =
    (if failed ec then case next_role_index recover ec roles i of
         Some j \<Rightarrow> j # role_path recover roles j cs | None \<Rightarrow> []
     else [])"

lemma role_path_ascending:
  "sorted_wrt (<) (i # role_path recover roles i cs) \<and> list_all (\<lambda>j. j < length roles) (role_path recover roles i cs)"
proof (induction cs arbitrary: i)
  case (Cons c cs)
  obtain now ec conn where c: "c = (now, ec, conn)" by (cases c)
  show ?case
  proof (cases "failed ec")
    case True
    show ?thesis
    proof (cases "next_role_index recover ec roles i")
      case (Some j)
      then show ?thesis using True Cons.IH [of j] next_role_index_Some(1,2) [OF Some] by (auto simp: c)
    qed (simp add: c True)
  qed (simp add: c)
qed simp

lemma role_path_stops:
  assumes "length (role_path recover roles i cs) < length cs"
  shows "case cs ! length (role_path recover roles i cs) of (t, ec, conn) \<Rightarrow>
    \<not> failed ec \<or> (\<forall>j. last (i # role_path recover roles i cs) < j \<and> j < length roles \<longrightarrow> \<not> recover (roles ! j) ec)"
  using assms
proof (induction cs arbitrary: i)
  case (Cons c cs)
  obtain now ec conn where c: "c = (now, ec, conn)" by (cases c)
  show ?case
  proof (cases "failed ec")
    case True
    show ?thesis
    proof (cases "next_role_index recover ec roles i")
      case None
      then show ?thesis using True next_role_index_None [of recover ec roles i] by (simp add: c)
    next
      case (Some j)
      then show ?thesis using True Cons.IH [of j] Cons.prems by (simp add: c)
    qed
  qed (simp add: c)
qed simp

lemma ascending_length:
  "sorted_wrt (<) (i # js) \<Longrightarrow> list_all (\<lambda>j. j < n) js \<Longrightarrow> i < n \<Longrightarrow> i + length js < n"
proof (induction js arbitrary: i)
  case (Cons j js)
  then have "i < j" "j + length js < n" by (auto intro: Cons.IH)
  then show ?case by simp
qed simp

text \<open>The contexts of the tries that are started after completions at the given times.\<close>

definition role_contexts :: "('r, 's, 'a) role_based_try \<Rightarrow> nat list \<Rightarrow> time list \<Rightarrow>
    (('r, 's) role_based_connection_source \<times> time_constraint \<times> 'a, 'p) failover_event list" where
  "role_contexts t js ts = map2 (\<lambda>j now. Started (role_context now (t\<lparr>role_index := j\<rparr>))) js ts"

lemma role_continuation:
  "continuation role_context (initiate_next_role recover) t now ec conn =
    (case (if failed ec then next_role_index recover ec (roles_seq t) (role_index t) else None) of
       Some j \<Rightarrow> (Some (t\<lparr>role_index := j\<rparr>), Notified ec # Started (role_context now (t\<lparr>role_index := j\<rparr>))
         # closes (rb_close_connection (rt_options t)) conn)
     | None \<Rightarrow> (None, last_events (rb_close_connection (rt_options t)) (now, ec, conn)))"
  by (simp add: continuation_def initiate_next_role_eq Let_def initiate_operation_def split: option.split)

lemma filter_closes [simp]: "filter is_started (closes policy conn) = []" "filter is_handler_call (closes policy conn) = []"
  by (simp_all add: closes_def)

lemma role_run_started:
  "filter is_started (snd (failover_run role_context (initiate_next_role recover) t cs)) =
     role_contexts t (role_path recover (roles_seq t) (role_index t) cs) (map fst cs)"
proof (induction cs arbitrary: t)
  case (Cons c cs)
  obtain now ec conn where c: "c = (now, ec, conn)" by (cases c)
  have r: "roles_seq (t\<lparr>role_index := j\<rparr>) = roles_seq t" for j by (simp add: roles_seq_def)
  show ?case using Cons.IH
    by (auto simp: c role_continuation role_contexts_def r case_prod_beta split: option.split)
qed (simp add: role_contexts_def)

lemma role_run_handler:
  assumes "length (role_path recover (roles_seq t) (role_index t) cs) < length cs"
  shows "filter is_handler_call (snd (failover_run role_context (initiate_next_role recover) t cs)) =
     filter is_handler_call (last_events (rb_close_connection (rt_options t))
       (cs ! length (role_path recover (roles_seq t) (role_index t) cs)))"
  using assms
proof (induction cs arbitrary: t)
  case (Cons c cs)
  obtain now ec conn where c: "c = (now, ec, conn)" by (cases c)
  have r: "roles_seq (t\<lparr>role_index := j\<rparr>) = roles_seq t" for j by (simp add: roles_seq_def)
  show ?case using Cons.IH Cons.prems
    by (auto simp: c role_continuation r case_prod_beta split: option.split if_splits)
qed simp

text \<open>C23: a role-based operation starts with the first role and, when a try fails, falls back
  to the first later role that can recover the error, skipping the others; it never goes
  back to an earlier role and gives each try its share of the time by the number of roles from
  its own to the last. Its handler is called once, after at most as many tries as there are
  roles, with the result of the first try that succeeds or that no later role can recover.\<close>

theorem role_based_order:
  assumes "roles \<noteq> []" "length roles \<le> length cs"
    and path: "path = role_path recover roles 0 cs"
  shows "\<exists>es. role_operation recover (role_based roles) src tc args now cs = (None, es)
    \<and> filter is_started es = map2 (\<lambda>i t. Started (rebind_role (roles ! i) src,
        get_try_time_constraint (deadline tc now) (int (length roles - i)) t, args)) (0 # path) (now # map fst cs)
    \<and> filter is_handler_call es = (case cs ! length path of (t, ec, conn) \<Rightarrow>
        [Handler_called ec (if failed ec then map_option (\<lambda>c. snd (close_connection c)) conn else conn)])
    \<and> (case cs ! length path of (t, ec, conn) \<Rightarrow>
        \<not> failed ec \<or> (\<forall>j. last (0 # path) < j \<and> j < length roles \<longrightarrow> \<not> recover (roles ! j) ec))
    \<and> sorted_wrt (<) (0 # path) \<and> list_all (\<lambda>i. i < length roles) path"
proof -
  let ?t = "role_first_try (role_based roles) src tc args now"
  have t: "roles_seq ?t = roles" "role_index ?t = 0" "rb_close_connection (rt_options ?t) = None"
    by (simp_all add: role_first_try_def roles_seq_def role_based_def)
  have p: "sorted_wrt (<) (0 # path)" "list_all (\<lambda>i. i < length roles) path"
    using role_path_ascending [of 0 recover roles cs] by (simp_all add: path)
  have short: "length path < length cs"
    using ascending_length [of 0 path "length roles"] p assms(1,2) by simp
  have short_roles: "length roles - 1 < length cs" using assms(1,2) by (cases roles) simp_all
  have run: "fst (failover_run role_context (initiate_next_role recover) ?t cs) = None"
    using short_roles t by (intro rb.run_completes) (simp add: tries_left_def)
  have ctx: "role_context s (?t\<lparr>role_index := i\<rparr>) = (rebind_role (roles ! i) src,
      get_try_time_constraint (deadline tc now) (int (length roles - i)) s, args)" for s i
    by (simp add: role_context_def role_first_try_def role_time_constraint_def try_role_def roles_seq_def
        tries_left_def role_based_def)
  have "?t\<lparr>role_index := 0\<rparr> = ?t" by (simp add: role_first_try_def)
  then have c0: "role_context now ?t = (rebind_role (roles ! 0) src,
      get_try_time_constraint (deadline tc now) (int (length roles - 0)) now, args)"
    using ctx [of now 0] by simp
  have started: "filter is_started (snd (failover_run role_context (initiate_next_role recover) ?t cs)) =
      role_contexts ?t path (map fst cs)"
    using role_run_started [of recover ?t cs] t by (simp add: path)
  have handler: "filter is_handler_call (snd (failover_run role_context (initiate_next_role recover) ?t cs)) =
      filter is_handler_call (last_events None (cs ! length path))"
    using role_run_handler [of recover ?t cs] t short by (simp add: path)
  obtain t ec conn where last: "cs ! length path = (t, ec, conn)" by (cases "cs ! length path")
  show ?thesis
    using last run started handler p role_path_stops [OF short [unfolded path], folded path]
    by (simp add: role_operation_def operation_initiator_def case_prod_beta Let_def initiate_operation_def c0
        role_contexts_def ctx closed_conn_def get_option_def)
qed

theorem role_based_order_witness:
  "\<exists>es. role_operation can_recover (role_based [master, replica]) \<lparr>rb_sources = [master \<mapsto> ''m'', replica \<mapsto> ''r''], rb_role = master\<rparr>
      (Duration 900) () 0 [(100, Asio_error timed_out, None), (200, Success, None :: unit connection option)] = (None, es)
    \<and> filter is_started es =
      [Started (\<lparr>rb_sources = [master \<mapsto> ''m'', replica \<mapsto> ''r''], rb_role = master\<rparr>, Duration 450, ()),
       Started (\<lparr>rb_sources = [master \<mapsto> ''m'', replica \<mapsto> ''r''], rb_role = replica\<rparr>, Duration 800, ())]
    \<and> filter is_handler_call es = [Handler_called Success None]"
proof -
  let ?cs = "[(100, Asio_error timed_out, None), (200, Success, None :: unit connection option)]"
  have "can_recover replica (Asio_error timed_out)"
    by (simp add: can_recover_def match_conditions_def errc_equivalent_def match_code_def)
  then have path: "[1] = role_path can_recover [master, replica] 0 ?cs"
    by (simp add: next_role_index_step)
  show ?thesis
    using role_based_order [OF _ _ path, of "\<lparr>rb_sources = [master \<mapsto> ''m'', replica \<mapsto> ''r''], rb_role = master\<rparr>" "Duration 900" "()" 0]
    by (simp add: rebind_role_def get_try_time_constraint_def deadline_after_def time_left_def cdiv_def int64_max_def)
qed

end
