(* ===== verification/Options.thy ===== *)
theory Options
  imports Prelude
begin

text \<open>
  Options (\<open>core/options.h\<close>): a map from option keys to values, and the factory that sets
  options in it. The map of the code has a value type for each key; here the keys share one.
\<close>

type_synonym ('k, 'v) options_map = "'k \<rightharpoonup> 'v"

text \<open>\<open>operator =\<close> of an option makes the pair, \<open>make_options\<close> the map. The map
  requires its keys to be distinct; None stands for a program that breaks this.\<close>

definition option_assign :: "'k \<Rightarrow> 'v \<Rightarrow> 'k \<times> 'v" where
  "option_assign key v = (key, v)"

definition make_options :: "('k \<times> 'v) list \<Rightarrow> ('k, 'v) options_map option" where
  "make_options opts = (if distinct (map fst opts) then Some (map_of opts) else None)"

definition has_option :: "'k \<Rightarrow> ('k, 'v) options_map \<Rightarrow> bool" where
  "has_option key v = (v key \<noteq> None)"

definition map_option_value :: "('k, 'v) options_map \<Rightarrow> 'k \<Rightarrow> 'v option" where
  "map_option_value v key = v key"

text \<open>Setting one option: the value is replaced where the option exists, the pair is inserted
  otherwise.\<close>

definition set_option :: "'k \<times> 'v \<Rightarrow> ('k, 'v) options_map \<Rightarrow> ('k, 'v) options_map" where
  "set_option p v = (if has_option (fst p) v
     then (\<lambda>key. if key = fst p then map_option (\<lambda>old. snd p) (v key) else v key)
     else v(fst p \<mapsto> snd p))"

text \<open>Setting several options: a fold from the left.\<close>

definition set_options :: "('k \<times> 'v) list \<Rightarrow> ('k, 'v) options_map \<Rightarrow> ('k, 'v) options_map" where
  "set_options ps v = fold set_option ps v"

lemma set_option_eq [simp]: "set_option p v = v(fst p \<mapsto> snd p)"
  by (auto simp: set_option_def has_option_def fun_eq_iff)

text \<open>The value that is got is the one that was set last.\<close>

lemma set_options_get: "set_options ps v key = (case map_of (rev ps) key of Some x \<Rightarrow> Some x | None \<Rightarrow> v key)"
proof (induction ps arbitrary: v)
  case (Cons p ps)
  then show ?case
    by (cases p) (auto simp: set_options_def map_add_Some_iff map_of_append split: option.split)
qed (simp add: set_options_def)

lemma make_options_get:
  "make_options opts = Some v \<Longrightarrow> (key, x) \<in> set opts \<Longrightarrow> map_option_value v key = Some x"
  by (auto simp: make_options_def map_option_value_def split: if_splits)

text \<open>Options set from a map of options and one after the other are the same.\<close>

lemma make_options_set:
  assumes "make_options opts = Some v"
  shows "set_options opts Map.empty = v"
proof -
  have d: "distinct (map fst opts)" and v: "v = map_of opts" using assms by (simp_all add: make_options_def split: if_splits)
  then have "map_of (rev opts) = map_of opts"
    by (intro map_of_inject_set [THEN iffD2]) (simp_all add: rev_map [symmetric])
  then show ?thesis unfolding v by (auto simp: set_options_get fun_eq_iff split: option.split)
qed

end
