(* ===== verification/Pg_Catalog.thy ===== *)
theory Pg_Catalog
  imports Pg_Definitions
begin

text \<open>
  The rows of the server catalog \<open>pg_type.dat\<close> (name, OID, array OID, element type,
  \<open>typlen\<close>; the length \<open>NAMEDATALEN\<close> is 64 and \<open>SIZEOF_POINTER\<close> is 8) and the
  agreement of the library's type definitions with them.
\<close>

type_synonym pg_catalog_row = "string \<times> int \<times> int option \<times> string option \<times> int"

definition pg_type_catalog_1 :: "pg_catalog_row list" where
  "pg_type_catalog_1 =
   [(''bool'', 16, Some 1000, None, 1),
    (''bytea'', 17, Some 1001, None, -1),
    (''char'', 18, Some 1002, None, 1),
    (''name'', 19, Some 1003, Some ''char'', 64),
    (''int8'', 20, Some 1016, None, 8),
    (''int2'', 21, Some 1005, None, 2),
    (''int2vector'', 22, Some 1006, Some ''int2'', -1),
    (''int4'', 23, Some 1007, None, 4),
    (''regproc'', 24, Some 1008, None, 4),
    (''text'', 25, Some 1009, None, -1),
    (''oid'', 26, Some 1028, None, 4),
    (''tid'', 27, Some 1010, None, 6),
    (''xid'', 28, Some 1011, None, 4),
    (''cid'', 29, Some 1012, None, 4),
    (''oidvector'', 30, Some 1013, Some ''oid'', -1),
    (''pg_type'', 71, None, None, -1),
    (''pg_attribute'', 75, None, None, -1),
    (''pg_proc'', 81, None, None, -1),
    (''pg_class'', 83, None, None, -1),
    (''json'', 114, Some 199, None, -1),
    (''xml'', 142, Some 143, None, -1),
    (''pg_node_tree'', 194, None, None, -1),
    (''pg_ndistinct'', 3361, None, None, -1),
    (''pg_dependencies'', 3402, None, None, -1),
    (''pg_mcv_list'', 5017, None, None, -1),
    (''pg_ddl_command'', 32, None, None, 8),
    (''point'', 600, Some 1017, Some ''float8'', 16)]"

definition pg_type_catalog_2 :: "pg_catalog_row list" where
  "pg_type_catalog_2 =
   [(''lseg'', 601, Some 1018, Some ''point'', 32),
    (''path'', 602, Some 1019, None, -1),
    (''box'', 603, Some 1020, Some ''point'', 32),
    (''polygon'', 604, Some 1027, None, -1),
    (''line'', 628, Some 629, Some ''float8'', 24),
    (''float4'', 700, Some 1021, None, 4),
    (''float8'', 701, Some 1022, None, 8),
    (''unknown'', 705, None, None, -2),
    (''circle'', 718, Some 719, None, 24),
    (''money'', 790, Some 791, None, 8),
    (''macaddr'', 829, Some 1040, None, 6),
    (''inet'', 869, Some 1041, None, -1),
    (''cidr'', 650, Some 651, None, -1),
    (''macaddr8'', 774, Some 775, None, 8),
    (''aclitem'', 1033, Some 1034, None, 12),
    (''bpchar'', 1042, Some 1014, None, -1),
    (''varchar'', 1043, Some 1015, None, -1),
    (''date'', 1082, Some 1182, None, 4),
    (''time'', 1083, Some 1183, None, 8),
    (''timestamp'', 1114, Some 1115, None, 8),
    (''timestamptz'', 1184, Some 1185, None, 8),
    (''interval'', 1186, Some 1187, None, 16),
    (''timetz'', 1266, Some 1270, None, 12),
    (''bit'', 1560, Some 1561, None, -1)]"

definition pg_type_catalog_3 :: "pg_catalog_row list" where
  "pg_type_catalog_3 =
   [(''varbit'', 1562, Some 1563, None, -1),
    (''numeric'', 1700, Some 1231, None, -1),
    (''refcursor'', 1790, Some 2201, None, -1),
    (''regprocedure'', 2202, Some 2207, None, 4),
    (''regoper'', 2203, Some 2208, None, 4),
    (''regoperator'', 2204, Some 2209, None, 4),
    (''regclass'', 2205, Some 2210, None, 4),
    (''regtype'', 2206, Some 2211, None, 4),
    (''regrole'', 4096, Some 4097, None, 4),
    (''regnamespace'', 4089, Some 4090, None, 4),
    (''uuid'', 2950, Some 2951, None, 16),
    (''pg_lsn'', 3220, Some 3221, None, 8),
    (''tsvector'', 3614, Some 3643, None, -1),
    (''gtsvector'', 3642, Some 3644, None, -1),
    (''tsquery'', 3615, Some 3645, None, -1),
    (''regconfig'', 3734, Some 3735, None, 4),
    (''regdictionary'', 3769, Some 3770, None, 4),
    (''jsonb'', 3802, Some 3807, None, -1),
    (''jsonpath'', 4072, Some 4073, None, -1),
    (''txid_snapshot'', 2970, Some 2949, None, -1),
    (''int4range'', 3904, Some 3905, None, -1),
    (''numrange'', 3906, Some 3907, None, -1),
    (''tsrange'', 3908, Some 3909, None, -1),
    (''tstzrange'', 3910, Some 3911, None, -1),
    (''daterange'', 3912, Some 3913, None, -1)]"

definition pg_type_catalog_4 :: "pg_catalog_row list" where
  "pg_type_catalog_4 =
   [(''int8range'', 3926, Some 3927, None, -1),
    (''record'', 2249, None, None, -1),
    (''_record'', 2287, None, Some ''record'', -1),
    (''cstring'', 2275, Some 1263, None, -2),
    (''any'', 2276, None, None, 4),
    (''anyarray'', 2277, None, None, -1),
    (''void'', 2278, None, None, 4),
    (''trigger'', 2279, None, None, 4),
    (''event_trigger'', 3838, None, None, 4),
    (''language_handler'', 2280, None, None, 4),
    (''internal'', 2281, None, None, 8),
    (''opaque'', 2282, None, None, 4),
    (''anyelement'', 2283, None, None, 4),
    (''anynonarray'', 2776, None, None, 4),
    (''anyenum'', 3500, None, None, 4),
    (''fdw_handler'', 3115, None, None, 4),
    (''index_am_handler'', 325, None, None, 4),
    (''tsm_handler'', 3310, None, None, 4),
    (''table_am_handler'', 269, None, None, 4),
    (''anyrange'', 3831, None, None, -1)]"

definition pg_type_catalog :: "pg_catalog_row list" where
  "pg_type_catalog = pg_type_catalog_1 @ pg_type_catalog_2 @ pg_type_catalog_3 @ pg_type_catalog_4"

section \<open>Agreement with the catalog\<close>

definition all_oids :: "int list" where
  "all_oids = map (\<lambda>(_, oid, _). oid) pg_type_definitions
     @ List.map_filter (\<lambda>(_, _, array_oid, _). array_oid) pg_type_definitions @ [2287]"

definition row_agrees :: "pg_type_def \<Rightarrow> pg_catalog_row \<Rightarrow> bool" where
  "row_agrees d c = (case (d, c) of ((n, oid, arr, elem, sz), (n', oid', arr', elem', typlen)) \<Rightarrow>
     n = n' \<and> oid = oid' \<and> arr = arr' \<and> elem = elem' \<and>
     sz = (if 0 < typlen \<and> n \<noteq> ''name'' then Bytes typlen else Dynamic_size))"

definition in_catalog :: "pg_type_def \<Rightarrow> bool" where
  "in_catalog d = (case find (\<lambda>(_, oid, _). oid = fst (snd d)) pg_type_catalog of
     Some c \<Rightarrow> row_agrees d c | None \<Rightarrow> False)"

lemma rows_in_catalog: "list_all in_catalog pg_type_definitions"
  by code_simp

lemma all_oids_ascending: "ascending (sort all_oids)"
  by code_simp


end
