(* ===== verification/Pool_API.thy ===== *)
theory Pool_API
  imports Pool_Handle
begin

text \<open>
  The public pools of the resource pool (\<open>async/pool.hpp\<close>, \<open>sync/pool.hpp\<close>) over their
  implementations, and the messages of the errors (\<open>error.hpp\<close>). The implementation is a
  shared pointer, None after the pool has been moved from; a call through a null pointer is
  undefined and None in the result. A client's handler is queued together with the strategy its
  handle will have.
\<close>

fun pool_error_message :: "pool_error \<Rightarrow> string" where
  "pool_error_message pool_ok = ''no error''"
| "pool_error_message get_resource_timeout = ''get resource timeout''"
| "pool_error_message request_queue_overflow = ''request queue overflow''"
| "pool_error_message pool_disabled = ''resource pool is disabled''"

section \<open>The asynchronous pool\<close>

type_synonym ('v, 'h) api_pool = "('v, 'h \<times> use_strategy) pool option"

type_synonym 'h api_call = "'h \<times> error_code \<times> handle"

text \<open>The call of the client's handler by \<open>on_get_handler\<close>.\<close>

definition api_completion :: "('h \<times> use_strategy) completion \<Rightarrow> 'h api_call" where
  "api_completion x = (case x of ((h, how), ec, cell) \<Rightarrow> (h, on_get_handler how ((h, how), ec, cell)))"

definition api_get ::
    "use_strategy \<Rightarrow> time \<Rightarrow> executor \<Rightarrow> 'h \<Rightarrow> int \<Rightarrow> ('v, 'h) api_pool \<Rightarrow> ('h api_call list \<times> ('v, 'h) api_pool) option" where
  "api_get how now ex h wait_duration p = map_option (\<lambda>impl.
     case pool_get now ex (h, how) wait_duration impl of (posted, impl') \<Rightarrow> (map api_completion posted, Some impl')) p"

definition get_auto_waste ::
    "time \<Rightarrow> executor \<Rightarrow> 'h \<Rightarrow> int \<Rightarrow> ('v, 'h) api_pool \<Rightarrow> ('h api_call list \<times> ('v, 'h) api_pool) option" where
  "get_auto_waste = api_get Use_waste"

definition get_auto_recycle ::
    "time \<Rightarrow> executor \<Rightarrow> 'h \<Rightarrow> int \<Rightarrow> ('v, 'h) api_pool \<Rightarrow> ('h api_call list \<times> ('v, 'h) api_pool) option" where
  "get_auto_recycle = api_get Use_recycle"

definition api_invalidate :: "('v, 'h) api_pool \<Rightarrow> ('v, 'h) api_pool option" where
  "api_invalidate p = map_option (\<lambda>impl. Some (pool_invalidate impl)) p"

text \<open>The destructor; the implementation lives on in the handles that are held.\<close>

definition api_destroy :: "('v, 'h) api_pool \<Rightarrow> 'h api_call list \<times> ('v, 'h) api_pool" where
  "api_destroy p = (case p of
     None \<Rightarrow> ([], None)
   | Some impl \<Rightarrow> (case pool_disable impl of (posted, impl') \<Rightarrow> (map api_completion posted, Some impl')))"

text \<open>Move construction: the moved-from pool is the second component.\<close>

definition api_move :: "('v, 'h) api_pool \<Rightarrow> ('v, 'h) api_pool \<times> ('v, 'h) api_pool" where
  "api_move p = (p, None)"

text \<open>Move assignment replaces the implementation of the target without disabling it.\<close>

definition api_assign :: "('v, 'h) api_pool \<Rightarrow> ('v, 'h) api_pool \<Rightarrow> ('v, 'h) api_pool \<times> ('v, 'h) api_pool" where
  "api_assign p other = (other, None)"

section \<open>The synchronous pool\<close>

definition sync_get_auto_waste ::
    "(time \<times> 'v sync_pool) option list \<Rightarrow> time \<Rightarrow> 'v sync_pool \<Rightarrow> (error_code \<times> handle \<times> 'v sync_pool) option" where
  "sync_get_auto_waste = sync_get_handle Use_waste"

definition sync_get_auto_recycle ::
    "(time \<times> 'v sync_pool) option list \<Rightarrow> time \<Rightarrow> 'v sync_pool \<Rightarrow> (error_code \<times> handle \<times> 'v sync_pool) option" where
  "sync_get_auto_recycle = sync_get_handle Use_recycle"

definition sync_pool_destroy :: "'v sync_pool option \<Rightarrow> 'v sync_pool option" where
  "sync_pool_destroy p = map_option sync_disable p"

section \<open>Lemmas\<close>

lemma pool_error_messages_distinct: "pool_error_message a = pool_error_message b \<longleftrightarrow> a = b"
  by (cases a; cases b) simp_all

text \<open>The handle a client gets owns the cell of the completion and gives it back the way the
  client asked for; with an error it owns nothing and gives nothing back.\<close>

lemma api_completion_handle:
  assumes "api_completion ((h, how), ec, Some c) = (h', ec', hdl)"
  shows "h' = h \<and> ec' = ec \<and> handle_destroy pool hdl s = Inr (if failed ec then s else return_cell pool how c s)"
  using assms
  by (auto simp: api_completion_def on_get_handler_def null_handle_def make_handle_def handle_destroy_def unusable_def
      handle_return_def)

text \<open>Destroying a pool answers every waiting request exactly once, with the error
  \<open>disabled\<close> and an unusable handle, and leaves no request waiting.\<close>

lemma disable_queue_posts:
  "disable_queue q = (posted, q') \<Longrightarrow> \<forall>x \<in> set posted. snd x = (Pool_error pool_disabled, None)"
proof (induction q arbitrary: posted rule: disable_queue.induct)
  case (1 q)
  obtain x q1 where q: "queue_pop q = (x, q1)" by force
  show ?case
  proof (cases x)
    case None
    then show ?thesis using 1(2) q by (simp add: disable_queue.simps [of q])
  next
    case (Some r)
    obtain ex h where r: "r = (ex, h)" by (cases r)
    obtain ps q2 where d: "disable_queue q1 = (ps, q2)" by force
    have "posted = (h, Pool_error pool_disabled, None) # ps" "q' = q2"
      using 1(2) q Some r d by (simp_all add: disable_queue.simps [of q])
    with 1(1) [OF q [symmetric] Some r [symmetric], of ps] d show ?thesis by simp
  qed
qed

lemma api_destroy_answers:
  assumes "queue_inv (pl_queue impl)" "api_destroy (Some impl) = (calls, Some impl')"
  shows "mset (map fst calls) = image_mset (fst \<circ> snd) (mset (map snd (queue_entries (pl_queue impl))))"
    and "\<forall>(h, ec, hdl) \<in> set calls. ec = Pool_error pool_disabled \<and> unusable hdl"
    and "queue_entries (pl_queue impl') = []"
proof -
  obtain posted q where d: "disable_queue (pl_queue impl) = (posted, q)" by force
  then have r: "calls = map api_completion posted" "pl_queue impl' = q"
    using assms(2) by (auto simp: api_destroy_def pool_disable_def)
  note moves = disable_queue_moves [OF assms(1) d]
  have "map fst calls = map (fst \<circ> fst) posted" by (auto simp: r api_completion_def split: prod.splits)
  then have first: "mset (map fst calls) = image_mset fst (mset (map fst posted))"
    by (simp add: multiset.map_comp)
  have "mset (map fst posted) = image_mset snd (mset (map snd (queue_entries (pl_queue impl))))" using moves by blast
  then show "mset (map fst calls) = image_mset (fst \<circ> snd) (mset (map snd (queue_entries (pl_queue impl))))"
    unfolding first by (simp only: multiset.map_comp)
  show "\<forall>(h, ec, hdl) \<in> set calls. ec = Pool_error pool_disabled \<and> unusable hdl"
    using disable_queue_posts [OF d]
    by (auto simp: r api_completion_def on_get_handler_def null_handle_def unusable_def split: prod.splits)
  show "queue_entries (pl_queue impl') = []" using moves r by simp
qed

end
