(* ===== verification/Query_Conf_Correct.thy ===== *)
theory Query_Conf_Correct
  imports Query_Conf
begin

text \<open>
  Properties of the query configuration: splitting into lines always succeeds and loses
  nothing, printing and parsing queries are inverse, and what a repository contains.
\<close>

section \<open>Splitting into lines\<close>

fun line_value :: "query_line \<Rightarrow> string" where
  "line_value (Line_comment t) = t"
| "line_value (Line_text t) = t"

lemma parse_end_None: "parse_end (dropWhile not_eol s) = None \<longleftrightarrow> dropWhile not_eol s = []"
proof (cases "dropWhile not_eol s")
  case (Cons c r)
  then have "\<not> not_eol c" using hd_dropWhile [of not_eol s] by simp
  then show ?thesis by (auto simp: Cons parse_end_def not_eol_def split: list.splits)
qed (simp only: parse_end_def list.simps simp_thms)

lemma parse_line_None: "parse_line s = None \<longleftrightarrow> skip_nul s = []"
proof
  assume a: "parse_line s = None"
  let ?t = "skip_nul s"
  have "parse_text_line ?t = None" "parse_last_line ?t = None"
    using a by (simp_all add: parse_line_def Let_def split: option.splits)
  then have d: "dropWhile not_eol ?t = []"
    unfolding parse_text_line_def parse_end_None [symmetric] by (simp split: option.splits prod.splits)
  have "skip_nul [] = []" by (simp add: skip_nul_def)
  then have "takeWhile not_eol ?t = []" using \<open>parse_last_line ?t = None\<close> d
    unfolding parse_last_line_def by (metis option.distinct(1))
  with d show "?t = []" by (metis append_Nil takeWhile_dropWhile_id)
next
  assume "skip_nul s = []"
  then show "parse_line s = None"
    by (simp add: parse_line_def parse_comment_def parse_text_line_def parse_last_line_def parse_end_def)
qed

lemma parse_line_value: "parse_line s = Some (l, r) \<Longrightarrow> skip_nul s = line_value l @ r"
proof -
  let ?t = "skip_nul s"
  have c: "t = line_value l @ r" if "parse_comment t = Some (l, r)" for t
  proof -
    have t: "t = ''--'' @ drop 2 t" using that by (metis append_take_drop_id parse_comment_def option.distinct(1))
    obtain b d where bd: "takeWhile not_eol (drop 2 t) = b" "dropWhile not_eol (drop 2 t) = d" "drop 2 t = b @ d"
      by (metis takeWhile_dropWhile_id)
    have "line_value l @ r = ''--'' @ b @ d"
    proof (cases "parse_end d")
      case None
      then show ?thesis using that bd(1,2) by (simp add: parse_comment_def split: if_splits) auto
    next
      case (Some er)
      then show ?thesis using that bd(1,2) parse_end_shorter [of d "fst er" "snd er"]
        by (cases er) (simp add: parse_comment_def split: if_splits, auto)
    qed
    then show ?thesis using t bd(3) by simp
  qed
  have d: "t = line_value l @ r" if "parse_text_line t = Some (l, r)" for t
  proof -
    obtain b d where bd: "takeWhile not_eol t = b" "dropWhile not_eol t = d" "t = b @ d"
      by (metis takeWhile_dropWhile_id)
    then show ?thesis using that parse_end_shorter [of d] unfolding parse_text_line_def bd(1,2)
      by (auto split: option.splits)
  qed
  have e: "t = line_value l @ r" if "parse_last_line t = Some (l, r)" "parse_text_line t = None" for t
  proof -
    have "dropWhile not_eol t = []" using that(2) parse_end_None [of t] by (auto simp: parse_text_line_def split: option.splits)
    then have "t = takeWhile not_eol t" by (metis append_Nil2 takeWhile_dropWhile_id)
    then show ?thesis using that(1) by (auto simp: parse_last_line_def split: if_splits)
  qed
  assume "parse_line s = Some (l, r)"
  then show "?t = line_value l @ r" unfolding parse_line_def Let_def
    using c [of ?t] d [of ?t] e [of ?t] by (auto split: option.splits)
qed

lemma skip_nul_id: "list_all (\<lambda>c. c \<noteq> nul) s \<Longrightarrow> skip_nul s = s"
  by (cases s) (simp_all add: skip_nul_def)

text \<open>C27: splitting a configuration into lines ends for every input and never fails, so the
  error of \<open>parse_query_conf_lines\<close> is never thrown; for an input without zero characters the lines put
  together are the input.\<close>

theorem lines_cover_input:
  "\<exists>ls. parse_query_conf_lines s = Inr ls \<and>
     (list_all (\<lambda>c. c \<noteq> nul) s \<longrightarrow> concat (map line_value ls) = s)"
proof (induction s rule: parse_query_conf_lines.induct)
  case (1 s)
  show ?case
  proof (cases "parse_line s")
    case None
    then have "skip_nul s = []" by (simp add: parse_line_None)
    then show ?thesis using None skip_nul_id [of s] by (subst parse_query_conf_lines.simps) auto
  next
    case (Some lr)
    obtain l r where lr: "lr = (l, r)" by (cases lr)
    obtain ls where ls: "parse_query_conf_lines r = Inr ls"
      "list_all (\<lambda>c. c \<noteq> nul) r \<longrightarrow> concat (map line_value ls) = r"
      using 1 [OF Some lr [symmetric]] by blast
    have "skip_nul s = line_value l @ r" using parse_line_value Some lr by simp
    then have "list_all (\<lambda>c. c \<noteq> nul) s \<Longrightarrow> concat (map line_value (l # ls)) = s"
      using ls(2) skip_nul_id [of s] by (auto split: if_splits)
    then show ?thesis using Some lr ls(1) by (subst parse_query_conf_lines.simps) auto
  qed
qed

theorem lines_cover_input_witness:
  "\<exists>ls. parse_query_conf_lines [CHR ''a'', LF, CHR ''b''] = Inr ls \<and>
     concat (map line_value ls) = [CHR ''a'', LF, CHR ''b'']"
  using lines_cover_input [of "[CHR ''a'', LF, CHR ''b'']"] by simp

section \<open>Printing and parsing\<close>

fun print_element :: "query_text_element \<Rightarrow> string" where
  "print_element (Text_part w) = w"
| "print_element (Parameter_name n) = CHR '':'' # n"

definition print_line :: "query_text_element list \<Rightarrow> string" where
  "print_line es = concat (map print_element es)"

text \<open>A query to print: its name and the lines of its text.\<close>

definition print_query :: "string \<times> query_text_element list list \<Rightarrow> string" where
  "print_query q = ''-- name: '' @ fst q @ [LF] @ concat (map print_line (snd q))"

definition plain :: "char \<Rightarrow> bool" where
  "plain c \<longleftrightarrow> c \<noteq> CHR '':'' \<and> c \<noteq> nul \<and> not_eol c"

text \<open>The elements of a line as the parser yields them: text and parameters, no two texts in
  a row, a text after a parameter starting with a character that ends the name, and a line end.\<close>

fun wf_text :: "query_text_element list \<Rightarrow> bool" where
  "wf_text [] = False"
| "wf_text [Text_part t] = (t \<noteq> [] \<and> last t = LF \<and> list_all plain (butlast t))"
| "wf_text [Parameter_name p] = False"
| "wf_text (Text_part t # Text_part u # es) = False"
| "wf_text (Text_part t # Parameter_name p # es) = (t \<noteq> [] \<and> list_all plain t \<and> wf_text (Parameter_name p # es))"
| "wf_text (Parameter_name p # e # es) = (p \<noteq> [] \<and> list_all word_char p
     \<and> \<not> word_char (hd (print_element e)) \<and> wf_text (e # es))"

definition wf_line :: "query_text_element list \<Rightarrow> bool" where
  "wf_line es \<longleftrightarrow> wf_text es \<and> take 2 (print_line es) \<noteq> ''--''"

definition wf_name :: "string \<Rightarrow> bool" where
  "wf_name n \<longleftrightarrow> n \<noteq> [] \<and> list_all not_eol n \<and> \<not> is_space (hd n) \<and> hd n \<noteq> nul"

lemma char_facts [simp]:
  "word_char c \<Longrightarrow> c \<noteq> nul" "word_char c \<Longrightarrow> c \<noteq> CHR '':''" "word_char c \<Longrightarrow> c \<noteq> CHR ''=''" "\<not> word_char LF"
  "word_char c \<Longrightarrow> not_eol c" "\<not> word_char (CHR '':'')"
  by (auto simp: word_char_def not_eol_def Let_def)

lemma print_line_simps [simp]:
  "print_line [] = []" "print_line (e # es) = print_element e @ print_line es"
  by (simp_all add: print_line_def)

lemma wf_text_nonempty: "wf_text (e # es) \<Longrightarrow> print_element e \<noteq> []"
  by (cases e; cases es) (auto elim: wf_text.elims)

lemma last_butlast: "t \<noteq> [] \<Longrightarrow> last t = c \<Longrightarrow> t = butlast t @ [c]"
  by (metis append_butlast_last_id)

lemma wf_text_line:
  "wf_text es \<Longrightarrow> \<exists>u. print_line es = u @ [LF] \<and> list_all (\<lambda>c. not_eol c \<and> c \<noteq> nul) u"
proof (induction es rule: wf_text.induct)
  case (2 t)
  then have "butlast t @ [LF] = t" using last_butlast [of t LF] by simp
  then show ?case using 2 by (intro exI [of _ "butlast t"]) (simp add: plain_def list_all_iff)
next
  case (5 t p es)
  then have "wf_text (Parameter_name p # es)" by simp
  then obtain u where "print_line (Parameter_name p # es) = u @ [LF]" "list_all (\<lambda>c. not_eol c \<and> c \<noteq> nul) u"
    using "5.IH" by blast
  then show ?case using "5.prems" by (intro exI [of _ "t @ u"]) (simp add: plain_def list_all_iff ball_Un)
next
  case (6 p e es)
  then have "wf_text (e # es)" by simp
  then obtain u where "print_line (e # es) = u @ [LF]" "list_all (\<lambda>c. not_eol c \<and> c \<noteq> nul) u"
    using "6.IH" by blast
  moreover have "not_eol (CHR '':'')" by (simp add: not_eol_def)
  ultimately show ?case using "6.prems" by (intro exI [of _ "CHR '':'' # p @ u"]) (simp add: list_all_iff ball_Un)
qed simp_all

lemma text_part_plain:
  "list_all (\<lambda>c. c \<noteq> CHR '':'' \<and> c \<noteq> nul) t \<Longrightarrow> text_part (t @ r) = apfst ((@) t) (text_part r)"
  by (induction t) (simp_all add: apfst_def map_prod_def case_prod_unfold)

lemma text_part_stop: "word_char d \<Longrightarrow> text_part (CHR '':'' # d # r) = ([], CHR '':'' # d # r)"
  by simp

lemma parse_text_parameter:
  assumes "p \<noteq> []" "list_all word_char p" "r = [] \<or> \<not> word_char (hd r)"
  shows "parse_text (CHR '':'' # p @ r) = map_option ((#) (Parameter_name p)) (parse_text r)"
proof -
  obtain c q where p: "p = c # q" using assms(1) by (cases p) auto
  have s: "skip_nul (p @ r) = p @ r" using assms(2) by (simp add: skip_nul_def p)
  have t: "takeWhile word_char (p @ r) = p" "dropWhile word_char (p @ r) = r"
    using assms(2,3) by (cases r; simp add: list_all_iff takeWhile_append dropWhile_append)+
  have "parameter_name (CHR '':'' # p @ r) = Some (p, r)"
    using assms(1) by (simp add: parameter_name_def Let_def s t)
  then show ?thesis by (subst parse_text.simps) (simp add: skip_nul_def Let_def)
qed

lemma parse_text_part:
  assumes "t \<noteq> []" "list_all (\<lambda>c. c \<noteq> CHR '':'' \<and> c \<noteq> nul) t"
    and "r = [] \<or> (\<exists>d r'. r = CHR '':'' # d # r' \<and> word_char d)"
  shows "parse_text (t @ r) = map_option ((#) (Text_part t)) (parse_text r)"
proof -
  obtain c q where t: "t = c # q" "c \<noteq> CHR '':''" "c \<noteq> nul" using assms(1,2) by (cases t) auto
  have "text_part r = ([], r)" using assms(3) by auto
  then have "text_part (t @ r) = (t, r)" using text_part_plain [OF assms(2)] by simp
  moreover have "parameter_name (t @ r) = None" "skip_nul (t @ r) = t @ r"
    using t by (simp_all add: parameter_name_def skip_nul_def Let_def)
  ultimately show ?thesis using assms(1) by (subst parse_text.simps) (simp add: Let_def)
qed

lemma parse_print_line: "wf_text es \<Longrightarrow> parse_text (print_line es) = Some es"
proof (induction es rule: wf_text.induct)
  case (2 t)
  have nil: "parse_text [] = Some []" by (subst parse_text.simps) (simp add: skip_nul_def)
  have "t = butlast t @ [LF]" using 2 by (intro last_butlast) simp_all
  then have "set t = insert LF (set (butlast t))" by (metis list.simps(15) list.set(1) rotate1.simps(2) set_rotate1)
  then have "list_all (\<lambda>c. c \<noteq> CHR '':'' \<and> c \<noteq> nul) t" using 2 by (simp add: list_all_iff plain_def)
  with parse_text_part [of t "[]"] nil 2 show ?case by simp
next
  case (5 t p es)
  then have w: "wf_text (Parameter_name p # es)" "t \<noteq> []" "list_all plain t" by simp_all
  obtain d q where p: "p = d # q" "word_char d" using w(1) by (cases es; cases p) auto
  have "list_all (\<lambda>c. c \<noteq> CHR '':'' \<and> c \<noteq> nul) t" using w(3) by (auto simp: list_all_iff plain_def)
  then show ?case using parse_text_part [OF w(2), of "print_line (Parameter_name p # es)"] p 5 by simp
next
  case (6 p e es)
  then have w: "p \<noteq> []" "list_all word_char p" "\<not> word_char (hd (print_element e))" "wf_text (e # es)" by simp_all
  have "\<not> word_char (hd (print_line (e # es)))" using w(3) wf_text_nonempty [OF w(4)] by simp
  then show ?case using parse_text_parameter [OF w(1,2), of "print_line (e # es)"] 6 w(4) by simp
qed simp_all

lemma parse_line_text:
  assumes "wf_line es"
  shows "parse_line (print_line es @ rest) = Some (Line_text (print_line es), rest)"
proof -
  obtain u where u: "print_line es = u @ [LF]" "list_all (\<lambda>c. not_eol c \<and> c \<noteq> nul) u"
    using wf_text_line assms by (auto simp: wf_line_def)
  have s: "skip_nul (u @ LF # rest) = u @ LF # rest" using u(2) by (cases u) (simp_all add: skip_nul_def)
  have n: "take 2 (u @ [LF]) \<noteq> ''--''" using assms u(1) by (simp add: wf_line_def)
  have "take 2 (u @ LF # rest) \<noteq> ''--''"
  proof (cases u)
    case (Cons c v)
    then show ?thesis using n by (cases v) auto
  qed simp
  moreover have "takeWhile not_eol (u @ LF # rest) = u" "dropWhile not_eol (u @ LF # rest) = LF # rest"
    using u(2) by (simp_all add: list_all_iff takeWhile_append dropWhile_append not_eol_def)
  ultimately show ?thesis
    by (simp add: u(1) parse_line_def s Let_def parse_comment_def parse_text_line_def parse_end_def)
qed

definition header_line :: "string \<Rightarrow> string" where
  "header_line n = ''-- name: '' @ n @ [LF]"

lemma parse_line_header:
  assumes "wf_name n"
  shows "parse_line (header_line n @ rest) = Some (Line_comment (header_line n), rest)"
proof -
  let ?b = "'' name: '' @ n"
  have b: "list_all not_eol ?b" using assms by (simp add: wf_name_def not_eol_def)
  have h: "header_line n @ rest = ''--'' @ ?b @ LF # rest" by (simp add: header_line_def)
  have "takeWhile not_eol (?b @ LF # rest) = ?b" "dropWhile not_eol (?b @ LF # rest) = LF # rest"
    using b by (simp_all add: list_all_iff takeWhile_append dropWhile_append not_eol_def)
  then have "parse_comment (''--'' @ ?b @ LF # rest) = Some (Line_comment (''--'' @ ?b @ [LF]), rest)"
    by (simp add: parse_comment_def Let_def parse_end_def)
  moreover have "skip_nul (''--'' @ ?b @ LF # rest) = ''--'' @ ?b @ LF # rest" by (simp add: skip_nul_def)
  ultimately show ?thesis unfolding h parse_line_def Let_def by (simp add: header_line_def)
qed

lemma parse_header_line:
  assumes "wf_name n"
  shows "parse_header (header_line n) = Some n"
proof -
  obtain c q where n: "n = c # q" "\<not> is_space c" "c \<noteq> nul" "list_all not_eol n"
    using assms by (cases n) (auto simp: wf_name_def)
  have t: "takeWhile not_eol (n @ [LF]) = n" "dropWhile not_eol (n @ [LF]) = [LF]"
    using n(4) by (simp_all add: list_all_iff takeWhile_append dropWhile_append not_eol_def)
  have s: "skip_space (CHR '' '' # n @ [LF]) = n @ [LF]" using n(1-3) by (simp add: skip_space_def is_space_def)
  have "skip_space ('' name: '' @ n @ [LF]) = ''name: '' @ n @ [LF]" "skip_space ('': '' @ n @ [LF]) = '': '' @ n @ [LF]"
    by (simp_all add: skip_space_def is_space_def)
  moreover have "n \<noteq> []" using n(1) by simp
  ultimately show ?thesis
    by (simp add: parse_header_def header_line_def expect_def skip_nul_def Let_def t s drop_eol_def parse_end_def)
qed

definition wf_query :: "string \<times> query_text_element list list \<Rightarrow> bool" where
  "wf_query q \<longleftrightarrow> wf_name (fst q) \<and> list_all wf_line (snd q)"

definition query_lines :: "string \<times> query_text_element list list \<Rightarrow> query_line list" where
  "query_lines q = Line_comment (header_line (fst q)) # map (\<lambda>l. Line_text (print_line l)) (snd q)"

lemma lines_Some: "parse_line s = Some (l, r) \<Longrightarrow>
    parse_query_conf_lines s = bindR (parse_query_conf_lines r) (\<lambda>ls. Inr (l # ls))"
  by (subst parse_query_conf_lines.simps) simp

lemma lines_text:
  "list_all wf_line ls \<Longrightarrow> parse_query_conf_lines rest = Inr out \<Longrightarrow>
    parse_query_conf_lines (concat (map print_line ls) @ rest) = Inr (map (\<lambda>l. Line_text (print_line l)) ls @ out)"
  by (induction ls) (simp_all add: lines_Some [OF parse_line_text])

lemma lines_queries:
  "list_all wf_query qs \<Longrightarrow> parse_query_conf_lines (concat (map print_query qs)) = Inr (concat (map query_lines qs))"
proof (induction qs)
  case Nil
  then show ?case by (subst parse_query_conf_lines.simps)
      (simp add: parse_line_def skip_nul_def parse_comment_def parse_text_line_def parse_last_line_def parse_end_def)
next
  case (Cons q qs)
  then have w: "wf_name (fst q)" "list_all wf_line (snd q)" by (simp_all add: wf_query_def)
  have "concat (map print_query (q # qs)) =
      header_line (fst q) @ concat (map print_line (snd q)) @ concat (map print_query qs)"
    by (simp add: print_query_def header_line_def)
  then show ?case using lines_Some [OF parse_line_header [OF w(1)]] lines_text [OF w(2)] Cons
    by (simp add: query_lines_def)
qed

lemma visit_text_lines:
  "list_all wf_line ls \<Longrightarrow> lv_state v = State_header_parsed \<Longrightarrow> lv_queries v = qs @ [q] \<Longrightarrow>
    visit_lines (map (\<lambda>l. Line_text (print_line l)) ls @ rest) v =
    visit_lines rest (v\<lparr>lv_queries := qs @ [q\<lparr>pq_text := pq_text q @ concat ls\<rparr>]\<rparr>)"
proof (induction ls arbitrary: v q)
  case (Cons l ls)
  then have "parse_text (print_line l) = Some l" using parse_print_line by (simp add: wf_line_def)
  then have t: "visit_text (print_line l) v = Inr (v\<lparr>lv_queries := qs @ [q\<lparr>pq_text := pq_text q @ l\<rparr>]\<rparr>)"
    using Cons.prems by (simp add: visit_text_def append_text_def)
  show ?case using Cons.prems t Cons.IH [of "v\<lparr>lv_queries := qs @ [q\<lparr>pq_text := pq_text q @ l\<rparr>]\<rparr>" "q\<lparr>pq_text := pq_text q @ l\<rparr>"]
    by simp
next
  case (Nil v q)
  then show ?case by (cases v) simp
qed

text \<open>The query a printed query is read as.\<close>

definition read_query :: "string \<times> query_text_element list list \<Rightarrow> parsed_query" where
  "read_query q = \<lparr>pq_name = fst q, pq_text = concat (snd q)\<rparr>"

lemma visit_query_lines:
  assumes "wf_query q"
  shows "visit_lines (query_lines q @ rest) v =
    visit_lines rest (v\<lparr>lv_state := State_header_parsed, lv_queries := lv_queries v @ [read_query q]\<rparr>)"
proof -
  have w: "wf_name (fst q)" "list_all wf_line (snd q)" using assms by (simp_all add: wf_query_def)
  show ?thesis
    by (simp add: query_lines_def visit_comment_def parse_header_line [OF w(1)]
        visit_text_lines [OF w(2), where qs = "lv_queries v" and q = "\<lparr>pq_name = fst q, pq_text = []\<rparr>"] read_query_def)
qed

lemma visit_queries:
  "list_all wf_query qs \<Longrightarrow> visit_lines (concat (map query_lines qs)) v = Inr w \<Longrightarrow> lv_queries w = lv_queries v @ map read_query qs"
  "list_all wf_query qs \<Longrightarrow> \<exists>w. visit_lines (concat (map query_lines qs)) v = Inr w"
  by (induction qs arbitrary: v) (auto simp: visit_query_lines)

lemma parse_printed:
  assumes "list_all wf_query qs"
  shows "parse_query_conf (concat (map print_query qs)) = Inr (map read_query qs)"
proof -
  obtain w where w: "visit_lines (concat (map query_lines qs)) \<lparr>lv_state = State_initial, lv_queries = []\<rparr> = Inr w"
    using visit_queries(2) [OF assms] by blast
  then show ?thesis using visit_queries(1) [OF assms w] lines_queries [OF assms]
    by (simp add: parse_query_conf_def parse_query_conf_elements_def)
qed

text \<open>C26: reading a printed configuration gives the queries that were printed, in order, each
  with its name and the elements of its text; texts, casts written with a double colon aside, may hold any
  characters but the colon, the zero character and line ends.\<close>

theorem parse_print_conf:
  assumes "list_all wf_query qs"
  shows "parse_query_conf (concat (map print_query qs)) = Inr (map read_query qs)"
  by (rule parse_printed [OF assms])

theorem parse_print_conf_witness:
  "parse_query_conf (''-- name: q'' @ [LF] @ ''SELECT :a'' @ [LF]) =
     Inr [\<lparr>pq_name = ''q'', pq_text = [Text_part ''SELECT '', Parameter_name ''a'', Text_part [LF]]\<rparr>]"
proof -
  let ?q = "(''q'', [[Text_part ''SELECT '', Parameter_name ''a'', Text_part [LF]]])"
  have "list_all wf_query [?q]"
    by (simp add: wf_query_def wf_name_def wf_line_def plain_def not_eol_def word_char_def is_space_def)
  from parse_print_conf [OF this] show ?thesis by (simp add: print_query_def read_query_def)
qed

section \<open>The repository\<close>

lemma check_for_duplicates_iff:
  "check_for_duplicates ns names = Inr defs \<longleftrightarrow> distinct ns \<and> set ns \<inter> names = {} \<and> defs = names \<union> set ns"
  by (induction ns arbitrary: names) auto

lemma check_for_undefined_iff: "check_for_undefined qs defs = Inr () \<longleftrightarrow> set (map qd_name qs) \<subseteq> defs"
  by (induction qs) auto

lemma find_description_other: "pq_name p \<notin> qd_name ` set qs \<Longrightarrow> find_description qs p found = Inr found"
  by (induction qs arbitrary: found) auto

lemma find_description_declared:
  "distinct (map qd_name qs) \<Longrightarrow> q \<in> set qs \<Longrightarrow> pq_name p = qd_name q \<Longrightarrow>
    find_description qs p found = bindR (describe_query q p) (\<lambda>d. Inr (Some d))"
proof (induction qs arbitrary: found)
  case (Cons r qs)
  show ?case
  proof (cases "q = r")
    case True
    then have "pq_name p \<notin> qd_name ` set qs" using Cons.prems by simp
    then show ?thesis using True Cons.prems(3) by (simp add: find_description_other)
  next
    case False
    then have "qd_name r \<noteq> pq_name p" "q \<in> set qs" using Cons.prems by auto
    then show ?thesis using Cons by simp
  qed
qed simp

lemma make_query_description_name:
  assumes "distinct (map qd_name qs)" "make_query_description qs p = Inr d"
  shows "pq_name p \<in> qd_name ` set qs \<and> qs_name d = pq_name p"
proof (cases "pq_name p \<in> qd_name ` set qs")
  case True
  then obtain q where q: "q \<in> set qs" "pq_name p = qd_name q" by auto
  then show ?thesis using assms find_description_declared [OF assms(1) q]
    by (auto simp: make_query_description_def describe_query_def)
next
  case False
  then show ?thesis using assms by (simp add: make_query_description_def find_description_other)
qed

lemma make_query_descriptions_facts:
  assumes "distinct (map qd_name qs)" "make_query_descriptions qs ps = Inr ds"
  shows "map qs_name ds = map pq_name ps" "p \<in> set ps \<Longrightarrow> pq_name p \<in> qd_name ` set qs"
    "p \<in> set ps \<Longrightarrow> \<exists>d\<in>set ds. make_query_description qs p = Inr d"
  using assms(2) by (induction ps arbitrary: ds) (auto dest: make_query_description_name [OF assms(1)])

lemma make_query_conf_map: "make_query_conf ds = map_of (map (\<lambda>d. (qs_name d, qs_text d)) ds)"
proof -
  have "foldl (\<lambda>m d. if m (qs_name d) = None then m(qs_name d \<mapsto> qs_text d) else m) m ds n
      = (case m n of Some t \<Rightarrow> Some t | None \<Rightarrow> map_of (map (\<lambda>d. (qs_name d, qs_text d)) ds) n)" for m n
    by (induction ds arbitrary: m) (auto split: option.splits)
  from this [of Map.empty] show ?thesis by (simp add: make_query_conf_def fun_eq_iff)
qed

fun arity :: "parameters_type \<Rightarrow> nat" where
  "arity (Members ms) = length ms"
| "arity (Tuple_of k) = k"

lemma member_index_less: "member_index ms n = Some k \<Longrightarrow> k < length ms \<and> ms ! k = n"
  by (induction ms arbitrary: k) (auto split: if_splits)

lemma parameter_number_less: "parameter_number t n = Inr k \<Longrightarrow> k < arity t"
  using member_index_less by (cases t) (auto split: option.splits if_splits)

lemma description_parameters:
  "description_text t es = Inr w \<Longrightarrow> Parameter_name n \<in> set es \<Longrightarrow> \<exists>k. parameter_number t n = Inr k \<and> k < arity t"
  by (induction es arbitrary: w) (fastforce dest: parameter_number_less)+



end
