(* ===== verification/Transaction.thy ===== *)
theory Transaction
  imports Request Query_Builder
begin

text \<open>
  Transactions: the options and the BEGIN statement (\<open>transaction_options.h\<close>,
  \<open>detail/begin_statement_builder.h\<close>), the transaction object (\<open>transaction.h\<close>) and the operations
  that start and end a transaction (\<open>impl/transaction.h\<close>) over the request operation, which they
  use without an output (\<open>impl/async_execute.h\<close>).
\<close>

section \<open>Options\<close>

datatype isolation_level = serializable | repeatable_read | read_committed | read_uncommitted

datatype transaction_mode = read_write | read_only

datatype deferrable_mode = Deferrable bool

fun deferrable_not :: "deferrable_mode \<Rightarrow> deferrable_mode" where
  "deferrable_not (Deferrable v) = Deferrable (\<not> v)"

text \<open>An option that is not in the map, or is \<open>none\<close> there, is \<open>None\<close>.\<close>

record transaction_options =
  isolation_level_option :: "isolation_level option"
  mode_option :: "transaction_mode option"
  deferrability_option :: "deferrable_mode option"

fun isolation_level_string :: "isolation_level \<Rightarrow> string" where
  "isolation_level_string serializable = '' ISOLATION LEVEL SERIALIZABLE''"
| "isolation_level_string repeatable_read = '' ISOLATION LEVEL REPEATABLE READ''"
| "isolation_level_string read_committed = '' ISOLATION LEVEL READ COMMITTED''"
| "isolation_level_string read_uncommitted = '' ISOLATION LEVEL READ UNCOMMITTED''"

fun mode_string :: "transaction_mode \<Rightarrow> string" where
  "mode_string read_write = '' READ WRITE''"
| "mode_string read_only = '' READ ONLY''"

fun deferrability_string :: "deferrable_mode \<Rightarrow> string" where
  "deferrability_string (Deferrable v) = (if v then '' DEFERRABLE'' else '' NOT DEFERRABLE'')"

fun present :: "('o \<Rightarrow> string) \<Rightarrow> 'o option \<Rightarrow> string list" where
  "present f None = []"
| "present f (Some v) = [f v]"

text \<open>\<open>begin_statement_builder::build\<close>: the strings of the options that are present, in the
  order of the supported options.\<close>

definition begin_text :: "transaction_options \<Rightarrow> string" where
  "begin_text options = ''BEGIN'' @ concat (present isolation_level_string (isolation_level_option options)
     @ present mode_string (mode_option options) @ present deferrability_string (deferrability_option options))"

definition begin_statement :: "transaction_options \<Rightarrow> query_source" where
  "begin_statement options = make_query (begin_text options) []"

section \<open>The transaction object\<close>

text \<open>The connection is None for a null pointer; a call that reaches through it is undefined
  then, which is None in the result.\<close>

record 'p transaction =
  tx_impl :: "'p connection option"
  tx_options :: transaction_options

definition make_transaction :: "'p connection option \<Rightarrow> transaction_options \<Rightarrow> 'p transaction" where
  "make_transaction c options = \<lparr>tx_impl = c, tx_options = options\<rparr>"

definition release_connection :: "'p transaction \<Rightarrow> 'p connection option" where
  "release_connection tx = tx_impl tx"

definition on_lowest_layer :: "('p connection \<Rightarrow> 'p connection) \<Rightarrow> 'p transaction \<Rightarrow> 'p transaction option" where
  "on_lowest_layer f tx = map_option (\<lambda>c. tx\<lparr>tx_impl := Some (f c)\<rparr>) (tx_impl tx)"

definition tx_close :: "'p transaction \<Rightarrow> 'p transaction option" where
  "tx_close tx = on_lowest_layer (\<lambda>c. snd (close_connection c)) tx"

definition tx_cancel :: "'p transaction \<Rightarrow> 'p transaction option" where
  "tx_cancel tx = on_lowest_layer cancel_io tx"

definition tx_set_error_context :: "string \<Rightarrow> 'p transaction \<Rightarrow> 'p transaction option" where
  "tx_set_error_context msg tx = on_lowest_layer (set_error_context msg) tx"

definition tx_is_bad :: "('p, 'r) libpq \<Rightarrow> 'p transaction \<Rightarrow> bool option" where
  "tx_is_bad pq tx = map_option (is_bad pq) (tx_impl tx)"

definition tx_usable :: "('p, 'r) libpq \<Rightarrow> 'p transaction \<Rightarrow> bool" where
  "tx_usable pq tx \<longleftrightarrow> (case tx_impl tx of None \<Rightarrow> False | Some c \<Rightarrow> \<not> is_bad pq c)"

definition tx_is_open :: "'p transaction \<Rightarrow> bool" where
  "tx_is_open tx \<longleftrightarrow> (case tx_impl tx of None \<Rightarrow> False | Some c \<Rightarrow> is_open c)"

definition get_transaction_isolation_level :: "'p transaction \<Rightarrow> isolation_level option" where
  "get_transaction_isolation_level tx = isolation_level_option (tx_options tx)"

definition get_transaction_mode :: "'p transaction \<Rightarrow> transaction_mode option" where
  "get_transaction_mode tx = mode_option (tx_options tx)"

definition get_transaction_deferrability :: "'p transaction \<Rightarrow> deferrable_mode option" where
  "get_transaction_deferrability tx = deferrability_option (tx_options tx)"

section \<open>Operations\<close>

text \<open>\<open>none\<close> as a result processor, and \<open>async_execute\<close> once a connection is there.\<close>

definition none_processor :: "('r, unit) processor" where
  "none_processor r m out = (None, out)"

definition async_execute ::
    "('p, 'r) libpq \<Rightarrow> query_source \<Rightarrow> 'p connection \<Rightarrow> ('p, 'r, unit) request option" where
  "async_execute pq q c = start_request pq none_processor q c ()"

text \<open>\<open>async_start_transaction_op\<close>: the transaction object is made whatever the error code.\<close>

definition async_start_transaction ::
    "('p, 'r) libpq \<Rightarrow> transaction_options \<Rightarrow> 'p connection \<Rightarrow> ('p, 'r, unit) request option" where
  "async_start_transaction pq options c = async_execute pq (begin_statement options) c"

definition start_transaction_call ::
    "transaction_options \<Rightarrow> error_code \<Rightarrow> 'p connection option \<Rightarrow> error_code \<times> 'p transaction" where
  "start_transaction_call options ec c = (ec, make_transaction c options)"

text \<open>\<open>async_end_transaction_op\<close>: the connection is released whatever the error code.\<close>

definition async_end_transaction ::
    "('p, 'r) libpq \<Rightarrow> query_source \<Rightarrow> 'p transaction \<Rightarrow> ('p, 'r, unit) request option" where
  "async_end_transaction pq q tx = Option.bind (tx_impl tx) (async_execute pq q)"

definition end_transaction_call :: "error_code \<Rightarrow> 'p transaction \<Rightarrow> error_code \<times> 'p connection option" where
  "end_transaction_call ec tx = (ec, release_connection tx)"

definition commit_statement :: query_source where
  "commit_statement = build (sql ''COMMIT'')"

definition rollback_statement :: query_source where
  "rollback_statement = build (sql ''ROLLBACK'')"

definition commit :: "('p, 'r) libpq \<Rightarrow> 'p transaction \<Rightarrow> ('p, 'r, unit) request option" where
  "commit pq tx = async_end_transaction pq commit_statement tx"

definition rollback :: "('p, 'r) libpq \<Rightarrow> 'p transaction \<Rightarrow> ('p, 'r, unit) request option" where
  "rollback pq tx = async_end_transaction pq rollback_statement tx"

section \<open>A session\<close>

text \<open>The user has a connection or a transaction. A step is an operation from its start to the
  call of its handler, with the error code the handler gets.\<close>

datatype 'p session = Has_connection "'p connection" | Has_transaction "'p transaction"

datatype session_event = Begin transaction_options | Execute query_source | Commit | Rollback

definition completes ::
    "('p, 'r) libpq \<Rightarrow> ('p, 'r, unit) request option \<Rightarrow> error_code \<Rightarrow> 'p connection \<Rightarrow> bool" where
  "completes pq start ec c \<longleftrightarrow> (\<exists>s s'. start = Some s \<and> (request_step pq none_processor)\<^sup>*\<^sup>* s s'
     \<and> rq_calls s' = [ec] \<and> rq_conn s' = c)"

inductive session_step ::
    "('p, 'r) libpq \<Rightarrow> session_event \<times> error_code \<Rightarrow> 'p session \<Rightarrow> 'p session \<Rightarrow> bool" for pq where
  step_begin: "completes pq (async_start_transaction pq options c) ec c' \<Longrightarrow>
    start_transaction_call options ec (Some c') = (ec, tx) \<Longrightarrow>
    session_step pq (Begin options, ec) (Has_connection c) (Has_transaction tx)"
| step_connection: "completes pq (async_execute pq q c) ec c' \<Longrightarrow>
    session_step pq (Execute q, ec) (Has_connection c) (Has_connection c')"
| step_transaction: "tx_impl tx = Some c \<Longrightarrow> completes pq (async_execute pq q c) ec c' \<Longrightarrow>
    session_step pq (Execute q, ec) (Has_transaction tx) (Has_transaction (tx\<lparr>tx_impl := Some c'\<rparr>))"
| step_commit: "completes pq (commit pq tx) ec c' \<Longrightarrow>
    end_transaction_call ec (tx\<lparr>tx_impl := Some c'\<rparr>) = (ec, Some c'') \<Longrightarrow>
    session_step pq (Commit, ec) (Has_transaction tx) (Has_connection c'')"
| step_rollback: "completes pq (rollback pq tx) ec c' \<Longrightarrow>
    end_transaction_call ec (tx\<lparr>tx_impl := Some c'\<rparr>) = (ec, Some c'') \<Longrightarrow>
    session_step pq (Rollback, ec) (Has_transaction tx) (Has_connection c'')"

inductive_cases session_beginE: "session_step pq (Begin options, ec) s s'"
inductive_cases session_executeE: "session_step pq (Execute q, ec) s s'"
inductive_cases session_commitE: "session_step pq (Commit, ec) s s'"
inductive_cases session_rollbackE: "session_step pq (Rollback, ec) s s'"

inductive session_run ::
    "('p, 'r) libpq \<Rightarrow> (session_event \<times> error_code) list \<Rightarrow> 'p session \<Rightarrow> 'p session \<Rightarrow> bool" for pq where
  run_nil: "session_run pq [] s s"
| run_cons: "session_step pq e s s' \<Longrightarrow> session_run pq es s' s'' \<Longrightarrow> session_run pq (e # es) s s''"

section \<open>The BEGIN statement\<close>

definition all_levels :: "isolation_level option list" where
  "all_levels = [None, Some serializable, Some repeatable_read, Some read_committed, Some read_uncommitted]"

definition all_modes :: "transaction_mode option list" where
  "all_modes = [None, Some read_write, Some read_only]"

definition all_deferrabilities :: "deferrable_mode option list" where
  "all_deferrabilities = [None, Some (Deferrable True), Some (Deferrable False)]"

definition all_options :: "transaction_options list" where
  "all_options = concat (map (\<lambda>l. concat (map (\<lambda>m. map (\<lambda>d.
     \<lparr>isolation_level_option = l, mode_option = m, deferrability_option = d\<rparr>) all_deferrabilities) all_modes)) all_levels)"

lemma all_levels_complete: "l \<in> set all_levels"
proof (cases l)
  case (Some v)
  then show ?thesis by (cases v) (simp_all add: all_levels_def)
qed (simp add: all_levels_def)

lemma all_modes_complete: "m \<in> set all_modes"
proof (cases m)
  case (Some v)
  then show ?thesis by (cases v) (simp_all add: all_modes_def)
qed (simp add: all_modes_def)

lemma all_deferrabilities_complete: "d \<in> set all_deferrabilities"
proof (cases d)
  case (Some v)
  obtain b where "v = Deferrable b" by (cases v)
  then show ?thesis using Some by (cases b) (simp_all add: all_deferrabilities_def)
qed (simp add: all_deferrabilities_def)

lemma all_options_complete: "options \<in> set all_options"
proof (cases options)
  case (fields l m d)
  then show ?thesis
    using all_levels_complete [of l] all_modes_complete [of m] all_deferrabilities_complete [of d]
    by (auto simp: all_options_def)
qed

text \<open>Different options give different statements.\<close>

lemma begin_texts_distinct: "distinct (map begin_text all_options)"
  by code_simp

lemma begin_text_inj: "begin_text o1 = begin_text o2 \<longleftrightarrow> o1 = o2"
  using begin_texts_distinct all_options_complete by (auto simp: distinct_map inj_on_def)

section \<open>Sessions\<close>

text \<open>The specification: a transaction is started from the idle state only, and ended from the active
  state only.\<close>

datatype tx_phase = Idle | Active transaction_options

fun phase_step :: "session_event \<Rightarrow> tx_phase \<Rightarrow> tx_phase option" where
  "phase_step (Begin options) Idle = Some (Active options)"
| "phase_step (Execute q) p = Some p"
| "phase_step Commit (Active options) = Some Idle"
| "phase_step Rollback (Active options) = Some Idle"
| "phase_step e p = None"

fun phase_run :: "session_event list \<Rightarrow> tx_phase \<Rightarrow> tx_phase option" where
  "phase_run [] p = Some p"
| "phase_run (e # es) p = Option.bind (phase_step e p) (phase_run es)"

fun phase_of :: "'p session \<Rightarrow> tx_phase" where
  "phase_of (Has_connection c) = Idle"
| "phase_of (Has_transaction tx) = Active (tx_options tx)"

lemma session_step_phase: "session_step pq e s s' \<Longrightarrow> phase_step (fst e) (phase_of s) = Some (phase_of s')"
  by (induction rule: session_step.induct) (auto simp: start_transaction_call_def make_transaction_def)

text \<open>The connection of a session is there as long as the session is.\<close>

fun session_connection :: "'p session \<Rightarrow> 'p connection option" where
  "session_connection (Has_connection c) = Some c"
| "session_connection (Has_transaction tx) = tx_impl tx"

lemma session_step_connection: "session_step pq e s s' \<Longrightarrow> session_connection s' \<noteq> None"
  by (induction rule: session_step.induct) (auto simp: start_transaction_call_def make_transaction_def)


text \<open>The server answers a statement: libpq accepts and flushes it, asks for one read and then has a
  result of a successful command or query, followed by any number of further results.\<close>

definition answers :: "('p, 'r) libpq \<Rightarrow> binary_query \<Rightarrow> 'p \<Rightarrow> 'p \<Rightarrow> bool" where
  "answers pq bq p p' \<longleftrightarrow> (\<exists>p1 p2 p3 p4 r p5 n. PQsetnonblocking pq p = (0, p1) \<and> PQsendQueryParams pq bq p1 = (1, p2)
     \<and> PQflush pq p2 = (0, p3) \<and> PQisBusy pq p3 \<and> PQconsumeInput pq p3 = (1, p4) \<and> \<not> PQisBusy pq p4
     \<and> PQgetResult pq p4 = (Some r, p5) \<and> PQresultStatus pq r \<in> {PGRES_TUPLES_OK, PGRES_COMMAND_OK}
     \<and> drained pq n p5 = Some p')"

fun server_run :: "('p, 'r) libpq \<Rightarrow> binary_query list \<Rightarrow> 'p \<Rightarrow> 'p \<Rightarrow> bool" where
  "server_run pq [] p p' \<longleftrightarrow> p = p'"
| "server_run pq (bq # bqs) p p' \<longleftrightarrow> (\<exists>x. answers pq bq p x \<and> server_run pq bqs x p')"

lemma answers_completes:
  assumes "conn_handle c = Some p" "answers pq (to_binary_query q (conn_oid_map c)) p p'"
  shows "completes pq (async_execute pq q c) Success (c\<lparr>conn_handle := Some p'\<rparr>)"
proof -
  obtain p1 p2 p3 p4 r p5 n where a: "PQsetnonblocking pq p = (0, p1)"
      "PQsendQueryParams pq (to_binary_query q (conn_oid_map c)) p1 = (1, p2)" "PQflush pq p2 = (0, p3)" "PQisBusy pq p3"
      "PQconsumeInput pq p3 = (1, p4)" "\<not> PQisBusy pq p4" "PQgetResult pq p4 = (Some r, p5)"
      and st: "PQresultStatus pq r \<in> {PGRES_TUPLES_OK, PGRES_COMMAND_OK}" and d: "drained pq n p5 = Some p'"
    using assms(2) unfolding answers_def by (elim exE conjE) (rule that)
  have "PQresultStatus pq r \<noteq> PGRES_SINGLE_TUPLE" using st by auto
  then obtain s s' where s: "start_request pq none_processor q c () = Some s" "request_step pq none_processor s s'"
      "case response pq none_processor (conn_oid_map c) r () of (ec, out') \<Rightarrow> rq_calls s' = [ec] \<and> rq_out s' = out'"
      "rq_conn s' = c\<lparr>conn_handle := Some p'\<rparr>"
    using request_response [OF assms(1) a _ d, of none_processor "()"] st by (auto simp: none_processor_def)
  have "response pq none_processor (conn_oid_map c) r () = (Success, ())"
    using st by (auto simp: response_def none_processor_def)
  then show ?thesis using s unfolding completes_def async_execute_def by (intro exI [of _ s] exI [of _ s']) auto
qed

lemma execute_run:
  assumes "tx_impl tx = Some c" "conn_handle c = Some p"
    "server_run pq (map (\<lambda>q. to_binary_query q (conn_oid_map c)) qs) p p'"
  shows "session_run pq (map (\<lambda>q. (Execute q, Success)) qs) (Has_transaction tx)
    (Has_transaction (tx\<lparr>tx_impl := Some (c\<lparr>conn_handle := Some p'\<rparr>)\<rparr>))"
  using assms
proof (induction qs arbitrary: tx c p)
  case Nil
  then have "tx\<lparr>tx_impl := Some (c\<lparr>conn_handle := Some p'\<rparr>)\<rparr> = tx" by (cases tx; cases c) simp
  then show ?case by (simp add: run_nil)
next
  case (Cons q qs)
  then obtain x where x: "answers pq (to_binary_query q (conn_oid_map c)) p x"
      "server_run pq (map (\<lambda>q. to_binary_query q (conn_oid_map c)) qs) x p'" by auto
  let ?c = "c\<lparr>conn_handle := Some x\<rparr>"
  have "session_step pq (Execute q, Success) (Has_transaction tx) (Has_transaction (tx\<lparr>tx_impl := Some ?c\<rparr>))"
    using Cons.prems(1) answers_completes [OF Cons.prems(2) x(1)] by (rule step_transaction)
  moreover have "session_run pq (map (\<lambda>q. (Execute q, Success)) qs) (Has_transaction (tx\<lparr>tx_impl := Some ?c\<rparr>))
      (Has_transaction (tx\<lparr>tx_impl := Some (c\<lparr>conn_handle := Some p'\<rparr>)\<rparr>))"
    using Cons.IH [of "tx\<lparr>tx_impl := Some ?c\<rparr>" ?c x] x(2) by simp
  ultimately show ?case by (simp add: run_cons)
qed

lemma session_run_append:
  "session_run pq es s s' \<Longrightarrow> session_run pq es' s' s'' \<Longrightarrow> session_run pq (es @ es') s s''"
  by (induction rule: session_run.induct) (simp_all add: run_cons)

fun end_statement :: "session_event \<Rightarrow> query_source option" where
  "end_statement Commit = Some commit_statement"
| "end_statement Rollback = Some rollback_statement"
| "end_statement e = None"

lemma end_step:
  assumes "end_statement e = Some q" "tx_impl tx = Some c" "conn_handle c = Some p"
    "answers pq (to_binary_query q (conn_oid_map c)) p p'"
  shows "session_step pq (e, Success) (Has_transaction tx) (Has_connection (c\<lparr>conn_handle := Some p'\<rparr>))"
proof -
  have "completes pq (async_end_transaction pq q tx) Success (c\<lparr>conn_handle := Some p'\<rparr>)"
    using answers_completes [OF assms(3,4)] assms(2) by (simp add: async_end_transaction_def)
  moreover have "end_transaction_call Success (tx\<lparr>tx_impl := Some (c\<lparr>conn_handle := Some p'\<rparr>)\<rparr>) = (Success, Some (c\<lparr>conn_handle := Some p'\<rparr>))"
    by (simp add: end_transaction_call_def release_connection_def)
  ultimately show ?thesis using assms(1)
    by (cases e) (auto simp: commit_def rollback_def intro: step_commit step_rollback)
qed

text \<open>A server that answers every statement.\<close>

definition answering_server :: "(nat, exec_status) libpq" where
  "answering_server = sample_libpq\<lparr>PQsetnonblocking := (\<lambda>p. (0, 0)), PQflush := (\<lambda>p. (0, p))\<rparr>"

definition sample_options :: transaction_options where
  "sample_options = \<lparr>isolation_level_option = Some serializable, mode_option = Some read_only, deferrability_option = None\<rparr>"

lemma answering_server_answers: "answers answering_server bq p 2"
proof -
  have "drained answering_server 0 2 = Some 2" by (simp add: answering_server_def sample_libpq_def)
  then show ?thesis unfolding answers_def
    by (intro exI [of _ 0] exI [of _ 1] exI [of _ PGRES_COMMAND_OK] exI [of _ 2] conjI)
      (simp_all add: answering_server_def sample_libpq_def)
qed

text \<open>C20: a transaction the server answers runs to its end. When the server answers the BEGIN
  statement of the options, the statements of the user and COMMIT (or ROLLBACK), in this order, the session
  goes through the transaction with success at every step, and ends with the connection it began
  with.\<close>

theorem transaction_runs:
  assumes "conn_handle c = Some p" "end_statement e = Some q"
    and "server_run pq (map (\<lambda>q. to_binary_query q (conn_oid_map c)) (begin_statement options # qs @ [q])) p p'"
  shows "session_run pq ((Begin options, Success) # map (\<lambda>q. (Execute q, Success)) qs @ [(e, Success)])
    (Has_connection c) (Has_connection (c\<lparr>conn_handle := Some p'\<rparr>))"
proof -
  have split: "server_run pq (bqs @ [bq]) x y \<longleftrightarrow> (\<exists>z. server_run pq bqs x z \<and> answers pq bq z y)" for bqs bq x y
    by (induction bqs arbitrary: x) auto
  obtain x y where b: "answers pq (to_binary_query (begin_statement options) (conn_oid_map c)) p x"
      and m: "server_run pq (map (\<lambda>q. to_binary_query q (conn_oid_map c)) qs) x y"
      and f: "answers pq (to_binary_query q (conn_oid_map c)) y p'"
    using assms(3) by (auto simp: split)
  let ?c = "\<lambda>x. c\<lparr>conn_handle := Some x\<rparr>" and ?tx = "\<lambda>x. make_transaction (Some (c\<lparr>conn_handle := Some x\<rparr>)) options"
  have "session_step pq (Begin options, Success) (Has_connection c) (Has_transaction (?tx x))"
    using answers_completes [OF assms(1) b]
    by (intro step_begin) (simp_all add: async_start_transaction_def start_transaction_call_def)
  moreover have "session_run pq (map (\<lambda>q. (Execute q, Success)) qs) (Has_transaction (?tx x)) (Has_transaction (?tx y))"
    using execute_run [of "?tx x" "?c x" x pq qs y] m by (simp add: make_transaction_def)
  moreover have "session_step pq (e, Success) (Has_transaction (?tx y)) (Has_connection (?c p'))"
    using end_step [OF assms(2), of "?tx y" "?c y" y pq p'] f by (simp add: make_transaction_def)
  ultimately show ?thesis by (intro run_cons session_run_append [OF _ run_cons [OF _ run_nil]])
qed

theorem transaction_runs_witness:
  "session_run answering_server [(Begin sample_options, Success), (Execute sample_query, Success), (Commit, Success)]
     (Has_connection sample_connection) (Has_connection (sample_connection\<lparr>conn_handle := Some 2\<rparr>))"
  using transaction_runs [of sample_connection 0 Commit commit_statement answering_server sample_options "[sample_query]" 2]
    answering_server_answers by (auto simp: sample_connection_def)


end
