(* ===== verification/Spec2Isabelle.thy ===== *)
theory Spec2Isabelle
  imports Async_Pool Base36 Binary_IO Binary_Query Binary_Roundtrip Binary_Sizes Binary_Typing Chrono Connection Connection_Pool Connection_Source Deadline Endian Error_Codes Errors Failover Failover_Correct Oid_Map Options Pg_Catalog Pg_Definitions Pool_API Pool_Handle Pool_Queue Prelude Query_Builder Query_Conf Query_Conf_Correct Request Result Storage Streams Time_Traits Transaction Type_Traits
begin

text \<open>
  OZO is a header-only C++ client library for PostgreSQL, built on asynchronous operations
  over libpq; \<open>contrib/resource_pool\<close> is the pool of resources its connection pool
  uses. This development models the library as executable functions and step relations and
  proves what makes each part correct. Files are named relative to \<open>src/include/ozo\<close>, those of
  the resource pool relative to \<open>src/contrib/resource_pool/include/yamail/resource_pool\<close>.

  \<^bold>\<open>How the parts interact.\<close> A request takes a query and a connection provider. The provider is a
  connection source (\<open>connection_info\<close>, which connects) or a pool of connections, which waits for a
  free cell of the resource pool and connects when the cell is empty. A new connection
  first asks the server for the OIDs of the registered types. The query, made by hand, by the builder or
  from a configuration file, is converted to the binary form of its parameters and handed
  to libpq; one operation sends, another one receives, both over a shared context. The result is
  received row by row into objects. A deadline cancels the operation; a failover strategy
  starts it again; a transaction is a connection between two such requests.

  \<^bold>\<open>Theories.\<close>
  \<^item> \<open>Prelude\<close>: results as sums with \<open>bindR\<close>, C++ division, 32- and 64-bit ranges, lists, and the
    collections of simplification rules. \<open>Error_Codes\<close> has the error codes and the exceptions.
  \<^item> \<open>Endian\<close> (\<open>detail/endian.h\<close>), \<open>Streams\<close> (\<open>io/ostream.h\<close>,
    \<open>io/istream.h\<close>): byte order and the binary streams. Integers are words; what is written
    is big-endian on either kind of machine, and reading reads it back.
  \<^item> \<open>Pg_Definitions\<close>, \<open>Pg_Catalog\<close> (\<open>pg/definitions.h\<close>), \<open>Type_Traits\<close> (\<open>type_traits.h\<close>): the
    table of built-in types, compared with the catalogue of the server, and the traits and the OID map of the C++
    types, which are the constructors of \<open>ctype\<close>.
  \<^item> \<open>Chrono\<close> (\<open>ext/std/duration.h\<close>, \<open>ext/std/time_point.h\<close>): intervals and time points on
    64-bit counts with the overflow checks of the code; where they saturate and where they wrap.
  \<^item> \<open>Binary_IO\<close> (\<open>io/send.h\<close>, \<open>io/recv.h\<close>, \<open>io/size_of.h\<close>, \<open>io/array.h\<close>, \<open>io/composite.h\<close>,
    the \<open>ext\<close> types): serialization by recursion over the type. \<open>Binary_Sizes\<close> shows that \<open>size_of\<close> is
    the number of bytes \<open>send\<close> writes, \<open>Binary_Roundtrip\<close> that \<open>recv\<close> reads back what \<open>send\<close> wrote,
    \<open>Binary_Typing\<close> that \<open>recv\<close> delivers well-typed values whatever arrives. \<open>Binary_Query\<close>
    (\<open>io/binary_query.h\<close>) has the parameter arrays given to libpq.
  \<^item> \<open>Base36\<close>, \<open>Errors\<close> (\<open>error.h\<close>): SQLSTATE values, the categories and the error conditions.
  \<^item> \<open>Query_Conf\<close>, \<open>Query_Conf_Correct\<close> (\<open>query_conf.h\<close>): the grammars of the configuration file, the visitor
    and the repository. \<open>Query_Builder\<close> (\<open>query.h\<close>, \<open>impl/query.h\<close>, \<open>query_builder.h\<close>).
  \<^item> \<open>Time_Traits\<close>, \<open>Deadline\<close> (\<open>deadline.h\<close>, \<open>detail/deadline.h\<close>, \<open>impl/cancel.h\<close>): time
    constraints and the handlers that join an operation with a timer.
  \<^item> \<open>Connection\<close> (\<open>connection.h\<close>, \<open>impl/connection.h\<close>, \<open>impl/async_connect.h\<close>): the connection object, its status
    and the connect operation over the record \<open>libpq\<close> of the functions the library calls.
  \<^item> \<open>Request\<close> (\<open>impl/async_request.h\<close>, \<open>impl/io.h\<close>): the two operations of a request as a step relation that
    interleaves their waits with everything else that happens to the connection.
  \<^item> \<open>Result\<close> (\<open>result.h\<close>, \<open>impl/result.h\<close>, \<open>io/recv.h\<close>) and \<open>Oid_Map\<close>
    (\<open>impl/request_oid_map.h\<close>): rows become objects, and OIDs become the map of the connection.
  \<^item> \<open>Transaction\<close> (\<open>transaction.h\<close>, \<open>impl/transaction.h\<close>, \<open>transaction_options.h\<close>,
    \<open>detail/begin_statement_builder.h\<close>): sessions refine the protocol of transactions.
  \<^item> \<open>Failover\<close>, \<open>Failover_Correct\<close> (\<open>failover/strategy.h\<close>, \<open>failover/retry.h\<close>,
    \<open>failover/role_based.h\<close>): the locale \<open>failover_strategy\<close> is the interface of a strategy,
    interpreted on both strategies of the library.
  \<^item> \<open>Options\<close> (\<open>core/options.h\<close>): the map of options; what is got is what was set last.
  \<^item> \<open>Connection_Source\<close> (\<open>connection_info.h\<close>, \<open>connector.h\<close>, \<open>connection.h\<close>, \<open>impl/connection.h\<close>):
    sources and providers of connections; bound time-outs only ever shorten the time to connect.
  \<^item> \<open>Storage\<close>, \<open>Pool_Queue\<close>, \<open>Async_Pool\<close>, \<open>Pool_Handle\<close> (\<open>detail/storage.hpp\<close>,
    \<open>async/detail/queue.hpp\<close>, \<open>async/detail/pool_impl.hpp\<close>, \<open>handle.hpp\<close>, \<open>sync/\<close>): the resource pool. The
    locales \<open>cell_storage\<close> and \<open>request_queue\<close> are what the pool relies on; the operations of the pool
    are split where they release the lock, and a step relation interleaves clients. \<open>Pool_API\<close>
    (\<open>async/pool.hpp\<close>, \<open>sync/pool.hpp\<close>, \<open>error.hpp\<close>) has the public pools on top.
  \<^item> \<open>Connection_Pool\<close> (\<open>connection_pool.h\<close>, \<open>impl/connection_pool.h\<close>): which connections the
    pool keeps, and the time a client may wait.

  \<^bold>\<open>What is shown.\<close> Safety and conservation: cells of the pool are never lost or handed out twice,
  handlers are called once, queues keep their bounds and their timers. Functional behaviour on every
  branch: connecting, receiving rows, loading OIDs, retrying, falling back, keeping pooled
  connections. Round trips: values over the wire, rows of a result, configuration files. Refinement: the
  request queue and the transactions against their specifications. Some theorems state what the code does
  against its intention (arrays that mix null and non-null elements, intervals near the end of their range,
  empty parameters, a second completion of a request, a lost wake-up of the pool, the handle of a failed
  synchronous \<open>get\<close>).

  \<^bold>\<open>Bounds.\<close> Loops are structural recursion or have a termination proof; the loop that drops the
  remaining results (\<open>drain\<close>) may run forever on a libpq that never stops giving results, and is a partial function: the
  theorems about completion assume the number of remaining results and prove that the loop returns.
  Clocks are integers of nanoseconds; where the code saturates or overflows, the 64-bit limits are
  written out.

  \<^bold>\<open>Parameters.\<close> libpq is the record \<open>libpq\<close> (connections) and the record \<open>pq_result\<close>
  (results), with hypotheses on the answers of its functions; messages of exceptions and result
  processors are arguments. Every theorem with such a hypothesis has a witness with concrete functions.

  \<^bold>\<open>Not modelled.\<close> Concepts and type computations (\<open>core/concept.h\<close>, \<open>core/unwrap.h\<close>,
  \<open>core/nullable.h\<close>, the traits of \<open>connection.h\<close>) are decided by the compiler and have no behaviour of their
  own; the strategies of theory \<open>Failover\<close> have records for their option maps. Executors, strands, allocators and
  completion tokens (\<open>asio.h\<close>, \<open>detail/bind.h\<close>, \<open>detail/wrap_executor.h\<close>, \<open>detail/functional.h\<close>) only
  decide where a handler runs: a completion is a step of the model. Boost.Spirit, Boost.Asio, Boost.Hana
  and libpq are libraries outside the sources. Tests, examples and benchmarks are not part of the
  library.
\<close>

section \<open>A request from end to end\<close>

text \<open>C5: a query brings its rows. When libpq accepts and flushes the query, asks for one read and
  then has a result of rows, followed by any number of further results and the end of the
  response, and the cells of the result hold the binary forms of values, the request calls its
  handler exactly once, with success, and the rows of values are appended to its output in order.\<close>

theorem request_delivers_rows:
  assumes "conn_handle c = Some p0"
    and "PQsetnonblocking pq p0 = (0, p1)" "PQsendQueryParams pq (to_binary_query q (conn_oid_map c)) p1 = (1, p2)"
    and "PQflush pq p2 = (0, p3)" "PQisBusy pq p3" "PQconsumeInput pq p3 = (1, p4)" "\<not> PQisBusy pq p4"
    and "PQgetResult pq p4 = (Some r, p5)" "drained pq n p5 = Some p6"
    and tuples: "PQresultStatus pq r = PGRES_TUPLES_OK"
    and res: "fnumber_ok pr r" "PQnfields pr r = int (length (row_types T))" "PQntuples pr r = int (length vss)"
    and rows: "\<And>i. i < length vss \<Longrightarrow> row_holds pr r (conn_oid_map c) T (advance_row (int i) result_begin) (vss ! i)"
  shows "\<exists>s s'. start_request pq (async_request_out_handler what pr T) q c out = Some s \<and> rq_calls s = []
    \<and> request_step pq (async_request_out_handler what pr T) s s' \<and> rq_calls s' = [Success] \<and> rq_out s' = out @ vss
    \<and> \<not> rq_write_wait s' \<and> rq_read_wait s' = None"
proof -
  have "response pq (async_request_out_handler what pr T) (conn_oid_map c) r out = (Success, out @ vss)"
    using tuples res rows by (rule response_rows)
  moreover have "PQresultStatus pq r \<noteq> PGRES_SINGLE_TUPLE" using tuples by simp
  ultimately show ?thesis
    using request_response [OF assms(1-8) _ assms(9), of "async_request_out_handler what pr T" out] by auto
qed

theorem request_delivers_rows_witness:
  "\<exists>s s'. start_request sample_server (async_request_out_handler (\<lambda>e. ''error'') sample_oids (Single TOid)) sample_query
        sample_types [] = Some s
    \<and> request_step sample_server (async_request_out_handler (\<lambda>e. ''error'') sample_oids (Single TOid)) s s'
    \<and> rq_calls s' = [Success] \<and> rq_out s' = [[VOid 77]]"
proof -
  have c: "conn_handle sample_types = Some 0" by (simp add: sample_types_def)
  have pq: "PQsetnonblocking sample_server 0 = (0, 0)"
    "PQsendQueryParams sample_server (to_binary_query sample_query (conn_oid_map sample_types)) 0 = (1, 0)"
    "PQflush sample_server 0 = (0, 0)" "PQisBusy sample_server 0" "PQconsumeInput sample_server 0 = (1, 1)"
    "\<not> PQisBusy sample_server 1" "PQgetResult sample_server 1 = (Some PGRES_TUPLES_OK, 2)"
    "drained sample_server 0 2 = Some 2" "PQresultStatus sample_server PGRES_TUPLES_OK = PGRES_TUPLES_OK"
    by (simp_all add: sample_server_def sample_libpq_def)
  have pr: "fnumber_ok sample_oids PGRES_TUPLES_OK" "PQnfields sample_oids PGRES_TUPLES_OK = int (length (row_types (Single TOid)))"
    "PQntuples sample_oids PGRES_TUPLES_OK = int (length [[VOid 77]])"
    by (simp_all add: fnumber_ok_def sample_oids_def)
  show ?thesis
    using request_delivers_rows [OF c pq pr, of "\<lambda>e. ''error''" "[]"] sample_oids_row by simp blast
qed

end
